(* ===== verification/Prelude.thy ===== *)
theory Prelude
  imports Main "HOL-Library.Sublist" "HOL-Library.Char_ord" "HOL-Library.List_Lexorder"
    "HOL-Library.Product_Lexorder"
begin

text \<open>
  The shared layer of the development: the collections of rewrite rules the component proofs
  use, keyed tables (the rows of a relational table as a list, in physical order) with the
  contract the database components rely on, and reachability for step relations.

  Importing \<^verbatim>\<open>List_Lexorder\<close> and \<^verbatim>\<open>Char_ord\<close> makes \<open><\<close> on \<open>string\<close> the bytewise
  lexicographic order, which is what the operator \<open><\<close> of Go means on strings.
\<close>

named_theorems table_simps \<open>what a table holds after an insert, an update or a delete\<close>
named_theorems row_simps \<open>the columns a row update leaves alone\<close>
named_theorems str_simps \<open>the string functions of the Go library\<close>

type_synonym time = int
type_synonym id = string

definition second :: time where
  "second = 1000000000"

section \<open>Results\<close>

text \<open>
  A Go function that returns \<open>(value, error)\<close> is modelled by a sum: \<open>Inl e\<close> for a non-nil
  error, \<open>Inr v\<close> for a nil error.
\<close>

definition is_ok :: "'e + 'a \<Rightarrow> bool" where
  "is_ok r = (case r of Inl _ \<Rightarrow> False | Inr _ \<Rightarrow> True)"

lemma is_ok_simps [simp]: "\<not> is_ok (Inl e)" "is_ok (Inr v)"
  by (simp_all add: is_ok_def)

lemma is_ok_iff: "is_ok r \<longleftrightarrow> (\<exists>v. r = Inr v)"
  by (cases r) auto

section \<open>Tables\<close>

text \<open>
  The statements the server issues against one table: the first row a single-row query
  returns, a conditional update, a conditional delete.
\<close>

definition query_row :: "('r \<Rightarrow> bool) \<Rightarrow> 'r list \<Rightarrow> 'r option" where
  "query_row P t = List.find P t"

definition update_where :: "('r \<Rightarrow> bool) \<Rightarrow> ('r \<Rightarrow> 'r) \<Rightarrow> 'r list \<Rightarrow> 'r list" where
  "update_where P f t = map (\<lambda>r. if P r then f r else r) t"

definition delete_where :: "('r \<Rightarrow> bool) \<Rightarrow> 'r list \<Rightarrow> 'r list" where
  "delete_where P t = filter (\<lambda>r. \<not> P r) t"

lemma query_row_NoneD: "query_row P t = None \<Longrightarrow> r \<in> set t \<Longrightarrow> \<not> P r"
  by (auto simp: query_row_def find_None_iff)

lemma query_row_None_iff: "query_row P t = None \<longleftrightarrow> (\<forall>r \<in> set t. \<not> P r)"
  by (auto simp: query_row_def find_None_iff)

lemma query_row_SomeD: "query_row P t = Some r \<Longrightarrow> r \<in> set t \<and> P r"
  by (auto simp: query_row_def find_Some_iff)

lemma query_row_Nil [simp]: "query_row P [] = None"
  by (simp add: query_row_def)

lemma query_row_Cons [simp]:
  "query_row P (r # t) = (if P r then Some r else query_row P t)"
  by (simp add: query_row_def)

lemma query_row_append:
  "query_row P (t @ u) = (case query_row P t of None \<Rightarrow> query_row P u | Some r \<Rightarrow> Some r)"
  by (induction t) auto

lemma query_row_cong:
  "(\<And>r. r \<in> set t \<Longrightarrow> P r = Q r) \<Longrightarrow> query_row P t = query_row Q t"
  by (induction t) auto

lemma set_update_where:
  "set (update_where P f t) = {r \<in> set t. \<not> P r} \<union> f ` {r \<in> set t. P r}"
  by (auto simp: update_where_def)

lemma length_update_where [simp]: "length (update_where P f t) = length t"
  by (simp add: update_where_def)

lemma update_where_Nil [simp]: "update_where P f [] = []"
  by (simp add: update_where_def)

lemma update_where_Cons [simp]:
  "update_where P f (r # t) = (if P r then f r else r) # update_where P f t"
  by (simp add: update_where_def)

lemma update_where_none: "(\<And>r. r \<in> set t \<Longrightarrow> \<not> P r) \<Longrightarrow> update_where P f t = t"
  by (induction t) auto

lemma update_where_cong:
  "(\<And>r. r \<in> set t \<Longrightarrow> P r = Q r) \<Longrightarrow> update_where P f t = update_where Q f t"
  by (induction t) auto

lemma map_update_where:
  "(\<And>r. r \<in> set t \<Longrightarrow> P r \<Longrightarrow> g (f r) = g r) \<Longrightarrow> map g (update_where P f t) = map g t"
  by (induction t) auto

lemma filter_update_where:
  "(\<And>r. r \<in> set t \<Longrightarrow> P r \<Longrightarrow> \<not> Q r \<and> \<not> Q (f r)) \<Longrightarrow>
   filter Q (update_where P f t) = filter Q t"
  by (induction t) auto

lemma set_delete_where: "set (delete_where P t) = {r \<in> set t. \<not> P r}"
  by (auto simp: delete_where_def)

lemma delete_where_Nil [simp]: "delete_where P [] = []"
  by (simp add: delete_where_def)

lemma delete_where_Cons [simp]:
  "delete_where P (r # t) = (if P r then delete_where P t else r # delete_where P t)"
  by (simp add: delete_where_def)

lemma filter_delete_where:
  "(\<And>r. r \<in> set t \<Longrightarrow> P r \<Longrightarrow> \<not> Q r) \<Longrightarrow> filter Q (delete_where P t) = filter Q t"
  by (induction t) auto

lemma distinct_map_delete_where: "distinct (map g t) \<Longrightarrow> distinct (map g (delete_where P t))"
  by (simp add: delete_where_def distinct_map_filter)

lemma inj_on_key: "distinct (map g t) \<Longrightarrow> r \<in> set t \<Longrightarrow> s \<in> set t \<Longrightarrow> g r = g s \<Longrightarrow> r = s"
  by (simp add: distinct_map inj_on_def)

subsection \<open>The contract of a keyed table\<close>

text \<open>
  What a client of a table with a primary key relies on: the key column, the statements
  addressed by key, and what a later query by key sees.  Each table of the schema interprets
  this locale with its own key column.
\<close>

locale keyed_table =
  fixes key :: "'r \<Rightarrow> 'k"
    and lookup :: "'k \<Rightarrow> 'r list \<Rightarrow> 'r option"
    and modify :: "'k \<Rightarrow> ('r \<Rightarrow> 'r) \<Rightarrow> 'r list \<Rightarrow> 'r list"
    and remove :: "'k \<Rightarrow> 'r list \<Rightarrow> 'r list"
  assumes lookup_eq: "lookup k t = query_row (\<lambda>r. key r = k) t"
    and modify_eq: "modify k f t = update_where (\<lambda>r. key r = k) f t"
    and remove_eq: "remove k t = delete_where (\<lambda>r. key r = k) t"
begin

lemma lookup_SomeD: "lookup k t = Some r \<Longrightarrow> r \<in> set t \<and> key r = k"
  by (auto simp: lookup_eq dest: query_row_SomeD)

lemma lookup_in:
  assumes "distinct (map key t)" and "r \<in> set t"
  shows "lookup (key r) t = Some r"
proof (cases "lookup (key r) t")
  case None
  with assms(2) show ?thesis by (auto simp: lookup_eq query_row_None_iff)
next
  case (Some s)
  then have "s \<in> set t" and "key s = key r" by (auto dest: lookup_SomeD)
  with assms have "s = r" by (auto dest: inj_on_key)
  with Some show ?thesis by simp
qed

lemma lookup_iff:
  "distinct (map key t) \<Longrightarrow> lookup k t = Some r \<longleftrightarrow> r \<in> set t \<and> key r = k"
  by (auto dest: lookup_SomeD lookup_in)

lemma lookup_None: "lookup k t = None \<longleftrightarrow> k \<notin> key ` set t"
  by (auto simp: lookup_eq query_row_None_iff)

lemma lookup_cong:
  assumes "distinct (map key t')" and "set t = set t'"
  shows "lookup k t = lookup k t'"
proof (cases "lookup k t")
  case None
  then have "lookup k t' = None" using assms(2) by (simp add: lookup_None)
  with None show ?thesis by simp
next
  case (Some r)
  then have "r \<in> set t'" and "key r = k" using assms(2) by (auto dest: lookup_SomeD)
  then have "lookup k t' = Some r" using assms(1) lookup_in by blast
  with Some show ?thesis by simp
qed

lemma lookup_insert: "key r \<notin> key ` set t \<Longrightarrow>
  lookup k (t @ [r]) = (if k = key r then Some r else lookup k t)"
  by (induction t) (auto simp: lookup_eq)

lemma lookup_modify:
  assumes "\<And>r. key (f r) = key r"
  shows "lookup k (modify k' f t) = (if k = k' then map_option f (lookup k t) else lookup k t)"
  using assms by (induction t) (auto simp: lookup_eq modify_eq)

lemma lookup_remove: "lookup k (remove k' t) = (if k = k' then None else lookup k t)"
  by (induction t) (auto simp: lookup_eq remove_eq)

lemma distinct_insert: "distinct (map key t) \<Longrightarrow> key r \<notin> key ` set t \<Longrightarrow> distinct (map key (t @ [r]))"
  by simp

lemma distinct_modify:
  "(\<And>r. key (f r) = key r) \<Longrightarrow> distinct (map key (modify k f t)) = distinct (map key t)"
  by (simp add: modify_eq map_update_where)

lemma distinct_remove: "distinct (map key t) \<Longrightarrow> distinct (map key (remove k t))"
  by (simp add: remove_eq distinct_map_delete_where)

lemma set_modify:
  "set (modify k f t) = {r \<in> set t. key r \<noteq> k} \<union> f ` {r \<in> set t. key r = k}"
  by (simp add: modify_eq set_update_where)

lemma set_remove: "set (remove k t) = {r \<in> set t. key r \<noteq> k}"
  by (simp add: remove_eq set_delete_where)

end

section \<open>Reachability\<close>

text \<open>The states a step relation reaches from its initial states.\<close>

inductive reach :: "('s \<Rightarrow> bool) \<Rightarrow> ('s \<Rightarrow> 's \<Rightarrow> bool) \<Rightarrow> 's \<Rightarrow> bool"
  for init :: "'s \<Rightarrow> bool" and step :: "'s \<Rightarrow> 's \<Rightarrow> bool" where
  reach_init: "init s \<Longrightarrow> reach init step s"
| reach_step: "reach init step s \<Longrightarrow> step s s' \<Longrightarrow> reach init step s'"

text \<open>
  An inductive invariant of a step relation holds in every reachable state, and a relation
  between the two ends of a step that is reflexive and transitive holds along every run.
\<close>

locale invariant_system =
  fixes init :: "'s \<Rightarrow> bool" and step :: "'s \<Rightarrow> 's \<Rightarrow> bool" and invar :: "'s \<Rightarrow> bool"
  assumes init_invar: "init s \<Longrightarrow> invar s"
    and step_invar: "step s s' \<Longrightarrow> invar s \<Longrightarrow> invar s'"
begin

lemma reach_invar: "reach init step s \<Longrightarrow> invar s"
  by (induction rule: reach.induct) (auto intro: init_invar step_invar)

lemma steps_invar: "step\<^sup>*\<^sup>* s s' \<Longrightarrow> invar s \<Longrightarrow> invar s'"
  by (induction rule: rtranclp_induct) (auto intro: step_invar)

lemma steps_mono:
  assumes "step\<^sup>*\<^sup>* s s'" and "invar s" and "\<And>u. R u u"
    and "\<And>u v w. R u v \<Longrightarrow> R v w \<Longrightarrow> R u w" and "\<And>u v. invar u \<Longrightarrow> step u v \<Longrightarrow> R u v"
  shows "R s s'"
  using assms(1)
proof (induction rule: rtranclp_induct)
  case base
  show ?case by (rule assms(3))
next
  case (step u v)
  then show ?case using assms(2,4,5) steps_invar by blast
qed

end

end
