(* ===== verification/GoLib.thy ===== *)
theory GoLib
  imports Prelude
begin

text \<open>
  The parts of the Go standard library the server calls on strings and integers: package
  \<^verbatim>\<open>strings\<close> (\<open>TrimSpace\<close>, \<open>ToLower\<close>, \<open>HasPrefix\<close>, \<open>TrimPrefix\<close>, \<open>CutPrefix\<close>,
  \<open>Cut\<close>, \<open>Contains\<close>, \<open>HasSuffix\<close>, \<open>Split\<close>, \<open>TrimRight\<close>, \<open>ReplaceAll\<close>),
  \<^verbatim>\<open>strconv.Atoi\<close>, the \<^verbatim>\<open>%d\<close> and \<^verbatim>\<open>%x\<close> verbs of \<^verbatim>\<open>fmt\<close> and
  \<^verbatim>\<open>encoding/hex\<close>.  A Go string is its bytes: a \<open>char list\<close>.  \<open>TrimSpace\<close> and
  \<open>ToLower\<close> are those of the library on ASCII text, the text of host names, tokens,
  identifiers and mail domains; bytes above 127 are left alone.
\<close>

section \<open>Package strings\<close>

definition is_space :: "char \<Rightarrow> bool" where
  "is_space c = (c \<in> set [CHR 0x09, CHR 0x0A, CHR 0x0B, CHR 0x0C, CHR 0x0D, CHR 0x20])"

definition trimSpace :: "string \<Rightarrow> string" where
  "trimSpace s = rev (dropWhile is_space (rev (dropWhile is_space s)))"

definition lower_char :: "char \<Rightarrow> char" where
  "lower_char c =
     (let n = (of_char c :: nat) in if 65 \<le> n \<and> n \<le> 90 then char_of (n + 32) else c)"

definition toLower :: "string \<Rightarrow> string" where
  "toLower s = map lower_char s"

definition hasPrefix :: "string \<Rightarrow> string \<Rightarrow> bool" where
  "hasPrefix s p = prefix p s"

definition hasSuffix :: "string \<Rightarrow> string \<Rightarrow> bool" where
  "hasSuffix s p = prefix (rev p) (rev s)"

definition cutPrefix :: "string \<Rightarrow> string \<Rightarrow> string \<times> bool" where
  "cutPrefix s p = (if hasPrefix s p then (drop (length p) s, True) else (s, False))"

definition trimPrefix :: "string \<Rightarrow> string \<Rightarrow> string" where
  "trimPrefix s p = (if hasPrefix s p then drop (length p) s else s)"

fun indexOf :: "string \<Rightarrow> string \<Rightarrow> nat option" where
  "indexOf [] sub = (if sub = [] then Some 0 else None)"
| "indexOf (c # cs) sub =
     (if prefix sub (c # cs) then Some 0 else map_option Suc (indexOf cs sub))"

definition contains :: "string \<Rightarrow> string \<Rightarrow> bool" where
  "contains s sub = (indexOf s sub \<noteq> None)"

definition cut :: "string \<Rightarrow> string \<Rightarrow> string \<times> string \<times> bool" where
  "cut s sep = (case indexOf s sep of
     Some i \<Rightarrow> (take i s, drop (i + length sep) s, True)
   | None \<Rightarrow> (s, [], False))"

fun split_on :: "char \<Rightarrow> string \<Rightarrow> string list" where
  "split_on d [] = [[]]"
| "split_on d (c # cs) =
     (if c = d then [] # split_on d cs
      else (case split_on d cs of [] \<Rightarrow> [[c]] | p # ps \<Rightarrow> (c # p) # ps))"

definition trimRight :: "string \<Rightarrow> char \<Rightarrow> string" where
  "trimRight s c = rev (dropWhile (\<lambda>x. x = c) (rev s))"

text \<open>\<open>strings.ReplaceAll(s, old, "")\<close> for a separator of one byte.\<close>

definition remove_all :: "char \<Rightarrow> string \<Rightarrow> string" where
  "remove_all c s = filter (\<lambda>x. x \<noteq> c) s"

subsection \<open>Trimming\<close>

lemma dropWhile_idem_hd: "xs \<noteq> [] \<Longrightarrow> \<not> P (hd xs) \<Longrightarrow> dropWhile P xs = xs"
  by (cases xs) auto

lemma trimSpace_Nil [simp]: "trimSpace [] = []"
  by (simp add: trimSpace_def)

lemma trimSpace_ends:
  "trimSpace s \<noteq> [] \<Longrightarrow> \<not> is_space (hd (trimSpace s)) \<and> \<not> is_space (last (trimSpace s))"
proof -
  let ?u = "dropWhile is_space s"
  let ?v = "dropWhile is_space (rev ?u)"
  assume "trimSpace s \<noteq> []"
  then have v: "?v \<noteq> []" by (simp add: trimSpace_def)
  then have "\<not> is_space (hd ?v)" by (rule hd_dropWhile)
  then have l: "\<not> is_space (last (trimSpace s))"
    using v by (simp add: trimSpace_def last_rev)
  have u: "?u \<noteq> []" using v by (metis dropWhile.simps(1) rev.simps(1))
  obtain ys where ys: "rev ?u = ys @ ?v"
    by (metis takeWhile_dropWhile_id)
  then have "last (rev ?u) = last ?v" using v by (metis last_appendR)
  then have "hd (trimSpace s) = hd ?u"
    using u v by (simp add: trimSpace_def hd_rev last_rev)
  moreover have "\<not> is_space (hd ?u)" using u by (rule hd_dropWhile)
  ultimately show ?thesis using l by simp
qed

lemma trimSpace_idem [simp]: "trimSpace (trimSpace s) = trimSpace s"
proof (cases "trimSpace s = []")
  case False
  let ?t = "trimSpace s"
  have "\<not> is_space (hd ?t)" and l: "\<not> is_space (last ?t)"
    using trimSpace_ends [OF False] by auto
  then have "dropWhile is_space ?t = ?t" using False by (simp add: dropWhile_idem_hd)
  moreover have "dropWhile is_space (rev ?t) = rev ?t"
    using False l by (intro dropWhile_idem_hd) (auto simp: hd_rev)
  ultimately show ?thesis by (simp add: trimSpace_def [of ?t])
qed simp

lemma trimSpace_no_space: "list_all (\<lambda>c. \<not> is_space c) s \<Longrightarrow> trimSpace s = s"
proof -
  assume a: "list_all (\<lambda>c. \<not> is_space c) s"
  then have "dropWhile is_space s = s" by (cases s) auto
  moreover have "dropWhile is_space (rev s) = rev s"
    using a by (cases "rev s") (auto simp: list_all_iff simp flip: set_rev [of s])
  ultimately show ?thesis by (simp add: trimSpace_def)
qed

lemma lower_char_idem [simp]: "lower_char (lower_char c) = lower_char c"
proof -
  have "(of_char c :: nat) < 256" by simp
  then show ?thesis by (auto simp: lower_char_def Let_def)
qed

lemma toLower_idem [simp]: "toLower (toLower s) = toLower s"
  by (simp add: toLower_def)

lemma toLower_Nil_iff [simp]: "toLower s = [] \<longleftrightarrow> s = []"
  by (simp add: toLower_def)

lemma is_space_lower_char [simp]: "is_space (lower_char c) = is_space c"
proof -
  have c: "char_of (of_char c :: nat) = c" by simp
  consider "65 \<le> (of_char c :: nat) \<and> (of_char c :: nat) \<le> 90"
    | "\<not> (65 \<le> (of_char c :: nat) \<and> (of_char c :: nat) \<le> 90)" by blast
  then show ?thesis
  proof cases
    case 1
    then have "\<not> is_space c" by (auto simp: is_space_def)
    moreover have "\<not> is_space (lower_char c)"
    proof
      assume "is_space (lower_char c)"
      then have "(of_char (lower_char c) :: nat) \<le> 32" by (auto simp: is_space_def)
      with 1 show False by (simp add: lower_char_def Let_def)
    qed
    ultimately show ?thesis by simp
  qed (auto simp: lower_char_def Let_def)
qed

lemma toLower_trimSpace: "toLower (trimSpace s) = trimSpace (toLower s)"
  by (simp add: toLower_def trimSpace_def dropWhile_map rev_map comp_def)

subsection \<open>Searching and cutting\<close>

lemma indexOf_Some:
  "indexOf s sub = Some i \<Longrightarrow> s = take i s @ sub @ drop (i + length sub) s"
proof (induction s sub arbitrary: i rule: indexOf.induct)
  case (2 c cs sub)
  then show ?case by (cases "prefix sub (c # cs)") (auto simp: prefix_def)
qed (auto split: if_splits)

lemma indexOf_single_None: "indexOf s [c] = None \<longleftrightarrow> c \<notin> set s"
  by (induction s) auto

lemma indexOf_single_append: "c \<notin> set a \<Longrightarrow> indexOf (a @ c # b) [c] = Some (length a)"
  by (induction a) auto

lemma contains_single [simp]: "contains s [c] \<longleftrightarrow> c \<in> set s"
  by (auto simp: contains_def indexOf_single_None)

lemma cut_single: "c \<notin> set a \<Longrightarrow> cut (a @ c # b) [c] = (a, b, True)"
  by (simp add: cut_def indexOf_single_append)

lemma cut_single_none: "c \<notin> set s \<Longrightarrow> cut s [c] = (s, [], False)"
  by (simp add: cut_def indexOf_single_None [THEN iffD2])

lemma cut_found: "cut s sep = (a, b, True) \<Longrightarrow> s = a @ sep @ b"
  by (auto simp: cut_def dest: indexOf_Some split: option.splits)

lemma indexOf_single_take: "indexOf s [c] = Some i \<Longrightarrow> c \<notin> set (take i s)"
  by (induction s arbitrary: i) (auto split: if_splits)

lemma cut_single_before: "cut s [c] = (a, b, True) \<Longrightarrow> c \<notin> set a"
  by (auto simp: cut_def dest: indexOf_single_take split: option.splits)

lemma cutPrefix_append [simp]: "cutPrefix (p @ s) p = (s, True)"
  by (simp add: cutPrefix_def hasPrefix_def)

section \<open>Numbers in text\<close>

definition is_digit :: "char \<Rightarrow> bool" where
  "is_digit c = (48 \<le> (of_char c :: nat) \<and> (of_char c :: nat) \<le> 57)"

definition digit_val :: "char \<Rightarrow> nat" where
  "digit_val c = of_char c - 48"

definition digit_char :: "nat \<Rightarrow> char" where
  "digit_char n = char_of (48 + n)"

definition digits_val :: "string \<Rightarrow> nat" where
  "digits_val s = foldl (\<lambda>a c. a * 10 + digit_val c) 0 s"

fun show_nat :: "nat \<Rightarrow> string" where
  "show_nat n = (if n < 10 then [digit_char n] else show_nat (n div 10) @ [digit_char (n mod 10)])"

declare show_nat.simps [simp del]

definition show_int :: "int \<Rightarrow> string" where
  "show_int i = (if i < 0 then CHR ''-'' # show_nat (nat (- i)) else show_nat (nat i))"

definition atoi :: "string \<Rightarrow> int option" where
  "atoi s =
     (let neg = (s \<noteq> [] \<and> hd s = CHR ''-'');
          ds = (if s \<noteq> [] \<and> (hd s = CHR ''-'' \<or> hd s = CHR ''+'') then tl s else s);
          v = (if neg then - int (digits_val ds) else int (digits_val ds))
      in if ds = [] \<or> \<not> list_all is_digit ds then None
         else if - (2 ^ 63) \<le> v \<and> v < 2 ^ 63 then Some v else None)"

lemma digit_char: "n < 10 \<Longrightarrow> is_digit (digit_char n) \<and> digit_val (digit_char n) = n"
  by (simp add: is_digit_def digit_val_def digit_char_def)

lemma show_nat_not_Nil [simp]: "show_nat n \<noteq> []"
  by (subst show_nat.simps) simp

lemma show_nat_digits: "list_all is_digit (show_nat n)"
proof (induction n rule: show_nat.induct)
  case (1 n)
  then show ?case by (subst show_nat.simps) (auto simp: digit_char)
qed

lemma digits_val_snoc [simp]: "digits_val (s @ [c]) = digits_val s * 10 + digit_val c"
  by (simp add: digits_val_def)

lemma digits_val_show_nat [simp]: "digits_val (show_nat n) = n"
proof (induction n rule: show_nat.induct)
  case (1 n)
  show ?case
  proof (cases "n < 10")
    case True
    then show ?thesis by (subst show_nat.simps) (simp add: digits_val_def digit_char)
  next
    case False
    then have "digits_val (show_nat n) = n div 10 * 10 + n mod 10"
      using 1 by (subst show_nat.simps) (simp add: digit_char)
    then show ?thesis by simp
  qed
qed

lemma atoi_show_nat: "int n < 2 ^ 63 \<Longrightarrow> atoi (show_nat n) = Some (int n)"
proof -
  assume n: "int n < 2 ^ 63"
  have "is_digit (hd (show_nat n))"
    using show_nat_digits [of n] by (cases "show_nat n") auto
  then have "hd (show_nat n) \<noteq> CHR ''-''" and "hd (show_nat n) \<noteq> CHR ''+''"
    by (auto simp: is_digit_def)
  with n show ?thesis by (simp add: atoi_def show_nat_digits Let_def)
qed

section \<open>Package encoding/hex\<close>

definition hex_char :: "nat \<Rightarrow> char" where
  "hex_char n = (if n < 10 then char_of (48 + n) else char_of (87 + n))"

definition hexEncode :: "string \<Rightarrow> string" where
  "hexEncode s =
     concat (map (\<lambda>c. [hex_char (of_char c div 16), hex_char (of_char c mod 16)]) s)"

lemma length_hexEncode [simp]: "length (hexEncode s) = 2 * length s"
  by (induction s) (auto simp: hexEncode_def)

lemma hex_char_inj: "m < 16 \<Longrightarrow> n < 16 \<Longrightarrow> hex_char m = hex_char n \<Longrightarrow> m = n"
proof -
  assume m: "m < 16" and n: "n < 16" and eq: "hex_char m = hex_char n"
  have code: "of_char (hex_char k) = (if k < 10 then 48 + k else 87 + k)" if "k < 16" for k :: nat
    using that by (simp add: hex_char_def)
  have "(if m < 10 then 48 + m else 87 + m) = (if n < 10 then 48 + n else 87 + n)"
    unfolding code [OF m, symmetric] code [OF n, symmetric] eq ..
  with m n show "m = n" by presburger
qed

lemma hexEncode_inj: "hexEncode s = hexEncode t \<Longrightarrow> s = t"
proof (induction s arbitrary: t)
  case Nil
  then show ?case by (cases t) (auto simp: hexEncode_def)
next
  case (Cons c cs)
  then obtain d ds where t: "t = d # ds" by (cases t) (auto simp: hexEncode_def)
  have lt: "(of_char c :: nat) < 256" "(of_char d :: nat) < 256" by simp_all
  from Cons.prems t have "hex_char (of_char c div 16) = hex_char (of_char d div 16)"
    and "hex_char (of_char c mod 16) = hex_char (of_char d mod 16)"
    and tl: "hexEncode cs = hexEncode ds" by (auto simp: hexEncode_def)
  then have "of_char c div 16 = (of_char d div 16 :: nat)" and "of_char c mod 16 = (of_char d mod 16 :: nat)"
    using lt by (auto intro!: hex_char_inj simp: less_mult_imp_div_less)
  then have "of_char c = (of_char d :: nat)" by (metis div_mult_mod_eq)
  then have "c = d" by simp
  with Cons.IH [OF tl] t show ?case by simp
qed

end
