(* ===== verification/Sha256.thy ===== *)
theory Sha256
  imports GoLib "HOL-Library.Word"
begin

text \<open>
  \<^verbatim>\<open>sha256.Sum256\<close> of the Go standard library, as FIPS 180-4 defines it: the server derives
  worker identifiers and stored token digests from it.  All arithmetic is on \<open>32 word\<close>, so
  additions wrap as the standard requires.
\<close>

unbundle bit_operations_syntax

type_synonym w32 = "32 word"

definition sha_K :: "w32 list" where
  "sha_K = [
   1116352408, 1899447441, 3049323471, 3921009573, 961987163, 1508970993, 2453635748, 2870763221,
   3624381080, 310598401, 607225278, 1426881987, 1925078388, 2162078206, 2614888103, 3248222580,
   3835390401, 4022224774, 264347078, 604807628, 770255983, 1249150122, 1555081692, 1996064986,
   2554220882, 2821834349, 2952996808, 3210313671, 3336571891, 3584528711, 113926993, 338241895,
   666307205, 773529912, 1294757372, 1396182291, 1695183700, 1986661051, 2177026350, 2456956037,
   2730485921, 2820302411, 3259730800, 3345764771, 3516065817, 3600352804, 4094571909, 275423344,
   430227734, 506948616, 659060556, 883997877, 958139571, 1322822218, 1537002063, 1747873779,
   1955562222, 2024104815, 2227730452, 2361852424, 2428436474, 2756734187, 3204031479, 3329325298]"

definition sha_H0 :: "w32 list" where
  "sha_H0 = [1779033703, 3144134277, 1013904242, 2773480762,
             1359893119, 2600822924, 528734635, 1541459225]"

text \<open>The message schedule, kept newest word first while it grows.\<close>

fun sha_schedule :: "nat \<Rightarrow> w32 list \<Rightarrow> w32 list" where
  "sha_schedule 0 ws = rev ws"
| "sha_schedule (Suc n) ws =
     (let w2 = ws ! 1; w7 = ws ! 6; w15 = ws ! 14; w16 = ws ! 15;
          s0 = word_rotr 7 w15 XOR word_rotr 18 w15 XOR drop_bit 3 w15;
          s1 = word_rotr 17 w2 XOR word_rotr 19 w2 XOR drop_bit 10 w2
      in sha_schedule n ((s1 + w7 + s0 + w16) # ws))"

fun sha_round :: "w32 \<times> w32 \<Rightarrow> w32 list \<Rightarrow> w32 list" where
  "sha_round (k, w) [a, b, c, d, e, f, g, h] =
     (let S1 = word_rotr 6 e XOR word_rotr 11 e XOR word_rotr 25 e;
          ch = (e AND f) XOR (NOT e AND g);
          t1 = h + S1 + ch + k + w;
          S0 = word_rotr 2 a XOR word_rotr 13 a XOR word_rotr 22 a;
          maj = (a AND b) XOR (a AND c) XOR (b AND c);
          t2 = S0 + maj
      in [t1 + t2, a, b, c, d + t1, e, f, g])"
| "sha_round _ v = v"

definition sha_block :: "w32 list \<Rightarrow> w32 list \<Rightarrow> w32 list" where
  "sha_block h ws = map2 (+) h (fold sha_round (zip sha_K (sha_schedule 48 (rev ws))) h)"

definition be_bytes :: "nat \<Rightarrow> int \<Rightarrow> string" where
  "be_bytes n v = map (\<lambda>i. char_of (v div 256 ^ i mod 256)) (rev [0..<n])"

definition sha_pad :: "string \<Rightarrow> string" where
  "sha_pad s = s @ CHR 0x80 # replicate ((119 - length s mod 64) mod 64) CHR 0x00
                 @ be_bytes 8 (8 * int (length s))"

fun be_words :: "string \<Rightarrow> w32 list" where
  "be_words (a # b # c # d # s) =
     word_of_int (of_char a * 16777216 + of_char b * 65536 + of_char c * 256 + of_char d) # be_words s"
| "be_words _ = []"

fun chunks16 :: "nat \<Rightarrow> w32 list \<Rightarrow> w32 list list" where
  "chunks16 0 ws = []"
| "chunks16 (Suc n) ws = take 16 ws # chunks16 n (drop 16 ws)"

definition sha256 :: "string \<Rightarrow> string" where
  "sha256 s =
     (let ws = be_words (sha_pad s);
          h = foldl sha_block sha_H0 (chunks16 (length ws div 16) ws)
      in concat (map (\<lambda>w. be_bytes 4 (uint w)) h))"

lemma length_be_bytes [simp]: "length (be_bytes n v) = n"
  by (simp add: be_bytes_def)

lemma length_sha_round [simp]: "length v = 8 \<Longrightarrow> length (sha_round kw v) = 8"
  by (cases "(kw, v)" rule: sha_round.cases) (auto simp: Let_def)

lemma length_fold_sha_round: "length v = 8 \<Longrightarrow> length (fold sha_round kws v) = 8"
  by (induction kws arbitrary: v) auto

lemma length_foldl_sha_block: "length h = 8 \<Longrightarrow> length (foldl sha_block h bs) = 8"
  by (induction bs arbitrary: h) (auto simp: sha_block_def length_fold_sha_round)

lemma length_sha256 [simp]: "length (sha256 s) = 32"
proof -
  have "length (foldl sha_block sha_H0 bs) = 8" for bs
    by (rule length_foldl_sha_block) (simp add: sha_H0_def)
  then show ?thesis
    by (simp add: sha256_def Let_def length_concat comp_def sum_list_triv)
qed

text \<open>The padded message fills whole blocks of sixteen words.\<close>

lemma sha_fill:
  assumes "r < 64"
  shows "(119 - r) mod 64 = (if r \<le> 55 then 55 - r else 119 - r :: nat)"
proof (cases "r \<le> 55")
  case True
  then have "119 - r = (55 - r) + 64" by simp
  then have "(119 - r) mod 64 = (55 - r) mod 64" by (simp only: mod_add_self2)
  with True show ?thesis by simp
qed (use assms in simp)

lemma length_sha_pad: "64 dvd length (sha_pad s)"
proof -
  obtain q r where qr: "length s = 64 * q + r" and r: "r < 64"
    by (metis div_mod_decomp mod_less_divisor mult.commute zero_less_numeral)
  then have "length s mod 64 = r" by simp
  then have "length (sha_pad s) = 64 * q + r + 9 + (119 - r) mod 64"
    by (simp add: sha_pad_def qr)
  also have "\<dots> = 64 * (if r \<le> 55 then q + 1 else q + 2)"
    using r by (simp add: sha_fill)
  finally show ?thesis by simp
qed

end
