(* ===== verification/Model.thy ===== *)
theory Model
  imports Sha256
begin

text \<open>
  The data of package \<^verbatim>\<open>model\<close> (\<^verbatim>\<open>server/internal/model\<close>): workers, workstations, legacy
  virtual machines, members and releases.  The string-typed enumerations are datatypes with the
  values of the Postgres enum types; \<open>parse_power_state\<close> is the enum input conversion the
  database applies to a text a worker reports.
\<close>

section \<open>Enumerations\<close>

datatype worker_status = WorkerStatusActive | WorkerStatusDraining | WorkerStatusOffline

datatype power_state =
    PowerStarting | PowerRunning | PowerStopping | PowerStopped
  | PowerDeleting | PowerDeleted | PowerError

datatype desired_power_state = DesiredRunning | DesiredStopped | DesiredDeleted

datatype vm_state = VMStarting | VMBootstrapping | VMReady | VMBusy | VMDestroying | VMFailed

datatype member_role = RoleMember | RoleAdmin

fun show_power_state :: "power_state \<Rightarrow> string" where
  "show_power_state PowerStarting = ''starting''"
| "show_power_state PowerRunning = ''running''"
| "show_power_state PowerStopping = ''stopping''"
| "show_power_state PowerStopped = ''stopped''"
| "show_power_state PowerDeleting = ''deleting''"
| "show_power_state PowerDeleted = ''deleted''"
| "show_power_state PowerError = ''error''"

definition power_states :: "power_state list" where
  "power_states = [PowerStarting, PowerRunning, PowerStopping, PowerStopped,
                   PowerDeleting, PowerDeleted, PowerError]"

definition parse_power_state :: "string \<Rightarrow> power_state option" where
  "parse_power_state s = List.find (\<lambda>p. show_power_state p = s) power_states"

fun show_desired :: "desired_power_state \<Rightarrow> string" where
  "show_desired DesiredRunning = ''running''"
| "show_desired DesiredStopped = ''stopped''"
| "show_desired DesiredDeleted = ''deleted''"

lemma parse_show_power_state [simp]: "parse_power_state (show_power_state p) = Some p"
  by (cases p) (simp_all add: parse_power_state_def power_states_def)

lemma parse_power_state_SomeD: "parse_power_state s = Some p \<Longrightarrow> s = show_power_state p"
  by (auto simp: parse_power_state_def find_Some_iff)

section \<open>Records\<close>

record worker =
  wk_id :: id
  wk_hostname :: string
  wk_hardware_uuid :: string
  wk_cpu_cores :: int
  wk_memory_bytes :: int
  wk_tart_version :: string
  wk_worker_version :: string
  wk_pool_size :: int
  wk_base_image :: string
  wk_status :: worker_status
  wk_registered_at :: time
  wk_last_heartbeat :: "time option"
  wk_auth_token_hash :: "string option"
  wk_auth_token_last_used_at :: "time option"
  wk_auth_token_revoked_at :: "time option"

record workstation =
  ws_id :: id
  ws_member_id :: id
  ws_worker_id :: id
  ws_slot :: int
  ws_vm_name :: string
  ws_power_state :: power_state
  ws_desired_power_state :: desired_power_state
  ws_ip_address :: string
  ws_last_error :: string
  ws_created_at :: time
  ws_updated_at :: time

record vm =
  vm_id :: id
  vm_worker_id :: id
  vm_state :: vm_state
  vm_ip_address :: string
  vm_state_since :: time
  vm_created_at :: time

record member =
  mb_id :: id
  mb_access_sub :: string
  mb_email :: string
  mb_display_name :: string
  mb_role :: member_role
  mb_created_at :: time
  mb_updated_at :: time
  mb_last_seen_at :: time

record release =
  rel_id :: id
  rel_version :: string
  rel_sha256 :: string
  rel_size_bytes :: int
  rel_signing_identity :: string
  rel_file_path :: string
  rel_uploaded_at :: time

section \<open>Worker identifiers\<close>

text \<open>\<open>fmt.Sprintf("w-%x", h[:6])\<close>: the first six digest bytes in hexadecimal.\<close>

definition generateWorkerID :: "string \<Rightarrow> id" where
  "generateWorkerID hardwareUUID = ''w-'' @ hexEncode (take 6 (sha256 hardwareUUID))"

lemma length_generateWorkerID [simp]: "length (generateWorkerID u) = 14"
  by (simp add: generateWorkerID_def)

end
