(* ===== verification/Tables.thy ===== *)
theory Tables
  imports Model
begin

text \<open>
  The database of the server as its five tables (\<^verbatim>\<open>db/migrations/00001_initial.sql\<close>), the
  errors a query can return, and the schema's constraints as an invariant.  A transaction is a
  function on the tables; one that fails returns its error and leaves no new tables, which is the
  rollback.  Statements are those of Postgres: a single-row query takes the first matching row, a
  text given for an enum column must be one of its labels, an \<^verbatim>\<open>INT\<close> column holds 32 bits.
  \<open>ORDER BY\<close> on a text column sorts by the sort key of the database's collation, which is a
  parameter of the queries that use it.
\<close>

section \<open>Errors\<close>

datatype db_error =
    ErrNoRows
  | ErrWorkstationBeingDeleted
  | ErrNoActiveWorkers
  | ErrNoSlotsAvailable
  | ErrTargetWorkerFull
  | ErrTargetWorkerUnavailable
  | ErrReleaseVersionExists
  | ErrWorkstationNotOfWorker
  | ErrUniqueViolation
  | ErrForeignKeyViolation
  | ErrCheckViolation
  | ErrInvalidEnumInput
  | ErrIntegerOutOfRange
  | ErrRandomSource
  | ErrDriver

definition isNotFound :: "db_error \<Rightarrow> bool" where
  "isNotFound e = (e = ErrNoRows)"

definition int4_ok :: "int \<Rightarrow> bool" where
  "int4_ok i = (- (2 ^ 31) \<le> i \<and> i < 2 ^ 31)"

section \<open>The tables\<close>

record db =
  db_workers :: "worker list"
  db_members :: "member list"
  db_workstations :: "workstation list"
  db_vms :: "vm list"
  db_releases :: "release list"

definition empty_db :: db where
  "empty_db = \<lparr>db_workers = [], db_members = [], db_workstations = [], db_vms = [], db_releases = []\<rparr>"

text \<open>Queries by primary key and statements addressed by primary key.\<close>

definition find_worker :: "id \<Rightarrow> worker list \<Rightarrow> worker option" where
  "find_worker k = query_row (\<lambda>r. wk_id r = k)"

definition set_worker :: "id \<Rightarrow> (worker \<Rightarrow> worker) \<Rightarrow> worker list \<Rightarrow> worker list" where
  "set_worker k f = update_where (\<lambda>r. wk_id r = k) f"

definition drop_worker :: "id \<Rightarrow> worker list \<Rightarrow> worker list" where
  "drop_worker k = delete_where (\<lambda>r. wk_id r = k)"

definition find_workstation :: "id \<Rightarrow> workstation list \<Rightarrow> workstation option" where
  "find_workstation k = query_row (\<lambda>r. ws_id r = k)"

definition set_workstation ::
  "id \<Rightarrow> (workstation \<Rightarrow> workstation) \<Rightarrow> workstation list \<Rightarrow> workstation list" where
  "set_workstation k f = update_where (\<lambda>r. ws_id r = k) f"

definition drop_workstation :: "id \<Rightarrow> workstation list \<Rightarrow> workstation list" where
  "drop_workstation k = delete_where (\<lambda>r. ws_id r = k)"

definition find_vm :: "id \<Rightarrow> vm list \<Rightarrow> vm option" where
  "find_vm k = query_row (\<lambda>r. vm_id r = k)"

definition set_vm :: "id \<Rightarrow> (vm \<Rightarrow> vm) \<Rightarrow> vm list \<Rightarrow> vm list" where
  "set_vm k f = update_where (\<lambda>r. vm_id r = k) f"

definition drop_vm :: "id \<Rightarrow> vm list \<Rightarrow> vm list" where
  "drop_vm k = delete_where (\<lambda>r. vm_id r = k)"

definition find_member :: "string \<Rightarrow> member list \<Rightarrow> member option" where
  "find_member k = query_row (\<lambda>r. mb_access_sub r = k)"

definition set_member :: "string \<Rightarrow> (member \<Rightarrow> member) \<Rightarrow> member list \<Rightarrow> member list" where
  "set_member k f = update_where (\<lambda>r. mb_access_sub r = k) f"

definition drop_member :: "string \<Rightarrow> member list \<Rightarrow> member list" where
  "drop_member k = delete_where (\<lambda>r. mb_access_sub r = k)"

definition find_release :: "string \<Rightarrow> release list \<Rightarrow> release option" where
  "find_release k = query_row (\<lambda>r. rel_version r = k)"

definition set_release :: "string \<Rightarrow> (release \<Rightarrow> release) \<Rightarrow> release list \<Rightarrow> release list" where
  "set_release k f = update_where (\<lambda>r. rel_version r = k) f"

definition drop_release :: "string \<Rightarrow> release list \<Rightarrow> release list" where
  "drop_release k = delete_where (\<lambda>r. rel_version r = k)"

interpretation wkt: keyed_table wk_id find_worker set_worker drop_worker
  by unfold_locales (simp_all add: find_worker_def set_worker_def drop_worker_def)

interpretation wst: keyed_table ws_id find_workstation set_workstation drop_workstation
  by unfold_locales (simp_all add: find_workstation_def set_workstation_def drop_workstation_def)

interpretation vmt: keyed_table vm_id find_vm set_vm drop_vm
  by unfold_locales (simp_all add: find_vm_def set_vm_def drop_vm_def)

interpretation mbt: keyed_table mb_access_sub find_member set_member drop_member
  by unfold_locales (simp_all add: find_member_def set_member_def drop_member_def)

interpretation relt: keyed_table rel_version find_release set_release drop_release
  by unfold_locales (simp_all add: find_release_def set_release_def drop_release_def)

section \<open>The constraints of the schema\<close>

definition workers_ok :: "worker list \<Rightarrow> bool" where
  "workers_ok t = (distinct (map wk_id t) \<and> distinct (map wk_hardware_uuid t) \<and>
     list_all (\<lambda>w. wk_id w = generateWorkerID (wk_hardware_uuid w) \<and> int4_ok (wk_pool_size w)) t)"

definition members_ok :: "member list \<Rightarrow> bool" where
  "members_ok t = (distinct (map mb_id t) \<and> distinct (map mb_access_sub t))"

definition ws_place :: "workstation \<Rightarrow> id \<times> int" where
  "ws_place w = (ws_worker_id w, ws_slot w)"

definition workstations_ok :: "db \<Rightarrow> bool" where
  "workstations_ok d = (let t = db_workstations d in
     distinct (map ws_id t) \<and> distinct (map ws_vm_name t) \<and> distinct (map ws_place t) \<and>
     list_all (\<lambda>w. 0 \<le> ws_slot w \<and> ws_member_id w \<in> mb_id ` set (db_members d) \<and>
                   ws_worker_id w \<in> wk_id ` set (db_workers d)) t)"

definition vms_ok :: "db \<Rightarrow> bool" where
  "vms_ok d = (distinct (map vm_id (db_vms d)) \<and>
     list_all (\<lambda>v. vm_worker_id v \<in> wk_id ` set (db_workers d)) (db_vms d))"

definition releases_ok :: "release list \<Rightarrow> bool" where
  "releases_ok t = (distinct (map rel_id t) \<and> distinct (map rel_version t))"

definition schema_ok :: "db \<Rightarrow> bool" where
  "schema_ok d = (workers_ok (db_workers d) \<and> members_ok (db_members d) \<and> workstations_ok d \<and>
     vms_ok d \<and> releases_ok (db_releases d))"

lemmas schema_defs = schema_ok_def workers_ok_def members_ok_def workstations_ok_def vms_ok_def
  releases_ok_def Let_def

lemma schema_ok_empty [simp]: "schema_ok empty_db"
  by (simp add: schema_defs empty_db_def)

lemma schema_ok_distinct:
  assumes "schema_ok d"
  shows "distinct (map wk_id (db_workers d))" "distinct (map ws_id (db_workstations d))"
    "distinct (map vm_id (db_vms d))" "distinct (map mb_access_sub (db_members d))"
    "distinct (map rel_version (db_releases d))" "distinct (map wk_hardware_uuid (db_workers d))"
    "distinct (map ws_place (db_workstations d))" "distinct (map mb_id (db_members d))"
  using assms by (auto simp: schema_defs)

text \<open>
  Replacing the worker rows keeps the schema when the new rows are themselves well formed and
  no worker another table refers to is lost.
\<close>

lemma schema_ok_workers:
  assumes "schema_ok d" and "workers_ok t" and "wk_id ` set (db_workers d) \<subseteq> wk_id ` set t"
  shows "schema_ok (d\<lparr>db_workers := t\<rparr>)"
  using assms unfolding schema_ok_def workstations_ok_def vms_ok_def Let_def list_all_iff
  by (simp add: subset_iff)

text \<open>A workstation row may change any column but its key, its name, its place and its owners.\<close>

definition same_identity :: "workstation \<Rightarrow> workstation \<Rightarrow> bool" where
  "same_identity v w = (ws_id v = ws_id w \<and> ws_vm_name v = ws_vm_name w \<and>
     ws_place v = ws_place w \<and> ws_member_id v = ws_member_id w)"

lemma same_identityD:
  assumes "same_identity v w"
  shows "ws_id v = ws_id w" "ws_vm_name v = ws_vm_name w" "ws_place v = ws_place w"
    "ws_member_id v = ws_member_id w" "ws_worker_id v = ws_worker_id w" "ws_slot v = ws_slot w"
  using assms by (auto simp: same_identity_def ws_place_def)

lemma schema_ok_update_workstations:
  assumes ok: "schema_ok d" and same: "\<And>w. same_identity (f w) w"
  shows "schema_ok (d\<lparr>db_workstations := update_where P f (db_workstations d)\<rparr>)"
proof -
  note sameD = same_identityD [OF same]
  have cols: "map ws_id (update_where P f t) = map ws_id t"
    "map ws_vm_name (update_where P f t) = map ws_vm_name t"
    "map ws_place (update_where P f t) = map ws_place t" for t
    by (simp_all add: map_update_where sameD)
  have "list_all Q (update_where P f t)"
    if "list_all Q t" and "\<And>w. Q (f w) = Q w" for Q t
    using that by (auto simp: list_all_iff set_update_where)
  from this [where t = "db_workstations d" and
      Q = "\<lambda>w. 0 \<le> ws_slot w \<and> ws_member_id w \<in> mb_id ` set (db_members d) \<and>
               ws_worker_id w \<in> wk_id ` set (db_workers d)"]
  show ?thesis
    using ok by (simp add: schema_ok_def workstations_ok_def vms_ok_def Let_def cols sameD)
qed

lemma schema_ok_delete_workstations:
  "schema_ok d \<Longrightarrow> schema_ok (d\<lparr>db_workstations := delete_where P (db_workstations d)\<rparr>)"
  by (auto simp: schema_ok_def workstations_ok_def vms_ok_def Let_def list_all_iff
      set_delete_where intro: distinct_map_delete_where)

end
