(* ===== verification/Samples.thy ===== *)
theory Samples
  imports Tables
begin

text \<open>
  A small database on which the properties of the database package are instantiated: one active
  worker with two slots, one member, one running workstation in slot 0, one legacy machine.
\<close>

definition sample_worker :: worker where
  "sample_worker = \<lparr>wk_id = generateWorkerID ''U1'', wk_hostname = ''mac-1'', wk_hardware_uuid = ''U1'',
     wk_cpu_cores = 8, wk_memory_bytes = 16, wk_tart_version = ''2.0'', wk_worker_version = ''1.0'',
     wk_pool_size = 2, wk_base_image = ''base'', wk_status = WorkerStatusActive,
     wk_registered_at = 1, wk_last_heartbeat = Some 100, wk_auth_token_hash = None,
     wk_auth_token_last_used_at = None, wk_auth_token_revoked_at = None\<rparr>"

definition sample_member :: member where
  "sample_member = \<lparr>mb_id = ''m1'', mb_access_sub = ''s1'', mb_email = ''a@example.com'',
     mb_display_name = ''a'', mb_role = RoleMember, mb_created_at = 2, mb_updated_at = 2,
     mb_last_seen_at = 2\<rparr>"

definition sample_ws :: workstation where
  "sample_ws = \<lparr>ws_id = ''k1'', ws_member_id = ''m1'', ws_worker_id = generateWorkerID ''U1'',
     ws_slot = 0, ws_vm_name = ''ws-k1'', ws_power_state = PowerRunning,
     ws_desired_power_state = DesiredRunning, ws_ip_address = [], ws_last_error = [],
     ws_created_at = 3, ws_updated_at = 3\<rparr>"

definition sample_vm :: vm where
  "sample_vm = \<lparr>vm_id = ''v1'', vm_worker_id = generateWorkerID ''U1'', vm_state = VMReady,
     vm_ip_address = [], vm_state_since = 4, vm_created_at = 4\<rparr>"

definition sample_db :: db where
  "sample_db = \<lparr>db_workers = [sample_worker], db_members = [sample_member],
     db_workstations = [sample_ws], db_vms = [sample_vm], db_releases = []\<rparr>"

lemmas sample_defs = sample_db_def sample_worker_def sample_member_def sample_ws_def sample_vm_def

lemma sample_schema [simp]: "schema_ok sample_db"
  by (simp add: schema_defs sample_defs int4_ok_def)

lemma sample_rows:
  "db_workers sample_db = [sample_worker]" "db_members sample_db = [sample_member]"
  "db_workstations sample_db = [sample_ws]" "db_vms sample_db = [sample_vm]"
  by (simp_all add: sample_db_def)

lemma sample_find:
  "find_worker (generateWorkerID ''U1'') [sample_worker] = Some sample_worker"
  "find_workstation ''k1'' [sample_ws] = Some sample_ws"
  "find_member ''s1'' [sample_member] = Some sample_member"
  by (simp_all add: find_worker_def find_workstation_def find_member_def sample_defs)

end
