(* ===== verification/WorkersDB.thy ===== *)
theory WorkersDB
  imports Samples
begin

text \<open>
  The worker part of package \<^verbatim>\<open>db\<close>: registration, heartbeats, host name assignment
  (\<^verbatim>\<open>db/postgres.go\<close>) and worker tokens (\<^verbatim>\<open>db/worker_auth.go\<close>).  \<open>now\<close> is the
  transaction time of the database, \<open>rnd\<close> the bytes \<^verbatim>\<open>crypto/rand\<close> delivers
  (\<open>None\<close> when it fails).
\<close>

section \<open>Registration and heartbeats\<close>

definition upsertWorker :: "time \<Rightarrow> worker \<Rightarrow> db \<Rightarrow> db_error + db" where
  "upsertWorker now w d =
     (if \<not> int4_ok (wk_cpu_cores w) \<or> \<not> int4_ok (wk_pool_size w) then Inl ErrIntegerOutOfRange
      else case find_worker (wk_id w) (db_workers d) of
        Some _ \<Rightarrow> Inr (d\<lparr>db_workers := set_worker (wk_id w)
           (\<lambda>r. r\<lparr>wk_hostname := wk_hostname w, wk_cpu_cores := wk_cpu_cores w,
                  wk_memory_bytes := wk_memory_bytes w, wk_tart_version := wk_tart_version w,
                  wk_worker_version := wk_worker_version w, wk_status := WorkerStatusActive,
                  wk_last_heartbeat := Some now\<rparr>) (db_workers d)\<rparr>)
      | None \<Rightarrow>
          if wk_hardware_uuid w \<in> wk_hardware_uuid ` set (db_workers d) then Inl ErrUniqueViolation
          else Inr (d\<lparr>db_workers := db_workers d @
            [w\<lparr>wk_status := WorkerStatusActive, wk_registered_at := now,
               wk_last_heartbeat := None, wk_auth_token_hash := None,
               wk_auth_token_last_used_at := None, wk_auth_token_revoked_at := None\<rparr>]\<rparr>))"

definition updateHeartbeat :: "time \<Rightarrow> id \<Rightarrow> db \<Rightarrow> db" where
  "updateHeartbeat now workerID d = d\<lparr>db_workers := set_worker workerID
     (\<lambda>r. r\<lparr>wk_last_heartbeat := Some now, wk_status := WorkerStatusActive\<rparr>) (db_workers d)\<rparr>"

definition setWorkerOffline :: "id \<Rightarrow> db \<Rightarrow> db" where
  "setWorkerOffline workerID d = d\<lparr>db_workers := set_worker workerID
     (\<lambda>r. r\<lparr>wk_status := WorkerStatusOffline\<rparr>) (db_workers d)\<rparr>"

definition listWorkers :: "(string \<Rightarrow> string) \<Rightarrow> db \<Rightarrow> worker list" where
  "listWorkers collate d = sort_key (\<lambda>w. collate (wk_hostname w)) (db_workers d)"

section \<open>Host names\<close>

text \<open>
  The number \<open>N\<close> of a host name \<open>mac-N\<close>, as the query of \<^verbatim>\<open>AssignHostname\<close> computes it:
  0 for any other host name, an error when the digits do not fit an \<^verbatim>\<open>INT\<close>.
\<close>

definition is_mac_hostname :: "string \<Rightarrow> bool" where
  "is_mac_hostname h = (hasPrefix h ''mac-'' \<and> length h > 4 \<and> list_all is_digit (drop 4 h))"

definition hostname_number :: "string \<Rightarrow> int" where
  "hostname_number h = (if is_mac_hostname h then int (digits_val (drop 4 h)) else 0)"

definition next_hostname_number :: "worker list \<Rightarrow> int option" where
  "next_hostname_number t =
     (let ns = map (\<lambda>w. hostname_number (wk_hostname w)) t
      in if list_all int4_ok ns \<and> int4_ok (Max (set (0 # ns)) + 1)
         then Some (Max (set (0 # ns)) + 1) else None)"

definition new_host_row :: "time \<Rightarrow> id \<Rightarrow> string \<Rightarrow> string \<Rightarrow> worker" where
  "new_host_row now workerID hostname hardwareUUID =
     \<lparr>wk_id = workerID, wk_hostname = hostname, wk_hardware_uuid = hardwareUUID,
      wk_cpu_cores = 0, wk_memory_bytes = 0, wk_tart_version = [], wk_worker_version = [],
      wk_pool_size = 2, wk_base_image = ''minictl-tahoe-base'', wk_status = WorkerStatusOffline,
      wk_registered_at = now, wk_last_heartbeat = None, wk_auth_token_hash = None,
      wk_auth_token_last_used_at = None, wk_auth_token_revoked_at = None\<rparr>"

definition assignHostname :: "time \<Rightarrow> string \<Rightarrow> db \<Rightarrow> db_error + string \<times> db" where
  "assignHostname now hardwareUUID d =
     (case query_row (\<lambda>w. wk_hardware_uuid w = hardwareUUID) (db_workers d) of
        Some w \<Rightarrow> Inr (wk_hostname w, d)
      | None \<Rightarrow>
         (case next_hostname_number (db_workers d) of
            None \<Rightarrow> Inl ErrIntegerOutOfRange
          | Some nextNum \<Rightarrow>
             (let hostname = ''mac-'' @ show_int nextNum;
                  workerID = generateWorkerID hardwareUUID;
                  rows = (case find_worker workerID (db_workers d) of
                      None \<Rightarrow> db_workers d @ [new_host_row now workerID hostname hardwareUUID]
                    | Some _ \<Rightarrow> set_worker workerID (\<lambda>r. r\<lparr>wk_hostname := hostname\<rparr>) (db_workers d))
              in Inr (hostname, d\<lparr>db_workers := rows\<rparr>))))"

section \<open>Worker tokens\<close>

definition generateWorkerToken :: "string option \<Rightarrow> db_error + string" where
  "generateWorkerToken rnd = (case rnd of
     None \<Rightarrow> Inl ErrRandomSource
   | Some bytes \<Rightarrow> Inr (''wkt_'' @ hexEncode bytes))"

definition hashWorkerToken :: "string \<Rightarrow> string" where
  "hashWorkerToken token = hexEncode (sha256 token)"

definition getWorkerByHardwareUUID :: "string \<Rightarrow> db \<Rightarrow> db_error + worker" where
  "getWorkerByHardwareUUID hardwareUUID d =
     (case query_row (\<lambda>w. wk_hardware_uuid w = hardwareUUID) (db_workers d) of
        None \<Rightarrow> Inl ErrNoRows | Some w \<Rightarrow> Inr w)"

definition authenticateWorkerToken :: "string \<Rightarrow> db \<Rightarrow> db_error + worker" where
  "authenticateWorkerToken token d =
     (case query_row (\<lambda>w. wk_auth_token_hash w = Some (hashWorkerToken token) \<and>
                           wk_auth_token_revoked_at w = None) (db_workers d) of
        None \<Rightarrow> Inl ErrNoRows | Some w \<Rightarrow> Inr w)"

definition touchWorkerTokenUsage :: "time \<Rightarrow> id \<Rightarrow> db \<Rightarrow> db" where
  "touchWorkerTokenUsage now workerID d = d\<lparr>db_workers := set_worker workerID
     (\<lambda>r. r\<lparr>wk_auth_token_last_used_at := Some now\<rparr>) (db_workers d)\<rparr>"

definition issueWorkerToken :: "time \<Rightarrow> string option \<Rightarrow> id \<Rightarrow> db \<Rightarrow> db_error + string \<times> db" where
  "issueWorkerToken now rnd workerID d = (case generateWorkerToken rnd of
     Inl e \<Rightarrow> Inl e
   | Inr token \<Rightarrow> Inr (token, d\<lparr>db_workers := set_worker workerID
       (\<lambda>r. r\<lparr>wk_auth_token_hash := Some (hashWorkerToken token),
              wk_auth_token_last_used_at := Some now,
              wk_auth_token_revoked_at := None\<rparr>) (db_workers d)\<rparr>))"

section \<open>Schema preservation\<close>

lemma workers_ok_update:
  assumes "workers_ok t"
    and "\<And>w. wk_id (f w) = wk_id w" and "\<And>w. wk_hardware_uuid (f w) = wk_hardware_uuid w"
    and "\<And>w. wk_pool_size (f w) = wk_pool_size w"
  shows "workers_ok (set_worker k f t)"
proof -
  have "map wk_id (set_worker k f t) = map wk_id t"
    and "map wk_hardware_uuid (set_worker k f t) = map wk_hardware_uuid t"
    using assms by (simp_all add: set_worker_def map_update_where)
  with assms show ?thesis
    by (auto simp: workers_ok_def list_all_iff wkt.set_modify)
qed

lemma schema_ok_set_worker:
  assumes "schema_ok d" and "\<And>w. wk_id (f w) = wk_id w"
    and "\<And>w. wk_hardware_uuid (f w) = wk_hardware_uuid w"
    and "\<And>w. wk_pool_size (f w) = wk_pool_size w"
  shows "schema_ok (d\<lparr>db_workers := set_worker k f (db_workers d)\<rparr>)"
proof (rule schema_ok_workers [OF assms(1)])
  show "workers_ok (set_worker k f (db_workers d))"
    using assms by (intro workers_ok_update) (auto simp: schema_ok_def)
  have "map wk_id (set_worker k f (db_workers d)) = map wk_id (db_workers d)"
    using assms(2) by (simp add: set_worker_def map_update_where)
  then have "wk_id ` set (set_worker k f (db_workers d)) = wk_id ` set (db_workers d)"
    by (metis list.set_map)
  then show "wk_id ` set (db_workers d) \<subseteq> wk_id ` set (set_worker k f (db_workers d))" by simp
qed

lemma schema_ok_append_worker:
  assumes "schema_ok d" and "wk_id w \<notin> wk_id ` set (db_workers d)"
    and "wk_hardware_uuid w \<notin> wk_hardware_uuid ` set (db_workers d)"
    and "wk_id w = generateWorkerID (wk_hardware_uuid w)" and "int4_ok (wk_pool_size w)"
  shows "schema_ok (d\<lparr>db_workers := db_workers d @ [w]\<rparr>)"
  using assms by (intro schema_ok_workers) (auto simp: schema_ok_def workers_ok_def)

lemma upsertWorker_schema:
  assumes "schema_ok d" and "wk_id w = generateWorkerID (wk_hardware_uuid w)"
    and "upsertWorker now w d = Inr d'"
  shows "schema_ok d'"
  using assms
  by (auto simp: upsertWorker_def wkt.lookup_None intro!: schema_ok_set_worker schema_ok_append_worker
      split: if_splits option.splits)

lemma heartbeat_schema: "schema_ok d \<Longrightarrow> schema_ok (updateHeartbeat now k d)"
  and offline_schema: "schema_ok d \<Longrightarrow> schema_ok (setWorkerOffline k d)"
  and touch_schema: "schema_ok d \<Longrightarrow> schema_ok (touchWorkerTokenUsage now k d)"
  by (simp_all add: updateHeartbeat_def setWorkerOffline_def touchWorkerTokenUsage_def
      schema_ok_set_worker)

lemma issueWorkerToken_schema:
  "schema_ok d \<Longrightarrow> issueWorkerToken now rnd k d = Inr (tok, d') \<Longrightarrow> schema_ok d'"
  by (auto simp: issueWorkerToken_def intro!: schema_ok_set_worker split: sum.splits)

lemma assignHostname_schema:
  assumes "schema_ok d" and "assignHostname now u d = Inr (h, d')"
  shows "schema_ok d'"
proof (cases "query_row (\<lambda>w. wk_hardware_uuid w = u) (db_workers d)")
  case None
  then have "u \<notin> wk_hardware_uuid ` set (db_workers d)" by (auto simp: query_row_None_iff)
  with None assms show ?thesis
    by (auto simp: assignHostname_def Let_def new_host_row_def int4_ok_def wkt.lookup_None
        intro!: schema_ok_set_worker schema_ok_append_worker split: option.splits)
next
  case (Some w)
  with assms show ?thesis by (simp add: assignHostname_def)
qed

section \<open>Host names are fresh and stable\<close>

lemma hostname_number_mac: "hostname_number (''mac-'' @ show_nat n) = int n"
  using show_nat_digits [of n]
  by (simp add: hostname_number_def is_mac_hostname_def hasPrefix_def)

lemma next_hostname_number_bound:
  assumes "next_hostname_number t = Some n" and "w \<in> set t"
  shows "0 < n" and "hostname_number (wk_hostname w) < n"
proof -
  let ?ns = "0 # map (\<lambda>w. hostname_number (wk_hostname w)) t"
  have n: "n = Max (set ?ns) + 1"
    using assms(1) by (simp add: next_hostname_number_def Let_def split: if_splits)
  have "0 \<le> Max (set ?ns)" and "hostname_number (wk_hostname w) \<le> Max (set ?ns)"
    using assms(2) by (auto intro!: Max_ge)
  then show "0 < n" and "hostname_number (wk_hostname w) < n" unfolding n by simp_all
qed

lemma next_hostname_number_pos: "next_hostname_number t = Some n \<Longrightarrow> 0 < n"
proof -
  assume a: "next_hostname_number t = Some n"
  let ?ns = "0 # map (\<lambda>w. hostname_number (wk_hostname w)) t"
  have n: "n = Max (set ?ns) + 1"
    using a by (simp add: next_hostname_number_def Let_def split: if_splits)
  have "0 \<le> Max (set ?ns)" by (auto intro!: Max_ge)
  then show "0 < n" unfolding n by simp
qed

lemma next_hostname_fresh:
  assumes "next_hostname_number t = Some n"
  shows "''mac-'' @ show_int n \<notin> wk_hostname ` set t"
proof
  assume "''mac-'' @ show_int n \<in> wk_hostname ` set t"
  then obtain w where w: "w \<in> set t" "wk_hostname w = ''mac-'' @ show_int n" by auto
  have "0 < n" using assms by (rule next_hostname_number_pos)
  then have "hostname_number (wk_hostname w) = n"
    using w hostname_number_mac [of "nat n"] by (simp add: show_int_def)
  with next_hostname_number_bound(2) [OF assms w(1)] show False by simp
qed

lemma assignHostname_known:
  "query_row (\<lambda>w. wk_hardware_uuid w = u) (db_workers d) = Some w \<Longrightarrow>
   assignHostname now u d = Inr (wk_hostname w, d)"
  by (simp add: assignHostname_def)

lemma assignHostname_new:
  assumes "query_row (\<lambda>w. wk_hardware_uuid w = u) (db_workers d) = None"
    and "assignHostname now u d = Inr (h, d')"
  obtains n where "next_hostname_number (db_workers d) = Some n" and "h = ''mac-'' @ show_int n"
    and "find_worker (generateWorkerID u) (db_workers d) = None \<Longrightarrow>
         d' = d\<lparr>db_workers := db_workers d @ [new_host_row now (generateWorkerID u) h u]\<rparr>"
  using assms by (cases "next_hostname_number (db_workers d)") (auto simp: assignHostname_def Let_def)

text \<open>
  C14: Host name assignment is stable and never reuses a name.  A machine that already has a row
  gets its recorded host name and nothing changes.  A machine without one gets a name
  \<open>mac-N\<close> that no row had, and (its identifier not being taken by another machine) asking again
  at any later time returns the same name without touching the tables.
\<close>

theorem assignHostname_fresh_stable:
  assumes "assignHostname now u d = Inr (h, d')"
    and "generateWorkerID u \<notin> wk_id ` {w \<in> set (db_workers d). wk_hardware_uuid w \<noteq> u}"
  shows "assignHostname later u d' = Inr (h, d') \<and>
    (if u \<in> wk_hardware_uuid ` set (db_workers d) then d' = d
     else h \<notin> wk_hostname ` set (db_workers d))"
proof (cases "query_row (\<lambda>w. wk_hardware_uuid w = u) (db_workers d)")
  case None
  then have u: "u \<notin> wk_hardware_uuid ` set (db_workers d)" by (auto simp: query_row_None_iff)
  then have "find_worker (generateWorkerID u) (db_workers d) = None"
    using assms(2) by (auto simp: wkt.lookup_None)
  then obtain n where n: "next_hostname_number (db_workers d) = Some n" "h = ''mac-'' @ show_int n"
    and d': "d' = d\<lparr>db_workers := db_workers d @ [new_host_row now (generateWorkerID u) h u]\<rparr>"
    using assignHostname_new [OF None assms(1)] by metis
  have "query_row (\<lambda>w. wk_hardware_uuid w = u) (db_workers d') =
    Some (new_host_row now (generateWorkerID u) h u)"
    using None by (simp add: d' query_row_append new_host_row_def)
  then have "assignHostname later u d' = Inr (h, d')"
    by (simp add: assignHostname_known new_host_row_def)
  with u next_hostname_fresh [OF n(1)] n(2) show ?thesis by simp
next
  case (Some w)
  then have "u \<in> wk_hardware_uuid ` set (db_workers d)" by (auto dest: query_row_SomeD)
  with Some assms(1) show ?thesis by (simp add: assignHostname_known)
qed

lemma char_of_digits:
  "char_of (49 :: nat) = CHR ''1''" "char_of (50 :: nat) = CHR ''2''" "char_of (55 :: nat) = CHR ''7''"
  by code_simp+

lemma assignHostname_example:
  "assignHostname 0 ''U1'' empty_db = Inr (''mac-1'',
     empty_db\<lparr>db_workers := [new_host_row 0 (generateWorkerID ''U1'') ''mac-1'' ''U1'']\<rparr>)"
  by (simp add: assignHostname_def empty_db_def find_worker_def next_hostname_number_def int4_ok_def
      show_int_def show_nat.simps digit_char_def Let_def char_of_digits)

theorem assignHostname_fresh_stable_witness:
  "\<exists>d'. assignHostname 0 ''U1'' empty_db = Inr (''mac-1'', d') \<and>
     assignHostname 5 ''U1'' d' = Inr (''mac-1'', d')"
  using assignHostname_fresh_stable [OF assignHostname_example, of 5] assignHostname_example
  by (auto simp: empty_db_def)

text \<open>
  C17: A single registered host name whose number does not fit 32 bits (workers choose their host
  name when they register) makes the assignment of a name to every new machine fail.
\<close>

theorem assignHostname_poisoned:
  assumes "w \<in> set (db_workers d)" and "wk_hostname w = ''mac-'' @ show_nat n" and "n \<ge> 2147483647"
    and "u \<notin> wk_hardware_uuid ` set (db_workers d)"
  shows "assignHostname now u d = Inl ErrIntegerOutOfRange"
proof -
  let ?ns = "0 # map (\<lambda>w. hostname_number (wk_hostname w)) (db_workers d)"
  have q: "query_row (\<lambda>w. wk_hardware_uuid w = u) (db_workers d) = None"
    using assms(4) by (auto simp: query_row_None_iff)
  have "hostname_number (wk_hostname w) \<in> set ?ns" using assms(1) by simp
  then have "int n \<in> set ?ns" by (simp only: assms(2) hostname_number_mac)
  then have "int n \<le> Max (set ?ns)" by (intro Max_ge List.finite_set)
  moreover have "\<not> int4_ok (m + 1)" if "int n \<le> m" for m
    using that assms(3) by (simp add: int4_ok_def)
  ultimately have "\<not> int4_ok (Max (set ?ns) + 1)" by blast
  then have "next_hostname_number (db_workers d) = None"
    unfolding next_hostname_number_def Let_def by (simp only: simp_thms if_False)
  with q show ?thesis by (simp add: assignHostname_def)
qed

theorem assignHostname_poisoned_witness:
  "assignHostname 0 ''U2'' (empty_db\<lparr>db_workers :=
     [sample_worker\<lparr>wk_hostname := ''mac-'' @ show_nat 99999999999\<rparr>]\<rparr>) = Inl ErrIntegerOutOfRange"
  by (rule assignHostname_poisoned
      [of "sample_worker\<lparr>wk_hostname := ''mac-'' @ show_nat 99999999999\<rparr>" _ 99999999999])
    (simp_all add: sample_worker_def del: show_nat.simps)

section \<open>Tokens\<close>

lemma authenticateWorkerToken_InrD:
  "authenticateWorkerToken token d = Inr w \<Longrightarrow> w \<in> set (db_workers d) \<and>
     wk_auth_token_hash w = Some (hashWorkerToken token) \<and> wk_auth_token_revoked_at w = None"
  by (auto simp: authenticateWorkerToken_def split: option.splits dest!: query_row_SomeD)

lemma authenticateWorkerToken_exists:
  assumes "w \<in> set (db_workers d)" and "wk_auth_token_hash w = Some (hashWorkerToken token)"
    and "wk_auth_token_revoked_at w = None"
  shows "\<exists>v. authenticateWorkerToken token d = Inr v"
proof (cases "authenticateWorkerToken token d")
  case (Inl e)
  with assms show ?thesis
    by (auto simp: authenticateWorkerToken_def query_row_None_iff split: option.splits)
qed simp

lemma issueWorkerToken_rows:
  assumes "issueWorkerToken now rnd k d = Inr (tok, d')"
  shows "w \<in> set (db_workers d') \<Longrightarrow>
      (w \<in> set (db_workers d) \<and> wk_id w \<noteq> k) \<or>
      (wk_id w = k \<and> wk_auth_token_hash w = Some (hashWorkerToken tok) \<and>
       wk_auth_token_revoked_at w = None)"
    and "wk_id ` set (db_workers d') = wk_id ` set (db_workers d)"
proof -
  obtain f :: "worker \<Rightarrow> worker" where d': "db_workers d' = set_worker k f (db_workers d)"
    and f: "\<And>r. wk_id (f r) = wk_id r" "\<And>r. wk_auth_token_hash (f r) = Some (hashWorkerToken tok)"
      "\<And>r. wk_auth_token_revoked_at (f r) = None"
    using assms by (fastforce simp: issueWorkerToken_def split: sum.splits)
  show "w \<in> set (db_workers d') \<Longrightarrow>
      (w \<in> set (db_workers d) \<and> wk_id w \<noteq> k) \<or>
      (wk_id w = k \<and> wk_auth_token_hash w = Some (hashWorkerToken tok) \<and>
       wk_auth_token_revoked_at w = None)"
    using f unfolding d' wkt.set_modify by auto
  have "map wk_id (db_workers d') = map wk_id (db_workers d)"
    unfolding d' set_worker_def using f(1) by (simp add: map_update_where)
  then show "wk_id ` set (db_workers d') = wk_id ` set (db_workers d)" by (metis list.set_map)
qed

text \<open>
  C13: A token just issued to a worker authenticates as that worker (no other row storing the
  same digest), and every token with another digest stops authenticating as that worker.
\<close>

theorem issueWorkerToken_authenticates:
  assumes "issueWorkerToken now rnd k d = Inr (tok, d')" and "k \<in> wk_id ` set (db_workers d)"
    and "\<And>w. w \<in> set (db_workers d) \<Longrightarrow> wk_id w \<noteq> k \<Longrightarrow>
           wk_auth_token_hash w \<noteq> Some (hashWorkerToken tok)"
  shows "(\<exists>w. authenticateWorkerToken tok d' = Inr w \<and> wk_id w = k) \<and>
    (\<forall>old w. hashWorkerToken old \<noteq> hashWorkerToken tok \<longrightarrow>
       authenticateWorkerToken old d' = Inr w \<longrightarrow> wk_id w \<noteq> k)"
proof (intro conjI allI impI)
  have rows: "w \<in> set (db_workers d') \<Longrightarrow> wk_id w = k \<Longrightarrow>
      wk_auth_token_hash w = Some (hashWorkerToken tok) \<and> wk_auth_token_revoked_at w = None" for w
    using issueWorkerToken_rows [OF assms(1)] by auto
  obtain w where w: "w \<in> set (db_workers d')" "wk_id w = k"
    using issueWorkerToken_rows(2) [OF assms(1)] assms(2) by (metis imageE)
  then obtain v where v: "authenticateWorkerToken tok d' = Inr v"
    using rows [OF w] authenticateWorkerToken_exists by blast
  then have "wk_id v = k"
    using issueWorkerToken_rows(1) [OF assms(1)] assms(3) by (auto dest!: authenticateWorkerToken_InrD)
  with v show "\<exists>w. authenticateWorkerToken tok d' = Inr w \<and> wk_id w = k" by blast
  fix old w
  assume "hashWorkerToken old \<noteq> hashWorkerToken tok" and "authenticateWorkerToken old d' = Inr w"
  then show "wk_id w \<noteq> k" using rows by (auto dest!: authenticateWorkerToken_InrD)
qed

lemma issueWorkerToken_example:
  "issueWorkerToken 7 (Some ''r'') (generateWorkerID ''U1'') sample_db =
     Inr (''wkt_72'', sample_db\<lparr>db_workers := [sample_worker\<lparr>
       wk_auth_token_hash := Some (hashWorkerToken ''wkt_72''),
       wk_auth_token_last_used_at := Some 7, wk_auth_token_revoked_at := None\<rparr>]\<rparr>)"
  by (simp add: issueWorkerToken_def generateWorkerToken_def sample_defs set_worker_def
      hexEncode_def hex_char_def char_of_digits)

theorem issueWorkerToken_authenticates_witness:
  "\<exists>d' w. issueWorkerToken 7 (Some ''r'') (generateWorkerID ''U1'') sample_db = Inr (''wkt_72'', d') \<and>
     authenticateWorkerToken ''wkt_72'' d' = Inr w \<and> wk_id w = generateWorkerID ''U1''"
  using issueWorkerToken_authenticates [OF issueWorkerToken_example] issueWorkerToken_example
  by (auto simp: sample_defs)

section \<open>Registration keeps what belongs to the row\<close>

text \<open>
  Registering a machine that already has a row keeps its pool size, base image and token
  digest, whatever the server is configured with now: the configured pool size reaches only the
  row of a machine seen for the first time.
\<close>

theorem upsertWorker_keeps_pool:
  assumes "upsertWorker now w d = Inr d'" and "find_worker (wk_id w) (db_workers d) = Some r"
  shows "\<exists>r'. find_worker (wk_id w) (db_workers d') = Some r' \<and> wk_pool_size r' = wk_pool_size r \<and>
     wk_base_image r' = wk_base_image r \<and> wk_auth_token_hash r' = wk_auth_token_hash r \<and>
     wk_status r' = WorkerStatusActive \<and> wk_last_heartbeat r' = Some now"
  using assms by (auto simp: upsertWorker_def wkt.lookup_modify split: if_splits)

end
