(* ===== verification/Scheduler.thy ===== *)
theory Scheduler
  imports Samples
begin

text \<open>
  Claiming a workstation (\<^verbatim>\<open>db/workstations.go\<close>): the worker and the slot a claim gets, and
  the insert that takes them.  \<open>server_now\<close> is \<^verbatim>\<open>time.Now()\<close> of the server, \<open>now\<close> the
  transaction time of the database, \<open>uuid\<close> the identifier \<^verbatim>\<open>uuid.NewString()\<close> returns,
  \<open>collate\<close> the sort key of the database's collation.  The advisory lock makes the whole
  transaction one step.
\<close>

definition schedulableHeartbeatWindow :: time where
  "schedulableHeartbeatWindow = 30 * second"

section \<open>The scheduler\<close>

text \<open>
  \<open>existing\<close> has the Go type \<^verbatim>\<open>map[string]map[int]bool\<close>: the occupied slots of a worker,
  each once, and the empty list where the map has no entry.
\<close>

type_synonym slot_map = "id \<Rightarrow> int list"

record candidate =
  cand_workerID :: id
  cand_slot :: int
  cand_count :: nat

definition listSchedulableWorkers :: "(string \<Rightarrow> string) \<Rightarrow> time \<Rightarrow> db \<Rightarrow> worker list" where
  "listSchedulableWorkers collate cutoff d =
     sort_key (\<lambda>w. (collate (wk_hostname w), collate (wk_id w)))
       (filter (\<lambda>w. wk_status w = WorkerStatusActive \<and>
          (case wk_last_heartbeat w of None \<Rightarrow> False | Some t \<Rightarrow> cutoff \<le> t)) (db_workers d))"

definition mark_slot :: "workstation \<Rightarrow> slot_map \<Rightarrow> slot_map" where
  "mark_slot w m = m(ws_worker_id w := List.insert (ws_slot w) (m (ws_worker_id w)))"

definition listAllocatedSlots :: "db \<Rightarrow> slot_map" where
  "listAllocatedSlots d = fold mark_slot (db_workstations d) (\<lambda>_. [])"

function first_slot_from :: "int \<Rightarrow> int \<Rightarrow> int list \<Rightarrow> int \<times> bool" where
  "first_slot_from slot poolSize occupied =
     (if slot < poolSize
      then if slot \<in> set occupied then first_slot_from (slot + 1) poolSize occupied else (slot, True)
      else (0, False))"
  by pat_completeness auto
termination
  by (relation "measure (\<lambda>(slot, poolSize, _). nat (poolSize - slot))") auto

declare first_slot_from.simps [simp del]

definition firstAvailableSlot :: "worker \<Rightarrow> int list \<Rightarrow> int \<times> bool" where
  "firstAvailableSlot worker occupied = first_slot_from 0 (wk_pool_size worker) occupied"

fun select_preferred :: "worker list \<Rightarrow> slot_map \<Rightarrow> id \<Rightarrow> db_error + candidate" where
  "select_preferred [] existing preferred = Inl ErrTargetWorkerUnavailable"
| "select_preferred (worker # workers) existing preferred =
     (if wk_id worker \<noteq> preferred then select_preferred workers existing preferred
      else case firstAvailableSlot worker (existing (wk_id worker)) of
          (slot, False) \<Rightarrow> Inl ErrTargetWorkerFull
        | (slot, True) \<Rightarrow> Inr \<lparr>cand_workerID = wk_id worker, cand_slot = slot,
                               cand_count = length (existing (wk_id worker))\<rparr>)"

fun select_best :: "worker list \<Rightarrow> slot_map \<Rightarrow> candidate \<Rightarrow> candidate" where
  "select_best [] existing best = best"
| "select_best (worker # workers) existing best =
     (case firstAvailableSlot worker (existing (wk_id worker)) of
        (slot, False) \<Rightarrow> select_best workers existing best
      | (slot, True) \<Rightarrow>
         (let count = length (existing (wk_id worker));
              isFirstCandidate = (cand_slot best = -1)
          in select_best workers existing
              (if isFirstCandidate \<or> count < cand_count best \<or>
                  (count = cand_count best \<and>
                   (wk_id worker < cand_workerID best \<or>
                    (wk_id worker = cand_workerID best \<and> slot < cand_slot best)))
               then \<lparr>cand_workerID = wk_id worker, cand_slot = slot, cand_count = count\<rparr>
               else best)))"

definition no_candidate :: candidate where
  "no_candidate = \<lparr>cand_workerID = [], cand_slot = -1, cand_count = 0\<rparr>"

lemma no_candidate_slot [simp]: "cand_slot no_candidate = -1"
  by (simp add: no_candidate_def)

definition selectWorkstationCandidate ::
  "worker list \<Rightarrow> slot_map \<Rightarrow> id \<Rightarrow> db_error + candidate" where
  "selectWorkstationCandidate workers existing preferredWorkerID =
     (if preferredWorkerID \<noteq> [] then select_preferred workers existing preferredWorkerID
      else let best = select_best workers existing no_candidate
           in if cand_slot best = -1 then Inl ErrNoSlotsAvailable else Inr best)"

definition generateWorkstationVMName :: "id \<Rightarrow> string" where
  "generateWorkstationVMName workstationID =
     (let trimmed = remove_all CHR ''-'' workstationID
      in ''ws-'' @ (if length trimmed > 12 then take 12 trimmed else trimmed))"

text \<open>The insert fails where it would break a constraint of the schema.\<close>

definition insertWorkstation ::
  "time \<Rightarrow> id \<Rightarrow> id \<Rightarrow> id \<Rightarrow> int \<Rightarrow> db \<Rightarrow> db_error + workstation \<times> db" where
  "insertWorkstation now uuid memberID workerID slot d =
     (let w = \<lparr>ws_id = uuid, ws_member_id = memberID, ws_worker_id = workerID, ws_slot = slot,
               ws_vm_name = generateWorkstationVMName uuid, ws_power_state = PowerStarting,
               ws_desired_power_state = DesiredRunning, ws_ip_address = [], ws_last_error = [],
               ws_created_at = now, ws_updated_at = now\<rparr>;
          t = db_workstations d
      in if \<not> int4_ok slot then Inl ErrIntegerOutOfRange
         else if slot < 0 then Inl ErrCheckViolation
         else if uuid \<in> ws_id ` set t \<or> ws_vm_name w \<in> ws_vm_name ` set t \<or>
              ws_place w \<in> ws_place ` set t then Inl ErrUniqueViolation
         else if memberID \<notin> mb_id ` set (db_members d) \<or> workerID \<notin> wk_id ` set (db_workers d)
              then Inl ErrForeignKeyViolation
         else Inr (w, d\<lparr>db_workstations := t @ [w]\<rparr>))"

definition claimWorkstation ::
  "(string \<Rightarrow> string) \<Rightarrow> time \<Rightarrow> time \<Rightarrow> id \<Rightarrow> id \<Rightarrow> id \<Rightarrow> db \<Rightarrow>
   db_error + (workstation \<times> bool) \<times> db" where
  "claimWorkstation collate server_now now uuid memberID preferredWorkerID d =
     (let workers = listSchedulableWorkers collate (server_now - schedulableHeartbeatWindow) d
      in if workers = [] then Inl ErrNoActiveWorkers
         else case selectWorkstationCandidate workers (listAllocatedSlots d) preferredWorkerID of
             Inl e \<Rightarrow> Inl e
           | Inr best \<Rightarrow>
              (case insertWorkstation now uuid memberID (cand_workerID best) (cand_slot best) d of
                 Inl e \<Rightarrow> Inl e
               | Inr (w, d') \<Rightarrow> Inr ((w, True), d')))"

section \<open>Free slots\<close>

lemma first_slot_from_True:
  "first_slot_from s n occ = (r, True) \<longleftrightarrow>
   s \<le> r \<and> r < n \<and> r \<notin> set occ \<and> (\<forall>i. s \<le> i \<and> i < r \<longrightarrow> i \<in> set occ)"
proof (induction s n occ rule: first_slot_from.induct)
  case (1 s n occ)
  show ?case
  proof (cases "s < n \<and> s \<in> set occ")
    case True
    then have "first_slot_from s n occ = first_slot_from (s + 1) n occ"
      by (simp add: first_slot_from.simps [of s])
    moreover have "(\<forall>i. s \<le> i \<and> i < r \<longrightarrow> i \<in> set occ) \<longleftrightarrow> (\<forall>i. s + 1 \<le> i \<and> i < r \<longrightarrow> i \<in> set occ)"
      using True by (metis order_le_less zless_add1_eq zle_add1_eq_le add.commute linorder_not_le)
    ultimately show ?thesis using 1 True by (auto simp: order_le_less)
  next
    case False
    then show ?thesis
      by (auto simp: first_slot_from.simps [of s] order_le_less)
  qed
qed

lemma first_slot_from_False:
  "snd (first_slot_from s n occ) = False \<longleftrightarrow> (\<forall>i. s \<le> i \<and> i < n \<longrightarrow> i \<in> set occ)"
proof (induction s n occ rule: first_slot_from.induct)
  case (1 s n occ)
  show ?case
  proof (cases "s < n \<and> s \<in> set occ")
    case True
    then have "first_slot_from s n occ = first_slot_from (s + 1) n occ"
      by (simp add: first_slot_from.simps [of s])
    moreover have "(\<forall>i. s \<le> i \<and> i < n \<longrightarrow> i \<in> set occ) \<longleftrightarrow> (\<forall>i. s + 1 \<le> i \<and> i < n \<longrightarrow> i \<in> set occ)"
      using True by (metis order_le_less zless_add1_eq zle_add1_eq_le add.commute linorder_not_le)
    ultimately show ?thesis using 1 True by simp
  next
    case False
    then show ?thesis by (auto simp: first_slot_from.simps [of s])
  qed
qed

lemma firstAvailableSlot_True:
  "firstAvailableSlot w occ = (r, True) \<longleftrightarrow>
   0 \<le> r \<and> r < wk_pool_size w \<and> r \<notin> set occ \<and> (\<forall>i. 0 \<le> i \<and> i < r \<longrightarrow> i \<in> set occ)"
  by (simp add: firstAvailableSlot_def first_slot_from_True)

definition has_free_slot :: "worker \<Rightarrow> int list \<Rightarrow> bool" where
  "has_free_slot w occ = snd (firstAvailableSlot w occ)"

lemma has_free_slot_iff:
  "has_free_slot w occ \<longleftrightarrow> (\<exists>i. 0 \<le> i \<and> i < wk_pool_size w \<and> i \<notin> set occ)"
  using first_slot_from_False [of 0 "wk_pool_size w" occ]
  by (auto simp: has_free_slot_def firstAvailableSlot_def)

lemma has_free_slot_count:
  assumes "int (length occ) < wk_pool_size w"
  shows "has_free_slot w occ"
proof (rule ccontr)
  assume "\<not> has_free_slot w occ"
  then have "{0..<wk_pool_size w} \<subseteq> set occ" by (auto simp: has_free_slot_iff)
  then have "card {0..<wk_pool_size w} \<le> card (set occ)" by (intro card_mono) auto
  also have "\<dots> \<le> length occ" by (rule card_length)
  finally show False using assms by simp
qed

section \<open>Allocated slots\<close>

lemma fold_mark_slot:
  "set (fold mark_slot t m k) = set (m k) \<union> ws_slot ` {w \<in> set t. ws_worker_id w = k}"
  by (induction t arbitrary: m) (auto simp: mark_slot_def)

lemma distinct_fold_mark_slot: "distinct (m k) \<Longrightarrow> distinct (fold mark_slot t m k)"
proof (induction t arbitrary: m)
  case (Cons w t)
  have "distinct (mark_slot w m k)" using Cons.prems by (auto simp: mark_slot_def)
  with Cons.IH show ?case by simp
qed simp

lemma set_listAllocatedSlots:
  "set (listAllocatedSlots d k) = ws_slot ` {w \<in> set (db_workstations d). ws_worker_id w = k}"
  by (simp add: listAllocatedSlots_def fold_mark_slot)

lemma length_listAllocatedSlots:
  assumes "schema_ok d"
  shows "length (listAllocatedSlots d k) =
    length (filter (\<lambda>w. ws_worker_id w = k) (db_workstations d))"
proof -
  let ?r = "filter (\<lambda>w. ws_worker_id w = k) (db_workstations d)"
  have places: "distinct (map ws_place (db_workstations d))" using assms by (rule schema_ok_distinct)
  have "distinct (map ws_place ?r)" using places by (rule distinct_map_filter)
  then have "distinct (map ws_slot ?r)" by (auto simp: distinct_map inj_on_def ws_place_def)
  then have "length ?r = card (set (map ws_slot ?r))" by (metis distinct_card length_map)
  also have "set (map ws_slot ?r) = set (listAllocatedSlots d k)"
    by (auto simp: set_listAllocatedSlots)
  also have "card \<dots> = length (listAllocatedSlots d k)"
    by (simp add: distinct_card listAllocatedSlots_def distinct_fold_mark_slot)
  finally show ?thesis by simp
qed

section \<open>Choosing a candidate\<close>

text \<open>The order the selection loop keeps the least of: load first, then worker, then slot.\<close>

definition cand_key :: "candidate \<Rightarrow> nat \<times> id \<times> int" where
  "cand_key c = (cand_count c, cand_workerID c, cand_slot c)"

definition cand_of :: "slot_map \<Rightarrow> worker \<Rightarrow> candidate option" where
  "cand_of existing w = (case firstAvailableSlot w (existing (wk_id w)) of
     (slot, False) \<Rightarrow> None
   | (slot, True) \<Rightarrow> Some \<lparr>cand_workerID = wk_id w, cand_slot = slot,
                           cand_count = length (existing (wk_id w))\<rparr>)"

definition candidates :: "worker list \<Rightarrow> slot_map \<Rightarrow> candidate list" where
  "candidates ws existing = List.map_filter (cand_of existing) ws"

definition keep_better :: "candidate \<Rightarrow> candidate \<Rightarrow> candidate" where
  "keep_better best c = (if cand_slot best = -1 \<or> cand_key c < cand_key best then c else best)"

lemma cand_key_inj: "cand_key a = cand_key b \<Longrightarrow> a = b"
  by (cases a; cases b) (simp add: cand_key_def)

lemma candidates_simps [simp]:
  "candidates [] e = []"
  "candidates (w # ws) e =
     (case cand_of e w of None \<Rightarrow> candidates ws e | Some c \<Rightarrow> c # candidates ws e)"
  by (auto simp: candidates_def List.map_filter_def split: option.splits)

lemma set_candidates: "set (candidates ws e) = {c. \<exists>w \<in> set ws. cand_of e w = Some c}"
  by (induction ws) (auto split: option.splits)

lemma cand_of_Some:
  "cand_of e w = Some c \<longleftrightarrow> cand_workerID c = wk_id w \<and>
     firstAvailableSlot w (e (wk_id w)) = (cand_slot c, True) \<and> cand_count c = length (e (wk_id w))"
  by (cases c) (auto simp: cand_of_def split: prod.splits bool.splits)

lemma cand_of_slot: "cand_of e w = Some c \<Longrightarrow> 0 \<le> cand_slot c"
  by (auto simp: cand_of_Some firstAvailableSlot_True)

lemma cand_of_None: "cand_of e w = None \<longleftrightarrow> \<not> has_free_slot w (e (wk_id w))"
  by (auto simp: cand_of_def has_free_slot_def split: prod.splits bool.splits)

lemma select_best_fold: "select_best ws e best = foldl keep_better best (candidates ws e)"
proof (induction ws arbitrary: best)
  case (Cons w ws)
  obtain slot ok where f: "firstAvailableSlot w (e (wk_id w)) = (slot, ok)" by force
  show ?case
  proof (cases ok)
    case True
    let ?c = "\<lparr>cand_workerID = wk_id w, cand_slot = slot, cand_count = length (e (wk_id w))\<rparr>"
    have "cand_of e w = Some ?c" using f True by (simp add: cand_of_def)
    moreover have "cand_key ?c < cand_key best \<longleftrightarrow> length (e (wk_id w)) < cand_count best \<or>
      (length (e (wk_id w)) = cand_count best \<and> (wk_id w < cand_workerID best \<or>
       (wk_id w = cand_workerID best \<and> slot < cand_slot best)))"
      by (auto simp: cand_key_def less_prod_def)
    ultimately show ?thesis using f True Cons.IH by (simp add: keep_better_def Let_def)
  next
    case False
    with f Cons.IH show ?thesis by (simp add: cand_of_def)
  qed
qed simp

lemma foldl_keep_better:
  assumes "cand_slot best \<noteq> -1" and "\<And>c. c \<in> set cs \<Longrightarrow> cand_slot c \<noteq> -1"
  shows "foldl keep_better best cs \<in> insert best (set cs) \<and>
    (\<forall>c \<in> insert best (set cs). cand_key (foldl keep_better best cs) \<le> cand_key c)"
  using assms
proof (induction cs arbitrary: best)
  case (Cons c cs)
  have kb: "keep_better best c \<in> {best, c}" "cand_key (keep_better best c) \<le> cand_key best"
    "cand_key (keep_better best c) \<le> cand_key c"
    using Cons.prems by (auto simp: keep_better_def)
  then have "cand_slot (keep_better best c) \<noteq> -1" using Cons.prems by auto
  from Cons.IH [OF this] Cons.prems(2) kb show ?case
    by (auto intro: order_trans)
qed simp

lemma select_best_least:
  shows "candidates ws e = [] \<Longrightarrow> select_best ws e no_candidate = no_candidate"
    and "candidates ws e \<noteq> [] \<Longrightarrow> select_best ws e no_candidate \<in> set (candidates ws e) \<and>
      (\<forall>c \<in> set (candidates ws e). cand_key (select_best ws e no_candidate) \<le> cand_key c)"
proof -
  show "candidates ws e = [] \<Longrightarrow> select_best ws e no_candidate = no_candidate"
    by (simp add: select_best_fold)
  assume "candidates ws e \<noteq> []"
  then obtain c cs where cs: "candidates ws e = c # cs" by (cases "candidates ws e") auto
  have slots: "x \<in> set (candidates ws e) \<Longrightarrow> cand_slot x \<noteq> -1" for x
    by (auto simp: set_candidates dest: cand_of_slot)
  have "keep_better no_candidate c = c" by (simp add: keep_better_def)
  then have "select_best ws e no_candidate = foldl keep_better c cs"
    by (simp add: select_best_fold cs)
  with foldl_keep_better [of c cs] slots
  show "select_best ws e no_candidate \<in> set (candidates ws e) \<and>
      (\<forall>c \<in> set (candidates ws e). cand_key (select_best ws e no_candidate) \<le> cand_key c)"
    by (simp add: cs)
qed

lemma selectWorkstationCandidate_any:
  "selectWorkstationCandidate ws e [] =
     (if candidates ws e = [] then Inl ErrNoSlotsAvailable
      else Inr (select_best ws e no_candidate))"
proof (cases "candidates ws e = []")
  case True
  then show ?thesis
    by (simp add: selectWorkstationCandidate_def Let_def select_best_least(1))
next
  case False
  then have "select_best ws e no_candidate \<in> set (candidates ws e)" by (simp add: select_best_least(2))
  then have "0 \<le> cand_slot (select_best ws e no_candidate)"
    by (auto simp: set_candidates dest: cand_of_slot)
  with False show ?thesis by (simp add: selectWorkstationCandidate_def Let_def)
qed

text \<open>
  The slot search returns the least free slot of the worker's pool, and fails exactly when
  every slot of the pool is occupied.
\<close>

theorem firstAvailableSlot_least:
  "case firstAvailableSlot w occ of
     (s, True) \<Rightarrow> 0 \<le> s \<and> s < wk_pool_size w \<and> s \<notin> set occ \<and> {0..<s} \<subseteq> set occ
   | (s, False) \<Rightarrow> {0..<wk_pool_size w} \<subseteq> set occ"
proof -
  obtain s ok where f: "firstAvailableSlot w occ = (s, ok)" by force
  show ?thesis
  proof (cases ok)
    case True
    with f firstAvailableSlot_True [of w occ s] show ?thesis by auto
  next
    case False
    with f have "\<not> has_free_slot w occ" by (simp add: has_free_slot_def)
    with f False show ?thesis by (auto simp: has_free_slot_iff)
  qed
qed



lemma select_best_cong:
  assumes "set ws = set ws'"
  shows "selectWorkstationCandidate ws e [] = selectWorkstationCandidate ws' e []"
proof (cases "candidates ws e = []")
  case True
  moreover have same: "set (candidates ws e) = set (candidates ws' e)"
    using assms by (simp add: set_candidates)
  ultimately have "candidates ws' e = []" by simp
  with True show ?thesis by (simp add: selectWorkstationCandidate_any)
next
  case False
  have same: "set (candidates ws e) = set (candidates ws' e)"
    using assms by (simp add: set_candidates)
  with False have "candidates ws' e \<noteq> []" by auto
  with False same select_best_least(2) [of ws e] select_best_least(2) [of ws' e]
  show ?thesis
    by (auto simp: selectWorkstationCandidate_any intro!: cand_key_inj intro: order_antisym)
qed

lemma select_preferred_find:
  "select_preferred ws e p = (case query_row (\<lambda>w. wk_id w = p) ws of
     None \<Rightarrow> Inl ErrTargetWorkerUnavailable
   | Some w \<Rightarrow> (case cand_of e w of None \<Rightarrow> Inl ErrTargetWorkerFull | Some c \<Rightarrow> Inr c))"
  by (induction ws) (auto simp: cand_of_def split: prod.splits bool.splits)

lemma selectWorkstationCandidate_cong:
  assumes "set ws = set ws'" and "distinct (map wk_id ws)" and "distinct (map wk_id ws')"
  shows "selectWorkstationCandidate ws e p = selectWorkstationCandidate ws' e p"
proof (cases "p = []")
  case True
  show ?thesis unfolding True using assms(1) by (rule select_best_cong)
next
  case False
  have "find_worker p ws = find_worker p ws'"
    using assms(3,1) by (rule wkt.lookup_cong)
  with False show ?thesis
    by (simp add: selectWorkstationCandidate_def select_preferred_find wkt.lookup_eq)
qed

lemma set_listSchedulableWorkers:
  "set (listSchedulableWorkers c cutoff d) = {w \<in> set (db_workers d).
     wk_status w = WorkerStatusActive \<and> (\<exists>t. wk_last_heartbeat w = Some t \<and> cutoff \<le> t)}"
  by (auto simp: listSchedulableWorkers_def split: option.splits)

lemma distinct_listSchedulableWorkers:
  "schema_ok d \<Longrightarrow> distinct (map wk_id (listSchedulableWorkers c cutoff d))"
  by (simp add: listSchedulableWorkers_def distinct_map schema_ok_def workers_ok_def)
    (auto simp: inj_on_def)

text \<open>
  C16: The outcome of a claim does not depend on the order in which the database returns the
  schedulable workers, hence not on its collation.
\<close>

theorem claimWorkstation_collation_independent:
  assumes "schema_ok d"
  shows "claimWorkstation collate server_now now uuid m p d =
         claimWorkstation collate' server_now now uuid m p d"
proof -
  let ?cut = "server_now - schedulableHeartbeatWindow"
  let ?ws = "listSchedulableWorkers collate ?cut d" and ?ws' = "listSchedulableWorkers collate' ?cut d"
  have same: "set ?ws = set ?ws'" by (simp add: set_listSchedulableWorkers)
  then have "?ws = [] \<longleftrightarrow> ?ws' = []" by (metis set_empty)
  moreover have "selectWorkstationCandidate ?ws e p = selectWorkstationCandidate ?ws' e p" for e
    using same assms by (intro selectWorkstationCandidate_cong distinct_listSchedulableWorkers)
  ultimately show ?thesis by (simp add: claimWorkstation_def)
qed

theorem claimWorkstation_collation_independent_witness:
  "claimWorkstation (\<lambda>s. s) 110 110 ''k2'' ''m1'' [] sample_db =
   claimWorkstation (\<lambda>_. []) 110 110 ''k2'' ''m1'' [] sample_db"
  by (rule claimWorkstation_collation_independent) simp

section \<open>Claims\<close>

lemma claim_selected:
  assumes "selectWorkstationCandidate ws e p = Inr c"
  shows "\<exists>k \<in> set ws. cand_of e k = Some c \<and> (p \<noteq> [] \<longrightarrow> wk_id k = p)"
proof (cases "p = []")
  case True
  with assms select_best_least(2) [of ws e] show ?thesis
    by (auto simp: selectWorkstationCandidate_any set_candidates split: if_splits)
next
  case False
  with assms show ?thesis
    by (auto simp: selectWorkstationCandidate_def select_preferred_find
        split: option.splits dest!: query_row_SomeD)
qed

lemma claimWorkstation_InrE:
  assumes "claimWorkstation collate server_now now uuid m p d = Inr ((w, created), d')"
  obtains k c where "k \<in> set (listSchedulableWorkers collate (server_now - schedulableHeartbeatWindow) d)"
    and "cand_of (listAllocatedSlots d) k = Some c" and "p \<noteq> [] \<longrightarrow> wk_id k = p" and "created"
    and "insertWorkstation now uuid m (wk_id k) (cand_slot c) d = Inr (w, d')"
proof -
  let ?ws = "listSchedulableWorkers collate (server_now - schedulableHeartbeatWindow) d"
  obtain c where sel: "selectWorkstationCandidate ?ws (listAllocatedSlots d) p = Inr c"
    and ins: "insertWorkstation now uuid m (cand_workerID c) (cand_slot c) d = Inr (w, d')"
    and "created"
    using assms by (auto simp: claimWorkstation_def Let_def split: if_splits sum.splits)
  from claim_selected [OF sel] obtain k where "k \<in> set ?ws"
    and "cand_of (listAllocatedSlots d) k = Some c" and "p \<noteq> [] \<longrightarrow> wk_id k = p" by blast
  with that ins \<open>created\<close> show thesis by (auto simp: cand_of_Some)
qed

lemma insertWorkstation_Inr:
  "insertWorkstation now uuid m k slot d = Inr (w, d') \<Longrightarrow>
     d' = d\<lparr>db_workstations := db_workstations d @ [w]\<rparr> \<and> ws_id w = uuid \<and> ws_member_id w = m \<and>
     ws_worker_id w = k \<and> ws_slot w = slot \<and> ws_power_state w = PowerStarting \<and>
     ws_desired_power_state w = DesiredRunning \<and> uuid \<notin> ws_id ` set (db_workstations d)"
  by (auto simp: insertWorkstation_def Let_def split: if_splits)

lemma insertWorkstation_schema:
  assumes "schema_ok d" and "insertWorkstation now uuid m k slot d = Inr (w, d')"
  shows "schema_ok d'"
  using assms
  by (auto simp: insertWorkstation_def Let_def schema_ok_def workstations_ok_def vms_ok_def
      split: if_splits)

lemma claimWorkstation_schema:
  "schema_ok d \<Longrightarrow> claimWorkstation collate server_now now uuid m p d = Inr (r, d') \<Longrightarrow> schema_ok d'"
  by (cases r) (auto elim!: claimWorkstation_InrE intro: insertWorkstation_schema)

text \<open>
  C6: A successful claim adds exactly one row, for the claiming member, starting up and wanted
  running, on an active worker heard from within the last 30 seconds (the requested one, if any),
  in a slot of that worker's pool that no other workstation holds; the schema's constraints
  still hold.
\<close>

theorem claimWorkstation_takes_free_slot:
  assumes "schema_ok d"
    and "claimWorkstation collate server_now now uuid m p d = Inr ((w, created), d')"
  shows "created \<and> schema_ok d' \<and> db_workstations d' = db_workstations d @ [w] \<and>
    ws_member_id w = m \<and> ws_power_state w = PowerStarting \<and> ws_desired_power_state w = DesiredRunning \<and>
    (p \<noteq> [] \<longrightarrow> ws_worker_id w = p) \<and>
    (\<forall>v \<in> set (db_workstations d). ws_worker_id v = ws_worker_id w \<longrightarrow> ws_slot v \<noteq> ws_slot w) \<and>
    (\<exists>k \<in> set (db_workers d). wk_id k = ws_worker_id w \<and> wk_status k = WorkerStatusActive \<and>
       (\<exists>t. wk_last_heartbeat k = Some t \<and> server_now - 30 * second \<le> t) \<and>
       0 \<le> ws_slot w \<and> ws_slot w < wk_pool_size k)"
proof -
  from assms(2) obtain k c where
    k: "k \<in> set (listSchedulableWorkers collate (server_now - schedulableHeartbeatWindow) d)"
    and c: "cand_of (listAllocatedSlots d) k = Some c" and p: "p \<noteq> [] \<longrightarrow> wk_id k = p" and created
    and ins: "insertWorkstation now uuid m (wk_id k) (cand_slot c) d = Inr (w, d')"
    by (rule claimWorkstation_InrE)
  note w = insertWorkstation_Inr [OF ins]
  from c have slot: "0 \<le> cand_slot c" "cand_slot c < wk_pool_size k"
    and free: "cand_slot c \<notin> set (listAllocatedSlots d (wk_id k))"
    by (auto simp: cand_of_Some firstAvailableSlot_True)
  from k have "k \<in> set (db_workers d)" "wk_status k = WorkerStatusActive"
    "\<exists>t. wk_last_heartbeat k = Some t \<and> server_now - 30 * second \<le> t"
    by (auto simp: set_listSchedulableWorkers schedulableHeartbeatWindow_def)
  then have "\<exists>k \<in> set (db_workers d). wk_id k = ws_worker_id w \<and> wk_status k = WorkerStatusActive \<and>
       (\<exists>t. wk_last_heartbeat k = Some t \<and> server_now - 30 * second \<le> t) \<and>
       0 \<le> ws_slot w \<and> ws_slot w < wk_pool_size k"
    using w slot by (intro bexI [of _ k]) simp_all
  moreover have "ws_slot v \<noteq> ws_slot w"
    if "v \<in> set (db_workstations d)" "ws_worker_id v = ws_worker_id w" for v
    using that free w by (auto simp: set_listAllocatedSlots image_iff)
  ultimately show ?thesis
    using w p \<open>created\<close> insertWorkstation_schema [OF assms(1) ins] by simp
qed

lemma claimWorkstation_example:
  obtains w d' where "claimWorkstation (\<lambda>s. s) 110 110 ''k2'' ''m1'' [] sample_db = Inr ((w, True), d')"
proof -
  have s: "firstAvailableSlot sample_worker [0] = (1, True)"
    by (simp add: firstAvailableSlot_def first_slot_from.simps sample_worker_def)
  have l: "listSchedulableWorkers (\<lambda>s. s) (110 - schedulableHeartbeatWindow) sample_db = [sample_worker]"
    by (simp add: listSchedulableWorkers_def sample_defs schedulableHeartbeatWindow_def second_def)
  have a: "listAllocatedSlots sample_db (wk_id sample_worker) = [0]"
    by (simp add: listAllocatedSlots_def mark_slot_def sample_defs)
  have "\<exists>w d'. insertWorkstation 110 ''k2'' ''m1'' (wk_id sample_worker) 1 sample_db = Inr (w, d')"
    by (simp add: insertWorkstation_def generateWorkstationVMName_def sample_defs int4_ok_def
        ws_place_def remove_all_def Let_def)
  then obtain w d' where i: "insertWorkstation 110 ''k2'' ''m1'' (wk_id sample_worker) 1 sample_db = Inr (w, d')"
    by blast
  have "claimWorkstation (\<lambda>s. s) 110 110 ''k2'' ''m1'' [] sample_db = Inr ((w, True), d')"
    unfolding claimWorkstation_def Let_def l
    using s a i by (simp add: selectWorkstationCandidate_def Let_def no_candidate_def)
  then show thesis by (rule that)
qed

theorem claimWorkstation_takes_free_slot_witness:
  "\<exists>w d'. claimWorkstation (\<lambda>s. s) 110 110 ''k2'' ''m1'' [] sample_db = Inr ((w, True), d') \<and>
     schema_ok d' \<and> db_workstations d' = [sample_ws, w] \<and> ws_slot w \<noteq> 0 \<and> ws_slot w < 2"
proof -
  obtain w d' where c: "claimWorkstation (\<lambda>s. s) 110 110 ''k2'' ''m1'' [] sample_db = Inr ((w, True), d')"
    by (rule claimWorkstation_example)
  have "schema_ok sample_db" by simp
  from claimWorkstation_takes_free_slot [OF this c] c show ?thesis by (auto simp: sample_defs)
qed

lemma select_fails_full:
  assumes "selectWorkstationCandidate ws e p = Inl err" and "distinct (map wk_id ws)"
    and "k \<in> set ws" and "p = [] \<or> p = wk_id k"
  shows "\<not> has_free_slot k (e (wk_id k))"
proof (cases "p = []")
  case True
  with assms(1) have "candidates ws e = []"
    by (simp add: selectWorkstationCandidate_any split: if_splits)
  then have "cand_of e k = None"
    using assms(3) set_candidates [of ws e] by (cases "cand_of e k") auto
  then show ?thesis by (simp add: cand_of_None)
next
  case False
  then have "query_row (\<lambda>w. wk_id w = p) ws = Some k"
    using assms(2-4) wkt.lookup_in [of ws k] by (simp add: wkt.lookup_eq)
  with False assms(1) have "cand_of e k = None"
    by (simp add: selectWorkstationCandidate_def select_preferred_find split: option.splits)
  then show ?thesis by (simp add: cand_of_None)
qed

lemma cand_of_insertable:
  assumes "schema_ok d" and "k \<in> set (db_workers d)" and "cand_of (listAllocatedSlots d) k = Some c"
    and "m \<in> mb_id ` set (db_members d)" and "uuid \<notin> ws_id ` set (db_workstations d)"
    and "generateWorkstationVMName uuid \<notin> ws_vm_name ` set (db_workstations d)"
  shows "\<exists>w d'. insertWorkstation now uuid m (wk_id k) (cand_slot c) d = Inr (w, d')"
proof -
  from assms(3) have slot: "0 \<le> cand_slot c" "cand_slot c < wk_pool_size k"
    and free: "cand_slot c \<notin> set (listAllocatedSlots d (wk_id k))"
    by (auto simp: cand_of_Some firstAvailableSlot_True)
  have "int4_ok (wk_pool_size k)" using assms(1,2) by (auto simp: schema_ok_def workers_ok_def list_all_iff)
  with slot have "int4_ok (cand_slot c)" by (simp add: int4_ok_def)
  moreover have "(wk_id k, cand_slot c) \<notin> ws_place ` set (db_workstations d)"
    using free by (auto simp: set_listAllocatedSlots ws_place_def)
  ultimately show ?thesis
    using assms slot(1) unfolding insertWorkstation_def Let_def by (simp add: ws_place_def)
qed

text \<open>
  C7: For a known member and a fresh identifier, a claim fails only for lack of capacity: never
  on a constraint of the schema.  It succeeds whenever some active worker heard from within the
  window (the requested one, if one is requested) holds fewer workstations than its pool size.
\<close>

theorem claimWorkstation_fails_only_for_capacity:
  assumes "schema_ok d" and "m \<in> mb_id ` set (db_members d)"
    and "uuid \<notin> ws_id ` set (db_workstations d)"
    and "generateWorkstationVMName uuid \<notin> ws_vm_name ` set (db_workstations d)"
  shows "case claimWorkstation collate server_now now uuid m p d of
      Inr _ \<Rightarrow> True
    | Inl e \<Rightarrow> e \<in> {ErrNoActiveWorkers, ErrNoSlotsAvailable, ErrTargetWorkerFull, ErrTargetWorkerUnavailable} \<and>
       (\<forall>k \<in> set (db_workers d). \<forall>t. wk_status k = WorkerStatusActive \<longrightarrow> wk_last_heartbeat k = Some t \<longrightarrow>
          server_now - 30 * second \<le> t \<longrightarrow> p = [] \<or> p = wk_id k \<longrightarrow>
          wk_pool_size k \<le> int (length (filter (\<lambda>v. ws_worker_id v = wk_id k) (db_workstations d))))"
proof -
  let ?ws = "listSchedulableWorkers collate (server_now - schedulableHeartbeatWindow) d"
  let ?e = "listAllocatedSlots d"
  have in_ws: "k \<in> set ?ws \<longleftrightarrow> k \<in> set (db_workers d) \<and> wk_status k = WorkerStatusActive \<and>
      (\<exists>t. wk_last_heartbeat k = Some t \<and> server_now - 30 * second \<le> t)" for k
    by (auto simp: set_listSchedulableWorkers schedulableHeartbeatWindow_def)
  have full: "wk_pool_size k \<le> int (length (filter (\<lambda>v. ws_worker_id v = wk_id k) (db_workstations d)))"
    if "\<not> has_free_slot k (?e (wk_id k))" for k
    using that has_free_slot_count [of "?e (wk_id k)" k] length_listAllocatedSlots [OF assms(1)]
    by (metis linorder_not_le)
  show ?thesis
  proof (cases "selectWorkstationCandidate ?ws ?e p")
    case (Inr c)
    from claim_selected [OF Inr] obtain k where k: "k \<in> set ?ws" "cand_of ?e k = Some c" by blast
    then obtain w d' where "insertWorkstation now uuid m (wk_id k) (cand_slot c) d = Inr (w, d')"
      using cand_of_insertable [OF assms(1)] assms in_ws by metis
    moreover have "?ws \<noteq> []" "cand_workerID c = wk_id k" using k by (auto simp: cand_of_Some)
    ultimately show ?thesis using Inr by (simp add: claimWorkstation_def Let_def)
  next
    case (Inl e)
    have e: "e \<in> {ErrNoSlotsAvailable, ErrTargetWorkerFull, ErrTargetWorkerUnavailable}"
      using Inl by (auto simp: selectWorkstationCandidate_def select_preferred_find Let_def
          split: if_splits option.splits)
    have "\<not> has_free_slot k (?e (wk_id k))" if k: "k \<in> set ?ws" "p = [] \<or> p = wk_id k" for k
      using select_fails_full [OF Inl] k distinct_listSchedulableWorkers [OF assms(1)] by blast
    then show ?thesis using Inl e full in_ws by (auto simp: claimWorkstation_def Let_def)
  qed
qed

theorem claimWorkstation_fails_only_for_capacity_witness:
  "\<exists>r. claimWorkstation (\<lambda>s. s) 110 110 ''k2'' ''m1'' [] sample_db = Inr r"
proof -
  have "schema_ok sample_db" "''m1'' \<in> mb_id ` set (db_members sample_db)"
    "''k2'' \<notin> ws_id ` set (db_workstations sample_db)"
    "generateWorkstationVMName ''k2'' \<notin> ws_vm_name ` set (db_workstations sample_db)"
    by (simp, simp_all add: generateWorkstationVMName_def remove_all_def sample_defs)
  note claimWorkstation_fails_only_for_capacity
    [OF this, where collate = "\<lambda>s. s" and server_now = 110 and now = 110 and p = "[]"]
  then show ?thesis
    by (cases "claimWorkstation (\<lambda>s. s) 110 110 ''k2'' ''m1'' [] sample_db")
      (auto simp: sample_defs second_def)
qed

end
