(* ===== verification/Lifecycle.thy ===== *)
theory Lifecycle
  imports Samples
begin

text \<open>
  The queries on workstations and the power state of a workstation under member requests and
  worker reports (\<^verbatim>\<open>db/workstations.go\<close>).  \<open>now\<close> is the transaction time of the database;
  \<^verbatim>\<open>FOR UPDATE\<close> makes each transaction one step.
\<close>

record desired_workstation =
  dw_id :: id
  dw_vm_name :: string
  dw_slot :: int
  dw_desired_power_state :: desired_power_state

record status_report =
  rep_workstation_id :: id
  rep_power_state :: string
  rep_ip_address :: string
  rep_last_error :: string

section \<open>Queries\<close>

definition first_row :: "'r list \<Rightarrow> db_error + 'r" where
  "first_row rows = (case rows of [] \<Rightarrow> Inl ErrNoRows | r # _ \<Rightarrow> Inr r)"

definition getWorkstationByMemberID :: "id \<Rightarrow> db \<Rightarrow> db_error + workstation" where
  "getWorkstationByMemberID memberID d =
     first_row (sort_key (\<lambda>w. (- ws_updated_at w, - ws_created_at w))
       (filter (\<lambda>w. ws_member_id w = memberID) (db_workstations d)))"

definition getWorkstationByIDForMember :: "id \<Rightarrow> id \<Rightarrow> db \<Rightarrow> db_error + workstation" where
  "getWorkstationByIDForMember memberID workstationID d =
     (case query_row (\<lambda>w. ws_member_id w = memberID \<and> ws_id w = workstationID) (db_workstations d) of
        None \<Rightarrow> Inl ErrNoRows | Some w \<Rightarrow> Inr w)"

definition getWorkstationByMemberAndWorkerID :: "id \<Rightarrow> id \<Rightarrow> db \<Rightarrow> db_error + workstation" where
  "getWorkstationByMemberAndWorkerID memberID workerID d =
     (case query_row (\<lambda>w. ws_member_id w = memberID \<and> ws_worker_id w = workerID)
        (db_workstations d) of None \<Rightarrow> Inl ErrNoRows | Some w \<Rightarrow> Inr w)"

definition listWorkstationsByMemberID :: "(string \<Rightarrow> string) \<Rightarrow> id \<Rightarrow> db \<Rightarrow> workstation list" where
  "listWorkstationsByMemberID collate memberID d =
     sort_key (\<lambda>w. (collate (ws_worker_id w), ws_slot w, ws_created_at w))
       (filter (\<lambda>w. ws_member_id w = memberID) (db_workstations d))"

definition getWorkstationByID :: "id \<Rightarrow> db \<Rightarrow> db_error + workstation" where
  "getWorkstationByID workstationID d =
     (case find_workstation workstationID (db_workstations d) of
        None \<Rightarrow> Inl ErrNoRows | Some w \<Rightarrow> Inr w)"

definition listAllWorkstations :: "(string \<Rightarrow> string) \<Rightarrow> db \<Rightarrow> workstation list" where
  "listAllWorkstations collate d =
     sort_key (\<lambda>w. (collate (ws_worker_id w), ws_slot w)) (db_workstations d)"

definition listDesiredWorkstationsByWorker :: "id \<Rightarrow> db \<Rightarrow> desired_workstation list" where
  "listDesiredWorkstationsByWorker workerID d =
     map (\<lambda>w. \<lparr>dw_id = ws_id w, dw_vm_name = ws_vm_name w, dw_slot = ws_slot w,
                dw_desired_power_state = ws_desired_power_state w\<rparr>)
       (sort_key ws_slot (filter (\<lambda>w. ws_worker_id w = workerID) (db_workstations d)))"

section \<open>Power states\<close>

text \<open>The row updates of the statements below.\<close>

definition resume_row :: "time \<Rightarrow> workstation \<Rightarrow> workstation" where
  "resume_row now r = r\<lparr>ws_desired_power_state := DesiredRunning,
     ws_power_state := (if ws_power_state r \<in> {PowerStopped, PowerError} then PowerStarting
                        else ws_power_state r),
     ws_last_error := [], ws_updated_at := now\<rparr>"

definition want_running_row :: "time \<Rightarrow> workstation \<Rightarrow> workstation" where
  "want_running_row now r = r\<lparr>ws_desired_power_state := DesiredRunning, ws_updated_at := now\<rparr>"

definition desire_row ::
  "time \<Rightarrow> desired_power_state \<Rightarrow> power_state \<Rightarrow> workstation \<Rightarrow> workstation" where
  "desire_row now desired p r =
     r\<lparr>ws_desired_power_state := desired, ws_power_state := p, ws_updated_at := now\<rparr>"

definition error_row :: "time \<Rightarrow> string \<Rightarrow> workstation \<Rightarrow> workstation" where
  "error_row now lastError r = r\<lparr>ws_last_error := lastError, ws_updated_at := now\<rparr>"

definition report_row ::
  "time \<Rightarrow> power_state \<Rightarrow> string \<Rightarrow> string \<Rightarrow> workstation \<Rightarrow> workstation" where
  "report_row now p ipAddress lastError r =
     r\<lparr>ws_power_state := p, ws_ip_address := ipAddress, ws_last_error := lastError,
       ws_updated_at := now\<rparr>"

definition claimExistingWorkstation ::
  "time \<Rightarrow> workstation \<Rightarrow> db \<Rightarrow> db_error + workstation \<times> db" where
  "claimExistingWorkstation now w d =
     (if ws_power_state w \<in> {PowerDeleting, PowerDeleted} then Inl ErrWorkstationBeingDeleted
      else if ws_power_state w \<in> {PowerStopped, PowerError, PowerStopping} then
        Inr (resume_row now w,
             d\<lparr>db_workstations := set_workstation (ws_id w) (resume_row now) (db_workstations d)\<rparr>)
      else if ws_desired_power_state w \<noteq> DesiredRunning then
        Inr (want_running_row now w,
             d\<lparr>db_workstations := set_workstation (ws_id w) (want_running_row now) (db_workstations d)\<rparr>)
      else Inr (w, d))"

definition ensureWorkstationRunningByIDForMember ::
  "time \<Rightarrow> id \<Rightarrow> id \<Rightarrow> db \<Rightarrow> db_error + workstation \<times> db" where
  "ensureWorkstationRunningByIDForMember now memberID workstationID d =
     (case getWorkstationByIDForMember memberID workstationID d of
        Inl e \<Rightarrow> Inl e
      | Inr w \<Rightarrow>
         if ws_desired_power_state w = DesiredDeleted then Inr (w, d)
         else if ws_power_state w = PowerDeleting \<or> ws_power_state w = PowerDeleted then Inr (w, d)
         else claimExistingWorkstation now w d)"

definition ensureWorkstationRunningByMemberID ::
  "time \<Rightarrow> id \<Rightarrow> db \<Rightarrow> db_error + workstation \<times> db" where
  "ensureWorkstationRunningByMemberID now memberID d =
     (case getWorkstationByMemberID memberID d of
        Inl e \<Rightarrow> Inl e
      | Inr w \<Rightarrow> ensureWorkstationRunningByIDForMember now memberID (ws_id w) d)"

text \<open>
  The last case of the Go switch rejects desired states other than the three constants of
  \<^verbatim>\<open>model.WorkstationDesiredPowerState\<close>; the datatype has no such value.
\<close>

definition next_power_state :: "desired_power_state \<Rightarrow> power_state \<Rightarrow> power_state" where
  "next_power_state desired p = (case desired of
     DesiredRunning \<Rightarrow> if p = PowerStopped \<or> p = PowerError then PowerStarting else p
   | DesiredStopped \<Rightarrow> if p = PowerStarting \<or> p = PowerRunning then PowerStopping else p
   | DesiredDeleted \<Rightarrow> PowerDeleting)"

definition updateWorkstationDesiredPowerStateByID ::
  "time \<Rightarrow> id \<Rightarrow> id \<Rightarrow> desired_power_state \<Rightarrow> db \<Rightarrow> db_error + workstation \<times> db" where
  "updateWorkstationDesiredPowerStateByID now memberID workstationID desired d =
     (case getWorkstationByIDForMember memberID workstationID d of
        Inl e \<Rightarrow> Inl e
      | Inr w \<Rightarrow>
         if ws_power_state w = PowerDeleting \<or> ws_power_state w = PowerDeleted
         then Inl ErrWorkstationBeingDeleted
         else let f = desire_row now desired (next_power_state desired (ws_power_state w))
              in Inr (f w, d\<lparr>db_workstations :=
                   update_where (\<lambda>r. ws_member_id r = memberID \<and> ws_id r = workstationID) f
                     (db_workstations d)\<rparr>))"

definition updateWorkstationDesiredPowerState ::
  "time \<Rightarrow> id \<Rightarrow> desired_power_state \<Rightarrow> db \<Rightarrow> db_error + workstation \<times> db" where
  "updateWorkstationDesiredPowerState now memberID desired d =
     (case getWorkstationByMemberID memberID d of
        Inl e \<Rightarrow> Inl e
      | Inr w \<Rightarrow> updateWorkstationDesiredPowerStateByID now memberID (ws_id w) desired d)"

definition updateWorkstationStatus :: "time \<Rightarrow> id \<Rightarrow> status_report \<Rightarrow> db \<Rightarrow> db_error + db" where
  "updateWorkstationStatus now workerID report d =
     (case find_workstation (rep_workstation_id report) (db_workstations d) of
        None \<Rightarrow> Inr d
      | Some w \<Rightarrow>
         if ws_worker_id w \<noteq> workerID then Inl ErrWorkstationNotOfWorker
         else let ipAddress = trimSpace (rep_ip_address report);
                  lastError = trimSpace (rep_last_error report)
              in if rep_power_state report = ''deleted'' \<and> ws_desired_power_state w = DesiredDeleted
                 then Inr (d\<lparr>db_workstations := drop_workstation (ws_id w) (db_workstations d)\<rparr>)
                 else if ws_desired_power_state w = DesiredDeleted
                 then Inr (d\<lparr>db_workstations := set_workstation (ws_id w)
                        (error_row now lastError) (db_workstations d)\<rparr>)
                 else (case parse_power_state (rep_power_state report) of
                     None \<Rightarrow> Inl ErrInvalidEnumInput
                   | Some p \<Rightarrow> Inr (d\<lparr>db_workstations := set_workstation (ws_id w)
                        (report_row now p ipAddress lastError) (db_workstations d)\<rparr>)))"

section \<open>Which rows an operation touches\<close>

lemmas row_defs = resume_row_def want_running_row_def desire_row_def error_row_def report_row_def

lemma rows_same_identity [row_simps, simp]:
  "same_identity (resume_row now r) r" "same_identity (want_running_row now r) r"
  "same_identity (desire_row now des p r) r" "same_identity (error_row now e r) r"
  "same_identity (report_row now p ip e r) r"
  by (simp_all add: row_defs same_identity_def ws_place_def)

lemma getWorkstationByIDForMember_Inr:
  "getWorkstationByIDForMember m k d = Inr w \<Longrightarrow>
   w \<in> set (db_workstations d) \<and> ws_member_id w = m \<and> ws_id w = k"
  by (auto simp: getWorkstationByIDForMember_def split: option.splits dest!: query_row_SomeD)

lemma getWorkstationByIDForMember_eq:
  assumes "schema_ok d"
  shows "getWorkstationByIDForMember m k d = (case find_workstation k (db_workstations d) of
     None \<Rightarrow> Inl ErrNoRows | Some w \<Rightarrow> if ws_member_id w = m then Inr w else Inl ErrNoRows)"
proof -
  let ?t = "db_workstations d"
  have dist: "distinct (map ws_id ?t)" using assms by (rule schema_ok_distinct)
  show ?thesis
  proof (cases "query_row (\<lambda>w. ws_member_id w = m \<and> ws_id w = k) ?t")
    case None
    then have "\<not> (ws_member_id w = m \<and> ws_id w = k)" if "w \<in> set ?t" for w
      using that by (auto dest: query_row_NoneD)
    then have "ws_member_id w \<noteq> m" if "find_workstation k ?t = Some w" for w
      using wst.lookup_SomeD [OF that] by auto
    with None show ?thesis by (auto simp: getWorkstationByIDForMember_def split: option.splits)
  next
    case (Some w)
    then have "w \<in> set ?t" "ws_member_id w = m" "ws_id w = k" by (auto dest: query_row_SomeD)
    with wst.lookup_in [OF dist] Some show ?thesis by (auto simp: getWorkstationByIDForMember_def)
  qed
qed

text \<open>
  Each operation rewrites the addressed row or leaves the table alone: the shape shared by the
  member operations.
\<close>

definition rewrites_row :: "id \<Rightarrow> id \<Rightarrow> db \<Rightarrow> db \<Rightarrow> bool" where
  "rewrites_row m k d d' = (\<exists>f P. (\<forall>w. same_identity (f w) w) \<and>
     (\<forall>w \<in> set (db_workstations d). P w \<longrightarrow> ws_member_id w = m \<and> ws_id w = k) \<and>
     d' = d\<lparr>db_workstations := update_where P f (db_workstations d)\<rparr>)"

lemma rewrites_rowI:
  assumes "\<And>w. same_identity (f w) w"
    and "\<And>w. w \<in> set (db_workstations d) \<Longrightarrow> P w \<Longrightarrow> ws_member_id w = m \<and> ws_id w = k"
  shows "rewrites_row m k d (d\<lparr>db_workstations := update_where P f (db_workstations d)\<rparr>)"
  unfolding rewrites_row_def using assms by (intro exI [of _ f] exI [of _ P]) simp

lemma rewrites_row_refl: "rewrites_row m k d d"
proof -
  have "d = d\<lparr>db_workstations := update_where (\<lambda>_. False) (\<lambda>w. w) (db_workstations d)\<rparr>"
    by (simp add: update_where_none)
  then show ?thesis unfolding rewrites_row_def
    by (intro exI [of _ "\<lambda>w. w"] exI [of _ "\<lambda>_. False"]) (simp add: same_identity_def)
qed

lemma rewrites_row_schema: "rewrites_row m k d d' \<Longrightarrow> schema_ok d \<Longrightarrow> schema_ok d'"
  by (auto simp: rewrites_row_def intro!: schema_ok_update_workstations)

lemma rewrites_row_others:
  "rewrites_row m k d d' \<Longrightarrow>
   filter (\<lambda>w. ws_member_id w \<noteq> m) (db_workstations d') =
   filter (\<lambda>w. ws_member_id w \<noteq> m) (db_workstations d)"
  by (auto simp: rewrites_row_def same_identity_def intro!: filter_update_where)

lemma set_workstation_rewrites:
  assumes "schema_ok d" and "w \<in> set (db_workstations d)" and "\<And>r. same_identity (f r) r"
  shows "rewrites_row (ws_member_id w) (ws_id w) d
    (d\<lparr>db_workstations := set_workstation (ws_id w) f (db_workstations d)\<rparr>)"
proof -
  have "ws_member_id v = ws_member_id w" if "v \<in> set (db_workstations d)" "ws_id v = ws_id w" for v
    using inj_on_key [OF schema_ok_distinct(2) [OF assms(1)] that(1) assms(2) that(2)] by simp
  then show ?thesis unfolding set_workstation_def using assms(3) by (intro rewrites_rowI) simp_all
qed

lemma claimExisting_rewrites:
  assumes "schema_ok d" and "w \<in> set (db_workstations d)"
    and "claimExistingWorkstation now w d = Inr (w', d')"
  shows "rewrites_row (ws_member_id w) (ws_id w) d d'"
  using assms(3) set_workstation_rewrites [OF assms(1,2)]
  by (auto simp: claimExistingWorkstation_def rewrites_row_refl split: if_splits)

lemma ensure_rewrites:
  assumes "schema_ok d" and "ensureWorkstationRunningByIDForMember now m k d = Inr (w, d')"
  shows "rewrites_row m k d d'"
proof -
  obtain v where v: "getWorkstationByIDForMember m k d = Inr v"
    and d': "d' = d \<or> claimExistingWorkstation now v d = Inr (w, d')"
    using assms(2) by (auto simp: ensureWorkstationRunningByIDForMember_def split: sum.splits if_splits)
  note v = getWorkstationByIDForMember_Inr [OF v]
  from d' show ?thesis
    using v claimExisting_rewrites [OF assms(1), of v now w d'] rewrites_row_refl by auto
qed

lemma desire_rewrites:
  assumes "updateWorkstationDesiredPowerStateByID now m k des d = Inr (w, d')"
  shows "rewrites_row m k d d'"
  using assms unfolding updateWorkstationDesiredPowerStateByID_def Let_def
  by (auto intro!: rewrites_rowI split: sum.splits if_splits)

lemma ensure_schema:
  "schema_ok d \<Longrightarrow> ensureWorkstationRunningByIDForMember now m k d = Inr (w, d') \<Longrightarrow> schema_ok d'"
  by (blast intro: rewrites_row_schema ensure_rewrites)

lemma desire_schema:
  "schema_ok d \<Longrightarrow> updateWorkstationDesiredPowerStateByID now m k des d = Inr (w, d') \<Longrightarrow> schema_ok d'"
  by (blast intro: rewrites_row_schema desire_rewrites)

lemma set_workstation_schema:
  "schema_ok d \<Longrightarrow> (\<And>w. same_identity (f w) w) \<Longrightarrow>
   schema_ok (d\<lparr>db_workstations := set_workstation k f (db_workstations d)\<rparr>)"
  by (simp add: set_workstation_def schema_ok_update_workstations)

lemma report_schema:
  assumes "schema_ok d" and "updateWorkstationStatus now wk r d = Inr d'"
  shows "schema_ok d'"
  using assms
  by (auto simp: updateWorkstationStatus_def Let_def drop_workstation_def
      intro!: set_workstation_schema schema_ok_delete_workstations
      split: option.splits if_splits)

lemma same_id_same_worker:
  assumes "schema_ok d" and "v \<in> set (db_workstations d)" and "x \<in> set (db_workstations d)"
    and "ws_id v = ws_id x"
  shows "ws_worker_id v = ws_worker_id x"
  using inj_on_key [OF schema_ok_distinct(2) [OF assms(1)] assms(2,3,4)] by simp

lemma set_workstation_other_workers:
  assumes "schema_ok d" and "x \<in> set (db_workstations d)" and "\<And>v. same_identity (f v) v"
  shows "filter (\<lambda>v. ws_worker_id v \<noteq> ws_worker_id x) (set_workstation (ws_id x) f (db_workstations d)) =
    filter (\<lambda>v. ws_worker_id v \<noteq> ws_worker_id x) (db_workstations d)"
  unfolding set_workstation_def
proof (rule filter_update_where)
  fix v
  assume "v \<in> set (db_workstations d)" and "ws_id v = ws_id x"
  then have "ws_worker_id v = ws_worker_id x" using assms(1,2) same_id_same_worker by blast
  then show "\<not> ws_worker_id v \<noteq> ws_worker_id x \<and> \<not> ws_worker_id (f v) \<noteq> ws_worker_id x"
    by (simp add: same_identityD(5) [OF assms(3)])
qed

lemma drop_workstation_other_workers:
  assumes "schema_ok d" and "x \<in> set (db_workstations d)"
  shows "filter (\<lambda>v. ws_worker_id v \<noteq> ws_worker_id x) (drop_workstation (ws_id x) (db_workstations d)) =
    filter (\<lambda>v. ws_worker_id v \<noteq> ws_worker_id x) (db_workstations d)"
  unfolding drop_workstation_def
  by (rule filter_delete_where) (use assms same_id_same_worker in blast)

lemma report_cases:
  assumes "updateWorkstationStatus now wk r d = Inr d'"
  shows "d' = d \<or> (\<exists>w t. find_workstation (rep_workstation_id r) (db_workstations d) = Some w \<and>
     ws_worker_id w = wk \<and> d' = d\<lparr>db_workstations := t\<rparr> \<and>
     (t = drop_workstation (ws_id w) (db_workstations d) \<or>
      (\<exists>f. (\<forall>v. same_identity (f v) v) \<and> t = set_workstation (ws_id w) f (db_workstations d))))"
proof (cases "find_workstation (rep_workstation_id r) (db_workstations d)")
  case None
  with assms show ?thesis by (simp add: updateWorkstationStatus_def)
next
  case (Some w)
  have wk: "ws_worker_id w = wk"
    using assms Some by (simp add: updateWorkstationStatus_def split: if_splits)
  let ?set = "\<lambda>f. d\<lparr>db_workstations := set_workstation (ws_id w) f (db_workstations d)\<rparr>"
  have "d' = d\<lparr>db_workstations := drop_workstation (ws_id w) (db_workstations d)\<rparr> \<or>
      (\<exists>e. d' = ?set (error_row now e)) \<or> (\<exists>p ip e. d' = ?set (report_row now p ip e))"
    using assms Some by (auto simp: updateWorkstationStatus_def Let_def split: if_splits option.splits)
  then have "\<exists>t. d' = d\<lparr>db_workstations := t\<rparr> \<and>
     (t = drop_workstation (ws_id w) (db_workstations d) \<or>
      (\<exists>f. (\<forall>v. same_identity (f v) v) \<and> t = set_workstation (ws_id w) f (db_workstations d)))"
    using rows_same_identity(4,5) by metis
  with Some wk show ?thesis by blast
qed

lemma report_others:
  assumes "schema_ok d" and "updateWorkstationStatus now wk r d = Inr d'"
  shows "filter (\<lambda>v. ws_worker_id v \<noteq> wk) (db_workstations d') =
    filter (\<lambda>v. ws_worker_id v \<noteq> wk) (db_workstations d)"
  using report_cases [OF assms(2)] set_workstation_other_workers [OF assms(1)]
    drop_workstation_other_workers [OF assms(1)] by (fastforce dest: wst.lookup_SomeD)

text \<open>
  C10: Tenant isolation.  Ensuring, starting, stopping or releasing a workstation on behalf of a
  member leaves every row of every other member as it was; a status report of a worker leaves
  the workstations of every other worker as they were.
\<close>

theorem workstation_isolation:
  assumes "schema_ok d"
  shows "(ensureWorkstationRunningByIDForMember now m k d = Inr (w, d1) \<longrightarrow>
          filter (\<lambda>v. ws_member_id v \<noteq> m) (db_workstations d1) =
          filter (\<lambda>v. ws_member_id v \<noteq> m) (db_workstations d)) \<and>
         (updateWorkstationDesiredPowerStateByID now m k des d = Inr (w, d2) \<longrightarrow>
          filter (\<lambda>v. ws_member_id v \<noteq> m) (db_workstations d2) =
          filter (\<lambda>v. ws_member_id v \<noteq> m) (db_workstations d)) \<and>
         (updateWorkstationStatus now wk r d = Inr d3 \<longrightarrow>
          filter (\<lambda>v. ws_worker_id v \<noteq> wk) (db_workstations d3) =
          filter (\<lambda>v. ws_worker_id v \<noteq> wk) (db_workstations d))"
  using ensure_rewrites [OF assms] desire_rewrites report_others [OF assms]
  by (blast intro: rewrites_row_others)

theorem workstation_isolation_witness:
  "\<exists>w d'. updateWorkstationDesiredPowerStateByID 5 ''m1'' ''k1'' DesiredStopped sample_db = Inr (w, d') \<and>
     ws_power_state w = PowerStopping \<and>
     filter (\<lambda>v. ws_member_id v \<noteq> ''m1'') (db_workstations d') =
     filter (\<lambda>v. ws_member_id v \<noteq> ''m1'') (db_workstations sample_db)"
proof -
  obtain w d' where s: "updateWorkstationDesiredPowerStateByID 5 ''m1'' ''k1'' DesiredStopped sample_db = Inr (w, d')"
    and p: "ws_power_state w = PowerStopping"
    by (simp add: updateWorkstationDesiredPowerStateByID_def getWorkstationByIDForMember_def Let_def
        next_power_state_def desire_row_def sample_defs)
  have "schema_ok sample_db" by simp
  from workstation_isolation [OF this, where m = "''m1''" and k = "''k1''" and now = 5
      and des = DesiredStopped and w = w and ?d2.0 = d'] s p show ?thesis by blast
qed

section \<open>The power state of a workstation as a state machine\<close>

text \<open>
  What the three operations promise about one workstation, as a machine on its desired and its
  reported power state: \<open>None\<close> is a workstation that no longer exists.
\<close>

datatype ws_event =
    Ensure id id
  | Desire id id desired_power_state
  | Report id status_report

type_synonym phase = "desired_power_state \<times> power_state"

fun concerns :: "ws_event \<Rightarrow> workstation \<Rightarrow> bool" where
  "concerns (Ensure m k) w = (ws_member_id w = m \<and> ws_id w = k)"
| "concerns (Desire m k des) w = (ws_member_id w = m \<and> ws_id w = k)"
| "concerns (Report wk r) w = (ws_worker_id w = wk \<and> ws_id w = rep_workstation_id r)"

fun spec_step :: "ws_event \<Rightarrow> phase \<Rightarrow> phase option" where
  "spec_step (Ensure _ _) (des, p) =
     (if des = DesiredDeleted \<or> p = PowerDeleting \<or> p = PowerDeleted then Some (des, p)
      else Some (DesiredRunning, next_power_state DesiredRunning p))"
| "spec_step (Desire _ _ des') (des, p) =
     (if p = PowerDeleting \<or> p = PowerDeleted then Some (des, p)
      else Some (des', next_power_state des' p))"
| "spec_step (Report _ r) (des, p) =
     (if des = DesiredDeleted
      then if rep_power_state r = ''deleted'' then None else Some (des, p)
      else Some (des, case parse_power_state (rep_power_state r) of None \<Rightarrow> p | Some q \<Rightarrow> q))"

fun ws_apply :: "time \<Rightarrow> ws_event \<Rightarrow> db \<Rightarrow> db" where
  "ws_apply now (Ensure m k) d =
     (case ensureWorkstationRunningByIDForMember now m k d of Inl _ \<Rightarrow> d | Inr (_, d') \<Rightarrow> d')"
| "ws_apply now (Desire m k des) d =
     (case updateWorkstationDesiredPowerStateByID now m k des d of Inl _ \<Rightarrow> d | Inr (_, d') \<Rightarrow> d')"
| "ws_apply now (Report wk r) d =
     (case updateWorkstationStatus now wk r d of Inl _ \<Rightarrow> d | Inr d' \<Rightarrow> d')"

definition phase :: "workstation \<Rightarrow> phase" where
  "phase w = (ws_desired_power_state w, ws_power_state w)"

definition phase_of :: "db \<Rightarrow> id \<Rightarrow> phase option" where
  "phase_of d k = map_option phase (find_workstation k (db_workstations d))"

lemma ws_apply_schema: "schema_ok d \<Longrightarrow> schema_ok (ws_apply now ev d)"
  by (cases ev)
    (auto split: sum.splits intro: ensure_schema desire_schema report_schema)

lemma phase_rows:
  "phase (resume_row now w) =
     (DesiredRunning, if ws_power_state w \<in> {PowerStopped, PowerError} then PowerStarting else ws_power_state w)"
  "phase (want_running_row now w) = (DesiredRunning, ws_power_state w)"
  "phase (desire_row now des p w) = (des, p)"
  "phase (error_row now e w) = phase w"
  "phase (report_row now p ip e w) = (ws_desired_power_state w, p)"
  by (simp_all add: phase_def row_defs)

lemma phase_of_set:
  assumes "\<And>w. same_identity (f w) w"
  shows "phase_of (d\<lparr>db_workstations := set_workstation k f (db_workstations d)\<rparr>) k' =
    (if k' = k then map_option (\<lambda>w. phase (f w)) (find_workstation k (db_workstations d))
     else phase_of d k')"
  using wst.lookup_modify [of f, OF same_identityD(1) [OF assms]]
  by (auto simp: phase_of_def option.map_comp comp_def)

lemma phase_of_drop:
  "phase_of (d\<lparr>db_workstations := drop_workstation k (db_workstations d)\<rparr>) k' =
    (if k' = k then None else phase_of d k')"
  by (simp add: phase_of_def wst.lookup_remove)

lemma phase_of_find:
  "find_workstation k (db_workstations d) = None \<Longrightarrow> phase_of d k = None"
  "find_workstation k (db_workstations d) = Some w \<Longrightarrow> phase_of d k = Some (phase w)"
  by (simp_all add: phase_of_def)

lemma phase_simps:
  "spec_step ev (phase w) = spec_step ev (ws_desired_power_state w, ws_power_state w)"
  "phase w = (des, p) \<longleftrightarrow> ws_desired_power_state w = des \<and> ws_power_state w = p"
  by (auto simp: phase_def)

lemma ensure_phase:
  assumes "schema_ok d"
  shows "phase_of (ws_apply now (Ensure m k) d) k' =
    (case find_workstation k' (db_workstations d) of
       None \<Rightarrow> None
     | Some w \<Rightarrow> if concerns (Ensure m k) w then spec_step (Ensure m k) (phase w) else Some (phase w))"
proof (cases "find_workstation k (db_workstations d)")
  case None
  then show ?thesis
    using assms wst.lookup_SomeD [of k' "db_workstations d"]
    by (auto simp: ensureWorkstationRunningByIDForMember_def getWorkstationByIDForMember_eq
        phase_of_def split: option.splits)
next
  case (Some w)
  then have w: "ws_id w = k" by (auto dest: wst.lookup_SomeD)
  show ?thesis
  proof (cases "ws_member_id w = m")
    case True
    have "phase_of (ws_apply now (Ensure m k) d) k = spec_step (Ensure m k) (phase w)"
      using assms Some w True
      by (cases "ws_power_state w")
        (auto simp: ensureWorkstationRunningByIDForMember_def getWorkstationByIDForMember_eq
          claimExistingWorkstation_def phase_of_set phase_rows phase_of_find phase_simps next_power_state_def)
    moreover have "phase_of (ws_apply now (Ensure m k) d) k' = phase_of d k'" if "k' \<noteq> k"
      using assms Some w True that
      by (auto simp: ensureWorkstationRunningByIDForMember_def getWorkstationByIDForMember_eq
          claimExistingWorkstation_def phase_of_set)
    ultimately show ?thesis
      using Some w True wst.lookup_SomeD [of k' "db_workstations d"]
      by (cases "k' = k") (auto simp del: ws_apply.simps simp: phase_of_find split: option.splits)
  next
    case False
    with assms Some w wst.lookup_SomeD [of k' "db_workstations d"] show ?thesis
      by (auto simp: ensureWorkstationRunningByIDForMember_def getWorkstationByIDForMember_eq
          phase_of_def split: option.splits)
  qed
qed

lemma desire_set:
  assumes "schema_ok d" and "find_workstation k (db_workstations d) = Some w" and "ws_member_id w = m"
  shows "update_where (\<lambda>r. ws_member_id r = m \<and> ws_id r = k) f (db_workstations d) =
    set_workstation k f (db_workstations d)"
  unfolding set_workstation_def
proof (rule update_where_cong)
  fix r
  assume r: "r \<in> set (db_workstations d)"
  have w: "w \<in> set (db_workstations d)" "ws_id w = k" using assms(2) by (auto dest: wst.lookup_SomeD)
  have "r = w" if "ws_id r = k"
    using inj_on_key [OF schema_ok_distinct(2) [OF assms(1)] r w(1)] that w(2) by simp
  with assms(3) show "(ws_member_id r = m \<and> ws_id r = k) = (ws_id r = k)" by auto
qed

lemma desire_phase:
  assumes "schema_ok d"
  shows "phase_of (ws_apply now (Desire m k des) d) k' =
    (case find_workstation k' (db_workstations d) of
       None \<Rightarrow> None
     | Some w \<Rightarrow> if concerns (Desire m k des) w then spec_step (Desire m k des) (phase w) else Some (phase w))"
proof (cases "\<exists>w. find_workstation k (db_workstations d) = Some w \<and> ws_member_id w = m")
  case False
  then have "ws_apply now (Desire m k des) d = d"
    using assms by (auto simp: updateWorkstationDesiredPowerStateByID_def getWorkstationByIDForMember_eq
        split: option.splits)
  then show ?thesis using False wst.lookup_SomeD [of k' "db_workstations d"] by (auto simp: phase_of_def split: option.splits)
next
  case True
  then obtain w where w: "find_workstation k (db_workstations d) = Some w" "ws_member_id w = m" by blast
  then have k: "ws_id w = k" by (auto dest: wst.lookup_SomeD)
  have "ws_apply now (Desire m k des) d =
    (if ws_power_state w = PowerDeleting \<or> ws_power_state w = PowerDeleted then d
     else d\<lparr>db_workstations := set_workstation k
       (desire_row now des (next_power_state des (ws_power_state w))) (db_workstations d)\<rparr>)"
    using assms w desire_set [OF assms w]
    by (simp add: updateWorkstationDesiredPowerStateByID_def getWorkstationByIDForMember_eq Let_def)
  then show ?thesis
    using w k wst.lookup_SomeD [of k' "db_workstations d"] by (auto simp: phase_of_set phase_rows phase_of_find phase_simps
        split: option.splits)
qed

lemma report_phase:
  "phase_of (ws_apply now (Report wk r) d) k' =
    (case find_workstation k' (db_workstations d) of
       None \<Rightarrow> None
     | Some w \<Rightarrow> if concerns (Report wk r) w then spec_step (Report wk r) (phase w) else Some (phase w))"
proof (cases "find_workstation (rep_workstation_id r) (db_workstations d)")
  case None
  then show ?thesis using wst.lookup_SomeD [of k' "db_workstations d"]
    by (auto simp: updateWorkstationStatus_def phase_of_def split: option.splits)
next
  case (Some w)
  then have k: "ws_id w = rep_workstation_id r" by (auto dest: wst.lookup_SomeD)
  show ?thesis
  proof (cases "k' = rep_workstation_id r")
    case True
    with Some k wst.lookup_SomeD [of k' "db_workstations d"] show ?thesis
      by (auto simp: updateWorkstationStatus_def Let_def phase_of_set phase_of_drop phase_rows
          phase_simps phase_of_find split: option.splits)
  next
    case False
    with Some k wst.lookup_SomeD [of k' "db_workstations d"] show ?thesis
      by (auto simp: updateWorkstationStatus_def Let_def phase_of_set phase_of_drop
          phase_of_find split: option.splits)
  qed
qed

lemma lifecycle_refines_eq:
  "schema_ok d \<Longrightarrow> phase_of (ws_apply now ev d) k =
    (case find_workstation k (db_workstations d) of
       None \<Rightarrow> None
     | Some w \<Rightarrow> if concerns ev w then spec_step ev (phase w) else Some (phase w))"
  by (cases ev) (simp_all only: ensure_phase desire_phase report_phase)



section \<open>Deletion\<close>

definition phase_ok :: "phase \<Rightarrow> bool" where
  "phase_ok ph = (fst ph = DesiredDeleted \<longrightarrow> snd ph = PowerDeleting)"

definition lifecycle_ok :: "db \<Rightarrow> bool" where
  "lifecycle_ok d = list_all (\<lambda>w. phase_ok (phase w)) (db_workstations d)"

lemma spec_step_ok: "phase_ok ph \<Longrightarrow> spec_step ev ph = Some ph' \<Longrightarrow> phase_ok ph'"
  by (cases ph; cases ev) (auto simp: phase_ok_def next_power_state_def split: if_splits)

lemma spec_step_deleted:
  "spec_step ev (DesiredDeleted, PowerDeleting) \<in> {None, Some (DesiredDeleted, PowerDeleting)}"
  by (cases ev) auto

lemma lifecycle_ok_phase:
  assumes "schema_ok d"
  shows "lifecycle_ok d \<longleftrightarrow> (\<forall>k ph. phase_of d k = Some ph \<longrightarrow> phase_ok ph)"
proof -
  have "distinct (map ws_id (db_workstations d))" using assms by (rule schema_ok_distinct)
  then show ?thesis
    by (auto simp: lifecycle_ok_def list_all_iff phase_of_def wst.lookup_iff simp del: split_paired_All)
qed

lemma ws_apply_lifecycle_ok:
  assumes "schema_ok d" and "lifecycle_ok d"
  shows "lifecycle_ok (ws_apply now ev d)"
proof -
  have ok: "phase_ok (phase w)" if "find_workstation k (db_workstations d) = Some w" for k w
    using assms(2) that by (auto simp: lifecycle_ok_def list_all_iff dest: wst.lookup_SomeD)
  show ?thesis
    unfolding lifecycle_ok_phase [OF ws_apply_schema [OF assms(1)]] lifecycle_refines_eq [OF assms(1)]
    using ok by (auto split: option.splits if_splits dest: spec_step_ok simp del: split_paired_All)
qed

text \<open>A history of timed operations, oldest first.\<close>

fun ws_run :: "(time \<times> ws_event) list \<Rightarrow> db \<Rightarrow> db" where
  "ws_run [] d = d"
| "ws_run ((now, ev) # evs) d = ws_run evs (ws_apply now ev d)"

lemma ws_apply_identity:
  assumes "schema_ok d" and "find_workstation k (db_workstations (ws_apply now ev d)) = Some w'"
  obtains w where "find_workstation k (db_workstations d) = Some w"
  using assms lifecycle_refines_eq [OF assms(1), of now ev k]
  by (cases "find_workstation k (db_workstations d)") (auto simp: phase_of_def)

lemma deleting_stays:
  assumes "schema_ok d" and "phase_of d k \<in> {None, Some (DesiredDeleted, PowerDeleting)}"
  shows "phase_of (ws_apply now ev d) k \<in> {None, Some (DesiredDeleted, PowerDeleting)}"
  unfolding lifecycle_refines_eq [OF assms(1)]
  using assms(2) spec_step_deleted [of ev] by (auto simp: phase_of_def split: option.splits)

lemma deleting_stays_run:
  assumes "schema_ok d" and "phase_of d k \<in> {None, Some (DesiredDeleted, PowerDeleting)}"
  shows "phase_of (ws_run evs d) k \<in> {None, Some (DesiredDeleted, PowerDeleting)}"
  using assms
proof (induction evs d rule: ws_run.induct)
  case (1 d)
  then show ?case by simp
next
  case (2 now ev evs d)
  then show ?case by (simp only: ws_run.simps ws_apply_schema deleting_stays)
qed

text \<open>
  C2: Deletion is final.  Once a member has released a workstation, no sequence of later requests
  (start, stop, ensure, release, by anyone) or worker reports (of any worker, in any order, with
  any content) revives it: it stays in deletion until its row is gone, and it never comes back.
\<close>

theorem release_is_final:
  assumes "schema_ok d"
    and "updateWorkstationDesiredPowerStateByID now m k DesiredDeleted d = Inr (w, d')"
  shows "phase_of (ws_run evs d') k \<in> {None, Some (DesiredDeleted, PowerDeleting)}"
proof -
  have d': "d' = ws_apply now (Desire m k DesiredDeleted) d" using assms(2) by simp
  have "phase_of d' k \<in> {None, Some (DesiredDeleted, PowerDeleting)}"
    using assms(2) unfolding d' lifecycle_refines_eq [OF assms(1)]
    by (auto simp: phase_simps updateWorkstationDesiredPowerStateByID_def next_power_state_def
        getWorkstationByIDForMember_eq [OF assms(1)] dest: wst.lookup_SomeD
        split: option.splits if_splits)
  then show ?thesis
    using deleting_stays_run ws_apply_schema [OF assms(1)] unfolding d' by blast
qed

theorem release_is_final_witness:
  "\<exists>w d'. updateWorkstationDesiredPowerStateByID 5 ''m1'' ''k1'' DesiredDeleted sample_db = Inr (w, d') \<and>
     phase_of (ws_run [(6, Ensure ''m1'' ''k1''), (7, Desire ''m1'' ''k1'' DesiredRunning)] d') ''k1'' \<in>
       {None, Some (DesiredDeleted, PowerDeleting)}"
proof -
  obtain w d' where s: "updateWorkstationDesiredPowerStateByID 5 ''m1'' ''k1'' DesiredDeleted sample_db = Inr (w, d')"
    by (simp add: updateWorkstationDesiredPowerStateByID_def getWorkstationByIDForMember_def Let_def
        sample_defs)
  have "schema_ok sample_db" by simp
  from release_is_final [OF this s] s show ?thesis by blast
qed

text \<open>
  C11: A workstation disappears for one reason only: its member has asked for the deletion and the
  worker it runs on has reported it deleted.  No other request and no report of another worker
  removes the row.
\<close>

theorem removed_only_by_its_worker:
  assumes "schema_ok d" and "find_workstation k (db_workstations d) = Some w"
  shows "find_workstation k (db_workstations (ws_apply now ev d)) = None \<longleftrightarrow>
    ws_desired_power_state w = DesiredDeleted \<and>
    (\<exists>r. ev = Report (ws_worker_id w) r \<and> rep_workstation_id r = k \<and> rep_power_state r = ''deleted'')"
proof -
  have k: "ws_id w = k" using assms(2) by (auto dest: wst.lookup_SomeD)
  have "find_workstation k (db_workstations (ws_apply now ev d)) = None \<longleftrightarrow>
    phase_of (ws_apply now ev d) k = None"
    by (simp add: phase_of_def)
  also have "\<dots> \<longleftrightarrow> concerns ev w \<and> spec_step ev (phase w) = None"
    using assms(2) by (simp add: lifecycle_refines_eq [OF assms(1)])
  finally show ?thesis using k by (cases ev) (auto simp: phase_simps)
qed

theorem removed_only_by_its_worker_witness:
  "find_workstation ''k1'' (db_workstations (ws_apply 5 (Report (generateWorkerID ''U1'')
     \<lparr>rep_workstation_id = ''k1'', rep_power_state = ''deleted'', rep_ip_address = [], rep_last_error = []\<rparr>)
     sample_db)) \<noteq> None"
proof -
  have "schema_ok sample_db" and "find_workstation ''k1'' (db_workstations sample_db) = Some sample_ws"
    by (simp, simp add: sample_defs find_workstation_def)
  note removed_only_by_its_worker [OF this, of 5 "Report (generateWorkerID ''U1'')
     \<lparr>rep_workstation_id = ''k1'', rep_power_state = ''deleted'', rep_ip_address = [], rep_last_error = []\<rparr>"]
  then show ?thesis by (simp add: sample_ws_def del: ws_apply.simps)
qed

end
