(* ===== verification/VMsDB.thy ===== *)
theory VMsDB
  imports Samples
begin

text \<open>
  The legacy virtual machine rows (\<^verbatim>\<open>db/postgres.go\<close>, second half).  A state arrives as
  text and must be a label of the enum type; a query without \<^verbatim>\<open>ORDER BY\<close> returns the rows in
  table order.
\<close>

fun show_vm_state :: "vm_state \<Rightarrow> string" where
  "show_vm_state VMStarting = ''starting''"
| "show_vm_state VMBootstrapping = ''bootstrapping''"
| "show_vm_state VMReady = ''ready''"
| "show_vm_state VMBusy = ''busy''"
| "show_vm_state VMDestroying = ''destroying''"
| "show_vm_state VMFailed = ''failed''"

definition parse_vm_state :: "string \<Rightarrow> vm_state option" where
  "parse_vm_state s = List.find (\<lambda>p. show_vm_state p = s)
     [VMStarting, VMBootstrapping, VMReady, VMBusy, VMDestroying, VMFailed]"

lemma parse_show_vm_state [simp]: "parse_vm_state (show_vm_state p) = Some p"
  by (cases p) (simp_all add: parse_vm_state_def)

section \<open>Statements\<close>

definition upsertVM :: "time \<Rightarrow> id \<Rightarrow> id \<Rightarrow> string \<Rightarrow> string \<Rightarrow> db \<Rightarrow> db_error + db" where
  "upsertVM now vmID workerID state ipAddress d =
     (case parse_vm_state state of
        None \<Rightarrow> Inl ErrInvalidEnumInput
      | Some st \<Rightarrow>
         (case find_vm vmID (db_vms d) of
            Some _ \<Rightarrow> Inr (d\<lparr>db_vms := set_vm vmID
              (\<lambda>r. r\<lparr>vm_state := st, vm_ip_address := ipAddress, vm_state_since := now\<rparr>) (db_vms d)\<rparr>)
          | None \<Rightarrow>
             if workerID \<notin> wk_id ` set (db_workers d) then Inl ErrForeignKeyViolation
             else Inr (d\<lparr>db_vms := db_vms d @
               [\<lparr>vm_id = vmID, vm_worker_id = workerID, vm_state = st, vm_ip_address = ipAddress,
                 vm_state_since = now, vm_created_at = now\<rparr>]\<rparr>)))"

definition updateVMState :: "time \<Rightarrow> id \<Rightarrow> string \<Rightarrow> db \<Rightarrow> db_error + db" where
  "updateVMState now vmID state d =
     (case parse_vm_state state of
        None \<Rightarrow> Inl ErrInvalidEnumInput
      | Some st \<Rightarrow> Inr (d\<lparr>db_vms := set_vm vmID
          (\<lambda>r. r\<lparr>vm_state := st, vm_state_since := now\<rparr>) (db_vms d)\<rparr>))"

definition deleteVM :: "id \<Rightarrow> db \<Rightarrow> db" where
  "deleteVM vmID d = d\<lparr>db_vms := drop_vm vmID (db_vms d)\<rparr>"

definition setWorkerVMsOffline :: "id \<Rightarrow> db \<Rightarrow> db" where
  "setWorkerVMsOffline workerID d =
     d\<lparr>db_vms := delete_where (\<lambda>v. vm_worker_id v = workerID) (db_vms d)\<rparr>"

definition collectVMIDsForWorker :: "id \<Rightarrow> db \<Rightarrow> id list" where
  "collectVMIDsForWorker workerID d =
     map vm_id (filter (\<lambda>v. vm_worker_id v = workerID) (db_vms d))"

definition deleteMissingVMsForWorker :: "id \<Rightarrow> id list \<Rightarrow> db \<Rightarrow> id list \<times> db" where
  "deleteMissingVMsForWorker workerID activeVMIDs d =
     (if activeVMIDs = [] then
        (collectVMIDsForWorker workerID d,
         d\<lparr>db_vms := delete_where (\<lambda>v. vm_worker_id v = workerID) (db_vms d)\<rparr>)
      else
        let deleted = map vm_id (filter (\<lambda>v. vm_worker_id v = workerID \<and> vm_id v \<notin> set activeVMIDs)
                                   (db_vms d))
        in (deleted,
            if deleted \<noteq> []
            then d\<lparr>db_vms := delete_where (\<lambda>v. vm_id v \<in> set deleted) (db_vms d)\<rparr> else d))"

definition listVMsByWorker :: "id \<Rightarrow> db \<Rightarrow> vm list" where
  "listVMsByWorker workerID d = filter (\<lambda>v. vm_worker_id v = workerID) (db_vms d)"

definition getVM :: "id \<Rightarrow> db \<Rightarrow> db_error + vm" where
  "getVM vmID d = (case find_vm vmID (db_vms d) of None \<Rightarrow> Inl ErrNoRows | Some v \<Rightarrow> Inr v)"

definition listAllVMs :: "(string \<Rightarrow> string) \<Rightarrow> db \<Rightarrow> vm list" where
  "listAllVMs collate d = sort_key (\<lambda>v. (collate (vm_worker_id v), vm_state_since v)) (db_vms d)"

section \<open>The schema is kept\<close>

lemma schema_ok_vms:
  assumes "schema_ok d" and "distinct (map vm_id t)"
    and "\<And>v. v \<in> set t \<Longrightarrow> vm_worker_id v \<in> wk_id ` set (db_workers d)"
  shows "schema_ok (d\<lparr>db_vms := t\<rparr>)"
  using assms by (auto simp: schema_ok_def workstations_ok_def vms_ok_def Let_def list_all_iff)

lemma schema_ok_vm_worker: "schema_ok d \<Longrightarrow> v \<in> set (db_vms d) \<Longrightarrow> vm_worker_id v \<in> wk_id ` set (db_workers d)"
  by (auto simp: schema_ok_def vms_ok_def list_all_iff)

lemma schema_ok_set_vm:
  assumes "schema_ok d" and "\<And>v. vm_id (f v) = vm_id v" and "\<And>v. vm_worker_id (f v) = vm_worker_id v"
  shows "schema_ok (d\<lparr>db_vms := set_vm k f (db_vms d)\<rparr>)"
proof (rule schema_ok_vms [OF assms(1)])
  show "distinct (map vm_id (set_vm k f (db_vms d)))"
    using assms(1,2) schema_ok_distinct(3) by (simp add: vmt.distinct_modify)
  show "vm_worker_id v \<in> wk_id ` set (db_workers d)" if "v \<in> set (set_vm k f (db_vms d))" for v
    using that assms(3) schema_ok_vm_worker [OF assms(1)] by (auto simp: vmt.set_modify split: if_splits)
qed

lemma schema_ok_delete_vms:
  "schema_ok d \<Longrightarrow> schema_ok (d\<lparr>db_vms := delete_where P (db_vms d)\<rparr>)"
  by (intro schema_ok_vms)
    (auto simp: set_delete_where intro: distinct_map_delete_where schema_ok_distinct schema_ok_vm_worker)

lemma upsertVM_schema:
  assumes "schema_ok d" and "upsertVM now v k st ip d = Inr d'"
  shows "schema_ok d'"
proof (cases "find_vm v (db_vms d)")
  case None
  with assms(2) obtain s where k: "k \<in> wk_id ` set (db_workers d)"
    and d': "d' = d\<lparr>db_vms := db_vms d @ [\<lparr>vm_id = v, vm_worker_id = k, vm_state = s,
       vm_ip_address = ip, vm_state_since = now, vm_created_at = now\<rparr>]\<rparr>"
    by (auto simp: upsertVM_def split: option.splits if_splits)
  have "v \<notin> vm_id ` set (db_vms d)" using None by (simp add: vmt.lookup_None)
  then show ?thesis unfolding d'
    using k schema_ok_distinct(3) [OF assms(1)] schema_ok_vm_worker [OF assms(1)]
    by (intro schema_ok_vms [OF assms(1)]) auto
next
  case (Some r)
  with assms show ?thesis
    by (auto simp: upsertVM_def intro!: schema_ok_set_vm split: option.splits)
qed

lemma updateVMState_schema:
  "schema_ok d \<Longrightarrow> updateVMState now v st d = Inr d' \<Longrightarrow> schema_ok d'"
  by (auto simp: updateVMState_def intro!: schema_ok_set_vm split: option.splits)

lemma deleteVM_schema: "schema_ok d \<Longrightarrow> schema_ok (deleteVM v d)"
  by (simp add: deleteVM_def drop_vm_def schema_ok_delete_vms)

lemma setWorkerVMsOffline_schema: "schema_ok d \<Longrightarrow> schema_ok (setWorkerVMsOffline k d)"
  by (simp add: setWorkerVMsOffline_def schema_ok_delete_vms)

lemma deleteMissing_schema: "schema_ok d \<Longrightarrow> schema_ok (snd (deleteMissingVMsForWorker k ids d))"
  by (simp add: deleteMissingVMsForWorker_def Let_def schema_ok_delete_vms)

lemma deleteMissing_rows:
  assumes "schema_ok d"
  shows "db_vms (snd (deleteMissingVMsForWorker k ids d)) =
    filter (\<lambda>v. vm_worker_id v \<noteq> k \<or> vm_id v \<in> set ids) (db_vms d)"
proof -
  have same: "v = u" if "v \<in> set (db_vms d)" "u \<in> set (db_vms d)" "vm_id v = vm_id u" for u v
    using inj_on_key [OF schema_ok_distinct(3) [OF assms] that] .
  have "(vm_id v \<notin> vm_id ` {u \<in> set (db_vms d). vm_worker_id u = k \<and> vm_id u \<notin> set ids}) =
      (vm_worker_id v \<noteq> k \<or> vm_id v \<in> set ids)" if "v \<in> set (db_vms d)" for v
    using same that by fastforce
  then show ?thesis
    by (auto simp: deleteMissingVMsForWorker_def Let_def delete_where_def filter_empty_conv
        intro!: filter_cong filter_True [symmetric])
qed

text \<open>
  Synchronising the machines of a worker with the identifiers it reports removes exactly the
  rows of this worker that are not reported, reports back exactly their identifiers, leaves every
  other worker's rows alone, and doing it again changes nothing.
\<close>

theorem deleteMissingVMs_exact:
  assumes "schema_ok d" and "deleteMissingVMsForWorker k ids d = (deleted, d')"
  shows "db_vms d' = filter (\<lambda>v. vm_worker_id v \<noteq> k \<or> vm_id v \<in> set ids) (db_vms d) \<and>
    set deleted = vm_id ` (set (db_vms d) - set (db_vms d')) \<and>
    deleteMissingVMsForWorker k ids d' = ([], d')"
proof -
  have rows: "db_vms d' = filter (\<lambda>v. vm_worker_id v \<noteq> k \<or> vm_id v \<in> set ids) (db_vms d)"
    using deleteMissing_rows [OF assms(1), of k ids] assms(2) by simp
  have "set deleted = vm_id ` (set (db_vms d) - set (db_vms d'))"
    using assms(2) unfolding rows
    by (auto simp: deleteMissingVMsForWorker_def collectVMIDsForWorker_def Let_def filter_empty_conv
        split: if_splits)
  moreover have "deleteMissingVMsForWorker k ids d' = ([], d')"
    by (auto simp: deleteMissingVMsForWorker_def collectVMIDsForWorker_def Let_def rows
        delete_where_def filter_empty_conv intro!: db.equality)
  ultimately show ?thesis using rows by simp
qed

end
