(* ===== verification/MembersDB.thy ===== *)
theory MembersDB
  imports Samples
begin

text \<open>
  Members (\<^verbatim>\<open>db/members.go\<close>): a member is created from the subject and the email of a
  verified access token, and found again by the subject.  \<open>uuid\<close> is the default value
  \<^verbatim>\<open>gen_random_uuid()\<close> of the key column.
\<close>

definition default_display_name :: "string \<Rightarrow> string" where
  "default_display_name email =
     (let (local, _, ok) = cut email ''@'' in if ok \<and> local \<noteq> [] then local else email)"

definition upsertMemberFromAccess ::
  "time \<Rightarrow> id \<Rightarrow> string \<Rightarrow> string \<Rightarrow> db \<Rightarrow> db_error + member \<times> db" where
  "upsertMemberFromAccess now uuid accessSub email d =
     (case find_member accessSub (db_members d) of
        Some m \<Rightarrow>
          (let f = (\<lambda>r. r\<lparr>mb_email := email, mb_updated_at := now, mb_last_seen_at := now\<rparr>)
           in Inr (f m, d\<lparr>db_members := set_member accessSub f (db_members d)\<rparr>))
      | None \<Rightarrow>
          if uuid \<in> mb_id ` set (db_members d) then Inl ErrUniqueViolation
          else let m = \<lparr>mb_id = uuid, mb_access_sub = accessSub, mb_email = email,
                        mb_display_name = default_display_name email, mb_role = RoleMember,
                        mb_created_at = now, mb_updated_at = now, mb_last_seen_at = now\<rparr>
               in Inr (m, d\<lparr>db_members := db_members d @ [m]\<rparr>))"

definition getMemberByAccessSub :: "string \<Rightarrow> db \<Rightarrow> db_error + member" where
  "getMemberByAccessSub accessSub d =
     (case find_member accessSub (db_members d) of None \<Rightarrow> Inl ErrNoRows | Some m \<Rightarrow> Inr m)"

lemma schema_ok_members:
  assumes "schema_ok d" and "members_ok t" and "mb_id ` set (db_members d) \<subseteq> mb_id ` set t"
  shows "schema_ok (d\<lparr>db_members := t\<rparr>)"
  using assms unfolding schema_ok_def workstations_ok_def vms_ok_def Let_def list_all_iff
  by (simp add: subset_iff)

lemma upsertMember_cases:
  assumes "upsertMemberFromAccess now uuid sub email d = Inr (m, d')"
  obtains (old) r where "find_member sub (db_members d) = Some r"
      and "m = r\<lparr>mb_email := email, mb_updated_at := now, mb_last_seen_at := now\<rparr>"
      and "d' = d\<lparr>db_members := set_member sub
             (\<lambda>r. r\<lparr>mb_email := email, mb_updated_at := now, mb_last_seen_at := now\<rparr>) (db_members d)\<rparr>"
    | (new) "find_member sub (db_members d) = None" and "uuid \<notin> mb_id ` set (db_members d)"
      and "mb_id m = uuid" and "mb_access_sub m = sub" and "mb_email m = email"
      and "mb_role m = RoleMember" and "d' = d\<lparr>db_members := db_members d @ [m]\<rparr>"
  using assms by (auto simp: upsertMemberFromAccess_def Let_def split: option.splits if_splits)

lemma upsertMember_schema:
  assumes "schema_ok d" and "upsertMemberFromAccess now uuid sub email d = Inr (m, d')"
  shows "schema_ok d'"
  using assms(2)
proof (cases rule: upsertMember_cases)
  case (old r)
  let ?f = "\<lambda>r. r\<lparr>mb_email := email, mb_updated_at := now, mb_last_seen_at := now\<rparr>"
  have "map mb_id (set_member sub ?f t) = map mb_id t"
    "map mb_access_sub (set_member sub ?f t) = map mb_access_sub t" for t
    by (simp_all add: set_member_def map_update_where)
  moreover from this(1) have "mb_id ` set (set_member sub ?f t) = mb_id ` set t" for t
    by (metis image_set)
  ultimately show ?thesis unfolding old(3)
    using assms(1) schema_ok_distinct(4,8) [OF assms(1)]
    by (intro schema_ok_members) (simp_all add: members_ok_def)
next
  case new
  then show ?thesis
    using assms(1) schema_ok_distinct(4,8) [OF assms(1)] new
    by (auto intro!: schema_ok_members simp: members_ok_def mbt.lookup_None)
qed

text \<open>
  Signing in is a stable identity.  The member a subject signs in as is found again under that
  subject with the new email; if the subject has signed in before it keeps its identifier, role,
  display name and creation time, and every other member's row is as it was.
\<close>

theorem upsertMember_stable_identity:
  assumes "schema_ok d" and "upsertMemberFromAccess now uuid sub email d = Inr (m, d')"
  shows "getMemberByAccessSub sub d' = Inr m \<and> mb_email m = email \<and> mb_access_sub m = sub \<and>
    (case find_member sub (db_members d) of
       None \<Rightarrow> mb_id m = uuid \<and> mb_role m = RoleMember \<and> uuid \<notin> mb_id ` set (db_members d)
     | Some r \<Rightarrow> mb_id m = mb_id r \<and> mb_role m = mb_role r \<and> mb_display_name m = mb_display_name r \<and>
         mb_created_at m = mb_created_at r) \<and>
    (\<forall>s. s \<noteq> sub \<longrightarrow> find_member s (db_members d') = find_member s (db_members d))"
  using assms(2)
proof (cases rule: upsertMember_cases)
  case (old r)
  then have "mb_access_sub r = sub" by (auto dest: mbt.lookup_SomeD)
  with old show ?thesis by (auto simp: getMemberByAccessSub_def mbt.lookup_modify)
next
  case new
  then have "find_member s (db_members d') = (if s = sub then Some m else find_member s (db_members d))" for s
    by (cases "s = sub"; cases "find_member s (db_members d)") (simp_all add: find_member_def query_row_append)
  with new show ?thesis by (simp add: getMemberByAccessSub_def)
qed

end
