(* ===== verification/ReleasesDB.thy ===== *)
theory ReleasesDB
  imports Samples
begin

text \<open>
  Release records (\<^verbatim>\<open>db/releases.go\<close>).  \<open>uuid\<close> is the default value of the key column; a
  violation of either unique constraint carries the code 23505, which the insert reports as an
  existing version.
\<close>

definition insertRelease ::
  "time \<Rightarrow> id \<Rightarrow> release \<Rightarrow> db \<Rightarrow> db_error + release \<times> db" where
  "insertRelease now uuid r d =
     (if rel_version r \<in> rel_version ` set (db_releases d) \<or> uuid \<in> rel_id ` set (db_releases d)
      then Inl ErrReleaseVersionExists
      else let r' = r\<lparr>rel_id := uuid, rel_uploaded_at := now\<rparr>
           in Inr (r', d\<lparr>db_releases := db_releases d @ [r']\<rparr>))"

definition getLatestRelease :: "db \<Rightarrow> db_error + release" where
  "getLatestRelease d = (case sort_key (\<lambda>r. - rel_uploaded_at r) (db_releases d) of
     [] \<Rightarrow> Inl ErrNoRows | r # _ \<Rightarrow> Inr r)"

definition getReleaseByVersion :: "string \<Rightarrow> db \<Rightarrow> db_error + release" where
  "getReleaseByVersion version d =
     (case find_release version (db_releases d) of None \<Rightarrow> Inl ErrNoRows | Some r \<Rightarrow> Inr r)"

lemma schema_ok_releases: "schema_ok d \<Longrightarrow> releases_ok t \<Longrightarrow> schema_ok (d\<lparr>db_releases := t\<rparr>)"
  by (simp add: schema_ok_def workstations_ok_def vms_ok_def Let_def)

lemma insertRelease_schema:
  assumes "schema_ok d" and "insertRelease now uuid r d = Inr (r', d')"
  shows "schema_ok d'"
proof -
  have "releases_ok (db_releases d)" using assms(1) by (simp add: schema_ok_def)
  with assms show ?thesis
    by (auto simp: insertRelease_def Let_def releases_ok_def intro!: schema_ok_releases split: if_splits)
qed

lemma sort_key_hd:
  assumes "sort_key f xs = x # ys"
  shows "x \<in> set xs \<and> (\<forall>y \<in> set xs. f x \<le> f y)"
proof -
  have s: "set xs = set (x # ys)" using assms set_sort [of f xs] by simp
  have "sorted (map f (x # ys))" using assms sorted_sort_key [of f xs] by simp
  then show ?thesis by (auto simp: s)
qed

text \<open>
  A release that has been inserted is found under its version with the given digest, size,
  signer and path, versions are never replaced, and it becomes the latest release when it is
  uploaded after all others.
\<close>

theorem insertRelease_published:
  assumes "insertRelease now uuid r d = Inr (r', d')"
    and "\<And>q. q \<in> set (db_releases d) \<Longrightarrow> rel_uploaded_at q < now"
  shows "getReleaseByVersion (rel_version r) d' = Inr r' \<and> getLatestRelease d' = Inr r' \<and>
    getReleaseByVersion (rel_version r) d = Inl ErrNoRows \<and>
    r' = r\<lparr>rel_id := uuid, rel_uploaded_at := now\<rparr> \<and>
    insertRelease later uuid2 (r\<lparr>rel_sha256 := other\<rparr>) d' = Inl ErrReleaseVersionExists"
proof -
  from assms(1) have new: "rel_version r \<notin> rel_version ` set (db_releases d)"
    and r': "r' = r\<lparr>rel_id := uuid, rel_uploaded_at := now\<rparr>"
    and d': "d' = d\<lparr>db_releases := db_releases d @ [r']\<rparr>"
    by (auto simp: insertRelease_def Let_def split: if_splits)
  have none: "find_release (rel_version r) (db_releases d) = None"
    using new by (simp add: relt.lookup_None)
  have "getLatestRelease d' = Inr r'"
  proof (cases "sort_key (\<lambda>r. - rel_uploaded_at r) (db_releases d')")
    case Nil
    have "set (sort_key (\<lambda>r. - rel_uploaded_at r) (db_releases d')) \<noteq> {}" by (simp add: d')
    with Nil show ?thesis by simp
  next
    case (Cons x ys)
    note x = sort_key_hd [OF Cons]
    have le: "rel_uploaded_at y \<le> rel_uploaded_at x" if "y \<in> set (db_releases d')" for y
      using x that by auto
    have "r' \<in> set (db_releases d')" and at: "rel_uploaded_at r' = now" by (simp_all add: d' r')
    then have "now \<le> rel_uploaded_at x" using le by metis
    then have "x \<notin> set (db_releases d)" using assms(2) by (auto simp: linorder_not_less [symmetric])
    then have "x = r'" using x by (auto simp: d')
    with Cons show ?thesis by (simp add: getLatestRelease_def)
  qed
  then show ?thesis
    using none by (simp add: getReleaseByVersion_def find_release_def query_row_append d' r'
        insertRelease_def)
qed

end
