(* ===== verification/DbSystem.thy ===== *)
theory DbSystem
  imports WorkersDB Scheduler Lifecycle VMsDB MembersDB ReleasesDB
begin

text \<open>
  The database as one system: every statement and transaction of package \<^verbatim>\<open>db\<close> is a step, in
  any order and with any arguments.  What every reachable database satisfies follows from the
  invariant \<open>db_ok\<close>.  Registration computes the key of a worker from its hardware identifier
  (\<^verbatim>\<open>rest/workers.go\<close>), which is the only condition on the arguments.
\<close>

section \<open>Capacity\<close>

definition fits :: "db \<Rightarrow> id \<times> int \<Rightarrow> bool" where
  "fits d place = (\<exists>k \<in> set (db_workers d). wk_id k = fst place \<and> snd place < wk_pool_size k)"

definition capacity_ok :: "db \<Rightarrow> bool" where
  "capacity_ok d = list_all (fits d) (map ws_place (db_workstations d))"

definition db_ok :: "db \<Rightarrow> bool" where
  "db_ok d = (schema_ok d \<and> lifecycle_ok d \<and> capacity_ok d)"

definition pools_kept :: "db \<Rightarrow> db \<Rightarrow> bool" where
  "pools_kept d d' = (\<forall>k \<in> set (db_workers d). \<exists>k' \<in> set (db_workers d').
     wk_id k' = wk_id k \<and> wk_pool_size k' = wk_pool_size k)"

lemma pools_kept_same [simp]: "db_workers d' = db_workers d \<Longrightarrow> pools_kept d d'"
  by (auto simp: pools_kept_def)

lemma pools_kept_set_worker:
  assumes "\<And>w. wk_id (f w) = wk_id w" and "\<And>w. wk_pool_size (f w) = wk_pool_size w"
  shows "pools_kept d (d\<lparr>db_workers := set_worker k f (db_workers d)\<rparr>)"
  unfolding pools_kept_def
proof
  fix w
  assume "w \<in> set (db_workers d)"
  then have "(if wk_id w = k then f w else w) \<in> set (set_worker k f (db_workers d))"
    by (auto simp: wkt.set_modify)
  with assms show "\<exists>k' \<in> set (db_workers (d\<lparr>db_workers := set_worker k f (db_workers d)\<rparr>)).
      wk_id k' = wk_id w \<and> wk_pool_size k' = wk_pool_size w"
    by (intro bexI [of _ "if wk_id w = k then f w else w"]) simp_all
qed

lemma pools_kept_append: "pools_kept d (d\<lparr>db_workers := db_workers d @ t\<rparr>)"
  by (auto simp: pools_kept_def)

lemma fits_mono: "fits d p \<Longrightarrow> pools_kept d d' \<Longrightarrow> fits d' p"
  by (fastforce simp: fits_def pools_kept_def)

lemma capacity_ok_mono:
  assumes "capacity_ok d" and "pools_kept d d'"
    and "ws_place ` set (db_workstations d') \<subseteq> ws_place ` set (db_workstations d)"
  shows "capacity_ok d'"
proof -
  have "fits d' (ws_place w)" if "w \<in> set (db_workstations d')" for w
  proof -
    have "ws_place w \<in> ws_place ` set (db_workstations d)" using assms(3) that by blast
    then have "fits d (ws_place w)" using assms(1) by (auto simp: capacity_ok_def list_all_iff)
    then show ?thesis using assms(2) by (rule fits_mono)
  qed
  then show ?thesis by (simp add: capacity_ok_def list_all_iff)
qed

lemma fits_workstations [simp]: "fits (d\<lparr>db_workstations := t\<rparr>) = fits d"
  by (rule ext) (simp add: fits_def)

lemma db_ok_schema: "db_ok d \<Longrightarrow> schema_ok d"
  by (simp add: db_ok_def)

lemma db_ok_workers:
  assumes "db_ok d" and "schema_ok d'" and "pools_kept d d'"
    and "db_workstations d' = db_workstations d"
  shows "db_ok d'"
  using assms capacity_ok_mono [of d d'] by (simp add: db_ok_def lifecycle_ok_def)

section \<open>The operations\<close>

lemma upsertWorker_ok:
  assumes "db_ok d" and "wk_id w = generateWorkerID (wk_hardware_uuid w)"
    and "upsertWorker now w d = Inr d'"
  shows "db_ok d'"
proof (rule db_ok_workers [OF assms(1)])
  show "schema_ok d'" using assms by (blast intro: upsertWorker_schema db_ok_schema)
  show "pools_kept d d'" "db_workstations d' = db_workstations d"
    using assms(3)
    by (auto simp: upsertWorker_def intro!: pools_kept_set_worker pools_kept_append
        split: if_splits option.splits)
qed

lemma worker_update_ok:
  "db_ok d \<Longrightarrow> db_ok (updateHeartbeat now k d)"
  "db_ok d \<Longrightarrow> db_ok (setWorkerOffline k d)"
  "db_ok d \<Longrightarrow> db_ok (touchWorkerTokenUsage now k d)"
  by (auto simp: updateHeartbeat_def setWorkerOffline_def touchWorkerTokenUsage_def db_ok_def
      intro!: schema_ok_set_worker capacity_ok_mono [of d] pools_kept_set_worker)
    (simp_all add: lifecycle_ok_def)

lemma issueWorkerToken_ok:
  assumes "db_ok d" and "issueWorkerToken now rnd k d = Inr (tok, d')"
  shows "db_ok d'"
proof (rule db_ok_workers [OF assms(1)])
  show "schema_ok d'" using assms by (blast intro: issueWorkerToken_schema db_ok_schema)
  show "pools_kept d d'" "db_workstations d' = db_workstations d"
    using assms(2) by (auto simp: issueWorkerToken_def intro!: pools_kept_set_worker split: sum.splits)
qed

lemma assignHostname_ok:
  assumes "db_ok d" and "assignHostname now u d = Inr (h, d')"
  shows "db_ok d'"
proof (rule db_ok_workers [OF assms(1)])
  show "schema_ok d'" using assms by (blast intro: assignHostname_schema db_ok_schema)
  show "pools_kept d d'" "db_workstations d' = db_workstations d"
    using assms(2)
    by (auto simp: assignHostname_def Let_def intro!: pools_kept_set_worker pools_kept_append
        split: option.splits)
qed

lemma same_tables_ok:
  assumes "db_ok d" and "schema_ok d'" and "db_workers d' = db_workers d"
    and "db_workstations d' = db_workstations d"
  shows "db_ok d'"
  using assms by (intro db_ok_workers [OF assms(1)]) simp_all

lemma claimWorkstation_ok:
  assumes "db_ok d" and "claimWorkstation collate server_now now uuid m p d = Inr (r, d')"
  shows "db_ok d'"
proof -
  obtain w created where r: "r = (w, created)" by force
  from assms(2) [unfolded r] obtain k c where
    k: "k \<in> set (listSchedulableWorkers collate (server_now - schedulableHeartbeatWindow) d)"
    and c: "cand_of (listAllocatedSlots d) k = Some c"
    and ins: "insertWorkstation now uuid m (wk_id k) (cand_slot c) d = Inr (w, d')"
    by (rule claimWorkstation_InrE)
  note w = insertWorkstation_Inr [OF ins]
  have "fits d (ws_place w)"
    using k c w by (auto simp: fits_def ws_place_def cand_of_Some firstAvailableSlot_True
        set_listSchedulableWorkers)
  moreover have "schema_ok d'" using assms by (blast intro: claimWorkstation_schema db_ok_schema)
  ultimately show ?thesis
    using assms(1) w by (auto simp: db_ok_def lifecycle_ok_def capacity_ok_def phase_ok_def phase_def)
qed

definition places_kept :: "db \<Rightarrow> db \<Rightarrow> bool" where
  "places_kept d d' = (ws_place ` set (db_workstations d') \<subseteq> ws_place ` set (db_workstations d) \<and>
     db_workers d' = db_workers d)"

lemma places_kept_rewrites: "rewrites_row m k d d' \<Longrightarrow> places_kept d d'"
  by (auto simp: places_kept_def rewrites_row_def set_update_where same_identity_def)

lemma places_kept_report: "updateWorkstationStatus now wk r d = Inr d' \<Longrightarrow> places_kept d d'"
  by (drule report_cases)
    (auto simp: places_kept_def wst.set_modify wst.set_remove same_identity_def)

lemma places_kept_steps:
  "places_kept d d"
  "schema_ok d \<Longrightarrow> ensureWorkstationRunningByIDForMember now m k d = Inr (w, d') \<Longrightarrow> places_kept d d'"
  "updateWorkstationDesiredPowerStateByID now m k des d = Inr (w, d') \<Longrightarrow> places_kept d d'"
  "updateWorkstationStatus now wk r d = Inr d' \<Longrightarrow> places_kept d d'"
  by (simp add: places_kept_def)
    (blast intro: places_kept_rewrites ensure_rewrites desire_rewrites places_kept_report)+

lemma ws_apply_places: "schema_ok d \<Longrightarrow> places_kept d (ws_apply now ev d)"
  by (cases ev) (auto intro: places_kept_steps split: sum.splits)

lemma ws_apply_ok:
  assumes "db_ok d"
  shows "db_ok (ws_apply now ev d)"
proof -
  have "schema_ok d" "lifecycle_ok d" "capacity_ok d" using assms by (simp_all add: db_ok_def)
  then show ?thesis
    using ws_apply_places [of d now ev] capacity_ok_mono [of d "ws_apply now ev d"]
    unfolding db_ok_def places_kept_def
    by (simp only: ws_apply_schema ws_apply_lifecycle_ok pools_kept_same)
qed

section \<open>The system\<close>

inductive db_step :: "db \<Rightarrow> db \<Rightarrow> bool" where
  register: "wk_id w = generateWorkerID (wk_hardware_uuid w) \<Longrightarrow> upsertWorker now w d = Inr d' \<Longrightarrow>
    db_step d d'"
| heartbeat: "db_step d (updateHeartbeat now k d)"
| offline: "db_step d (setWorkerOffline k d)"
| touch: "db_step d (touchWorkerTokenUsage now k d)"
| issue: "issueWorkerToken now rnd k d = Inr (tok, d') \<Longrightarrow> db_step d d'"
| hostname: "assignHostname now u d = Inr (h, d') \<Longrightarrow> db_step d d'"
| claim: "claimWorkstation collate server_now now uuid m p d = Inr (r, d') \<Longrightarrow> db_step d d'"
| power: "db_step d (ws_apply now ev d)"
| vm_upsert: "upsertVM now v k st ip d = Inr d' \<Longrightarrow> db_step d d'"
| vm_update: "updateVMState now v st d = Inr d' \<Longrightarrow> db_step d d'"
| vm_delete: "db_step d (deleteVM v d)"
| vms_offline: "db_step d (setWorkerVMsOffline k d)"
| vms_missing: "db_step d (snd (deleteMissingVMsForWorker k ids d))"
| sign_in: "upsertMemberFromAccess now uuid sub email d = Inr (m, d') \<Longrightarrow> db_step d d'"
| publish: "insertRelease now uuid r d = Inr (r', d') \<Longrightarrow> db_step d d'"

lemma upsertVM_ok:
  assumes "db_ok d" and "upsertVM now v k st ip d = Inr d'"
  shows "db_ok d'"
proof (rule same_tables_ok [OF assms(1)])
  show "schema_ok d'" using assms by (blast intro: upsertVM_schema db_ok_schema)
qed (use assms(2) in \<open>auto simp: upsertVM_def split: option.splits if_splits\<close>)

lemma updateVMState_ok:
  assumes "db_ok d" and "updateVMState now v st d = Inr d'"
  shows "db_ok d'"
proof (rule same_tables_ok [OF assms(1)])
  show "schema_ok d'" using assms by (blast intro: updateVMState_schema db_ok_schema)
qed (use assms(2) in \<open>auto simp: updateVMState_def split: option.splits\<close>)

lemma vms_deleted_ok:
  assumes "db_ok d"
  shows "db_ok (deleteVM v d)" "db_ok (setWorkerVMsOffline k d)"
    "db_ok (snd (deleteMissingVMsForWorker k ids d))"
  using db_ok_schema [OF assms]
  by (auto intro!: same_tables_ok [OF assms] deleteVM_schema setWorkerVMsOffline_schema
      deleteMissing_schema)
    (simp_all add: deleteVM_def setWorkerVMsOffline_def deleteMissingVMsForWorker_def Let_def)

lemma sign_in_ok:
  assumes "db_ok d" and "upsertMemberFromAccess now uuid sub email d = Inr (m, d')"
  shows "db_ok d'"
proof (rule same_tables_ok [OF assms(1)])
  show "schema_ok d'" using assms by (blast intro: upsertMember_schema db_ok_schema)
  show "db_workers d' = db_workers d" "db_workstations d' = db_workstations d"
    using assms(2) by (cases rule: upsertMember_cases; simp)+
qed

lemma publish_ok:
  assumes "db_ok d" and "insertRelease now uuid r d = Inr (r', d')"
  shows "db_ok d'"
proof (rule same_tables_ok [OF assms(1)])
  show "schema_ok d'" using assms by (blast intro: insertRelease_schema db_ok_schema)
qed (use assms(2) in \<open>auto simp: insertRelease_def Let_def split: if_splits\<close>)

lemma db_step_ok: "db_step d d' \<Longrightarrow> db_ok d \<Longrightarrow> db_ok d'"
  by (induction rule: db_step.induct)
    (blast intro: upsertWorker_ok worker_update_ok issueWorkerToken_ok assignHostname_ok
      claimWorkstation_ok ws_apply_ok upsertVM_ok updateVMState_ok vms_deleted_ok sign_in_ok publish_ok)+

definition db_init :: "db \<Rightarrow> bool" where
  "db_init d = (d = empty_db)"

interpretation dbs: invariant_system db_init db_step db_ok
proof
  show "db_ok s" if "db_init s" for s
    using that by (simp add: db_init_def db_ok_def lifecycle_ok_def capacity_ok_def)
      (simp add: empty_db_def)
qed (rule db_step_ok)

lemma card_slots:
  assumes "distinct (map ws_place t)" and "\<And>w. w \<in> set t \<Longrightarrow> ws_worker_id w = k"
    and "\<And>w. w \<in> set t \<Longrightarrow> 0 \<le> ws_slot w \<and> ws_slot w < n"
  shows "distinct (map ws_slot t) \<and> length t \<le> nat n"
proof -
  have "map ws_place t = map (Pair k) (map ws_slot t)" using assms(2) by (simp add: ws_place_def)
  then have "distinct (map (Pair k) (map ws_slot t))" using assms(1) by (simp only:)
  then have d: "distinct (map ws_slot t)" by (simp only: distinct_map)
  have "set (map ws_slot t) \<subseteq> {0..<n}" using assms(3) by auto
  then have "card (set (map ws_slot t)) \<le> card {0..<n}" by (intro card_mono) auto
  then show ?thesis using d distinct_card [OF d] by simp
qed

lemma db_ok_slots:
  assumes "db_ok d" and "k \<in> set (db_workers d)"
    and "w \<in> set (db_workstations d)" and "ws_worker_id w = wk_id k"
  shows "0 \<le> ws_slot w \<and> ws_slot w < wk_pool_size k \<and> ws_member_id w \<in> mb_id ` set (db_members d)"
proof -
  have "fits d (ws_place w)" using assms(1,3) by (simp add: db_ok_def capacity_ok_def list_all_iff)
  then obtain j where j: "j \<in> set (db_workers d)" "wk_id j = wk_id k" "ws_slot w < wk_pool_size j"
    using assms(4) by (auto simp: fits_def ws_place_def)
  have "j = k" using inj_on_key [OF schema_ok_distinct(1) [OF db_ok_schema [OF assms(1)]] j(1) assms(2) j(2)] .
  with j assms show ?thesis by (auto simp: db_ok_def schema_defs list_all_iff)
qed

lemma db_ok_pool:
  assumes ok: "db_ok d" and "k \<in> set (db_workers d)"
  shows "let ws = filter (\<lambda>w. ws_worker_id w = wk_id k) (db_workstations d)
    in length ws \<le> nat (wk_pool_size k) \<and> distinct (map ws_slot ws) \<and>
       (\<forall>w \<in> set ws. 0 \<le> ws_slot w \<and> ws_slot w < wk_pool_size k \<and>
          ws_member_id w \<in> mb_id ` set (db_members d))"
proof -
  let ?ws = "filter (\<lambda>w. ws_worker_id w = wk_id k) (db_workstations d)"
  have "distinct (map ws_place ?ws)"
    using schema_ok_distinct(7) [OF db_ok_schema [OF ok]] by (rule distinct_map_filter)
  moreover have slots: "0 \<le> ws_slot w \<and> ws_slot w < wk_pool_size k \<and>
      ws_member_id w \<in> mb_id ` set (db_members d)" if "w \<in> set ?ws" for w
    using that db_ok_slots [OF ok assms(2), of w] by simp
  ultimately have "distinct (map ws_slot ?ws) \<and> length ?ws \<le> nat (wk_pool_size k)"
    by (intro card_slots [of ?ws "wk_id k"]) auto
  with slots show ?thesis unfolding Let_def by blast
qed

text \<open>
  C1: No worker is ever overcommitted.  In every reachable database, whatever requests, heartbeats
  and reports came in whatever order, the workstations of a worker hold pairwise distinct slots
  below the worker's pool size, are never more than its pool size, and each belongs to a member.
\<close>

theorem never_overcommitted:
  assumes "reach db_init db_step d" and "k \<in> set (db_workers d)"
  shows "let ws = filter (\<lambda>w. ws_worker_id w = wk_id k) (db_workstations d)
    in length ws \<le> nat (wk_pool_size k) \<and> distinct (map ws_slot ws) \<and>
       (\<forall>w \<in> set ws. 0 \<le> ws_slot w \<and> ws_slot w < wk_pool_size k \<and>
          ws_member_id w \<in> mb_id ` set (db_members d))"
  by (rule db_ok_pool [OF dbs.reach_invar [OF assms(1)] assms(2)])

lemma reach_example:
  obtains d where "reach db_init db_step d" and "sample_worker \<in> set (db_workers d)"
    and "db_workstations d \<noteq> []"
proof -
  have r0: "reach db_init db_step empty_db" by (rule reach_init) (simp add: db_init_def)
  let ?d1 = "empty_db\<lparr>db_members := [sample_member]\<rparr>"
  have "upsertMemberFromAccess 2 ''m1'' ''s1'' ''a@example.com'' empty_db = Inr (sample_member, ?d1)"
    by (simp add: upsertMemberFromAccess_def empty_db_def find_member_def sample_member_def
        default_display_name_def cut_def indexOf.simps Let_def)
  with r0 have r1: "reach db_init db_step ?d1" by (blast intro: reach_step sign_in)
  let ?d2 = "?d1\<lparr>db_workers := [sample_worker\<lparr>wk_last_heartbeat := None\<rparr>]\<rparr>"
  have "upsertWorker 1 sample_worker ?d1 = Inr ?d2"
    by (simp add: upsertWorker_def empty_db_def find_worker_def sample_worker_def int4_ok_def)
  moreover have "wk_id sample_worker = generateWorkerID (wk_hardware_uuid sample_worker)"
    by (simp add: sample_worker_def)
  ultimately have r2: "reach db_init db_step ?d2" using r1 by (blast intro: reach_step register)
  let ?d3 = "?d1\<lparr>db_workers := [sample_worker]\<rparr>"
  have "updateHeartbeat 100 (wk_id sample_worker) ?d2 = ?d3"
    by (simp add: updateHeartbeat_def set_worker_def) (simp add: sample_worker_def)
  with r2 have r3: "reach db_init db_step ?d3" by (metis reach_step heartbeat)
  have ok: "schema_ok ?d3" using dbs.reach_invar [OF r3] by (rule db_ok_schema)
  have "\<exists>r d'. claimWorkstation (\<lambda>s. s) 110 110 ''k1'' ''m1'' [] ?d3 = Inr (r, d')"
    by (simp add: claimWorkstation_def listSchedulableWorkers_def sample_worker_def second_def
        schedulableHeartbeatWindow_def selectWorkstationCandidate_def firstAvailableSlot_def
        first_slot_from.simps listAllocatedSlots_def empty_db_def no_candidate_def Let_def
        insertWorkstation_def sample_member_def int4_ok_def) blast
  then obtain w c d' where cl: "claimWorkstation (\<lambda>s. s) 110 110 ''k1'' ''m1'' [] ?d3 = Inr ((w, c), d')"
    by auto
  then have "reach db_init db_step d'" using r3 by (blast intro: reach_step claim)
  moreover have "db_workers d' = [sample_worker] \<and> db_workstations d' \<noteq> []"
    using cl by (rule claimWorkstation_InrE) (auto dest!: insertWorkstation_Inr)
  ultimately show thesis using that by simp
qed

theorem never_overcommitted_witness:
  "\<exists>d. reach db_init db_step d \<and> db_workstations d \<noteq> [] \<and>
     length (filter (\<lambda>w. ws_worker_id w = wk_id sample_worker) (db_workstations d)) \<le> 2"
proof -
  obtain d where d: "reach db_init db_step d" "sample_worker \<in> set (db_workers d)" "db_workstations d \<noteq> []"
    by (rule reach_example)
  from never_overcommitted [OF d(1,2)] d show ?thesis
    by (intro exI [of _ d]) (simp add: Let_def, simp add: sample_worker_def)
qed

text \<open>
  C12: In every reachable database a workstation whose deletion was asked for is in state
  \<open>deleting\<close>, so no statement can start or stop it, and the constraints of the schema (unique
  keys, unique places, references between the tables) hold although the code checks none of them.
\<close>

theorem reachable_consistent:
  assumes "reach db_init db_step d"
  shows "schema_ok d \<and> (\<forall>w \<in> set (db_workstations d).
    ws_desired_power_state w = DesiredDeleted \<longrightarrow> ws_power_state w = PowerDeleting)"
  using dbs.reach_invar [OF assms]
  by (auto simp: db_ok_def lifecycle_ok_def list_all_iff phase_ok_def phase_def)

theorem reachable_consistent_witness:
  "\<exists>d. reach db_init db_step d \<and> db_workstations d \<noteq> [] \<and> schema_ok d"
proof -
  obtain d where d: "reach db_init db_step d" "db_workstations d \<noteq> []"
    by (rule reach_example)
  from reachable_consistent [OF d(1)] d show ?thesis by blast
qed

lemma filter_set_other:
  assumes "\<And>w. same_identity (f w) w"
  shows "filter (\<lambda>w. ws_id w \<noteq> k) (set_workstation k f t) = filter (\<lambda>w. ws_id w \<noteq> k) t"
  unfolding set_workstation_def using same_identityD(1) [OF assms] by (intro filter_update_where) simp

lemma release_row:
  assumes "schema_ok d" and "find_workstation k (db_workstations d) = Some w"
    and "ws_power_state w \<notin> {PowerDeleting, PowerDeleted}"
  shows "ws_apply now (Desire (ws_member_id w) k DesiredDeleted) d =
    d\<lparr>db_workstations := set_workstation k (desire_row now DesiredDeleted PowerDeleting) (db_workstations d)\<rparr>"
  using assms desire_set [OF assms(1,2) refl]
  by (simp add: updateWorkstationDesiredPowerStateByID_def getWorkstationByIDForMember_eq Let_def
      next_power_state_def)

lemma deleted_report_row:
  assumes "find_workstation k (db_workstations d) = Some w" and "ws_desired_power_state w = DesiredDeleted"
    and "rep_workstation_id r = k" and "rep_power_state r = ''deleted''"
  shows "ws_apply now (Report (ws_worker_id w) r) d =
    d\<lparr>db_workstations := drop_workstation k (db_workstations d)\<rparr>"
proof -
  have "ws_id w = k" using assms(1) by (auto dest: wst.lookup_SomeD)
  with assms show ?thesis by (simp add: updateWorkstationStatus_def Let_def)
qed

text \<open>
  C8: Releasing a workstation gives its slot back.  After the owner's release and the report of
  its worker that the machine is deleted, exactly this row is gone, its slot is not among the
  allocated slots of the worker, and the worker has a free slot again for the next claim.
\<close>

theorem release_frees_slot:
  assumes "db_ok d" and "find_workstation k (db_workstations d) = Some w"
    and "ws_power_state w \<notin> {PowerDeleting, PowerDeleted}"
    and "rep_workstation_id r = k" and "rep_power_state r = ''deleted''"
    and "v \<in> set (db_workers d)" and "wk_id v = ws_worker_id w"
    and "d' = ws_apply t2 (Report (ws_worker_id w) r)
                (ws_apply t1 (Desire (ws_member_id w) k DesiredDeleted) d)"
  shows "db_workstations d' = filter (\<lambda>u. ws_id u \<noteq> k) (db_workstations d) \<and>
    db_workers d' = db_workers d \<and> ws_slot w \<notin> set (listAllocatedSlots d' (wk_id v)) \<and>
    has_free_slot v (listAllocatedSlots d' (wk_id v))"
proof -
  note sch = db_ok_schema [OF assms(1)]
  let ?f = "desire_row t1 DesiredDeleted PowerDeleting"
  let ?d1 = "d\<lparr>db_workstations := set_workstation k ?f (db_workstations d)\<rparr>"
  have w: "w \<in> set (db_workstations d)" "ws_id w = k" using assms(2) by (auto dest: wst.lookup_SomeD)
  have "find_workstation k (db_workstations ?d1) = Some (?f w)"
    using assms(2) by (simp add: wst.lookup_modify row_defs)
  then have "d' = ?d1\<lparr>db_workstations := drop_workstation k (db_workstations ?d1)\<rparr>"
    using deleted_report_row [of k ?d1 "?f w" r t2] assms(4,5,8) release_row [OF sch assms(2,3)]
    by (simp add: row_defs del: ws_apply.simps)
  then have rows: "db_workstations d' = filter (\<lambda>u. ws_id u \<noteq> k) (db_workstations d)"
    and wk: "db_workers d' = db_workers d"
    by (simp_all add: drop_workstation_def delete_where_def filter_set_other)
  have "u = w" if "u \<in> set (db_workstations d)" "ws_place u = ws_place w" for u
    using inj_on_key [OF schema_ok_distinct(7) [OF sch] that(1) w(1) that(2)] .
  then have "ws_slot u \<noteq> ws_slot w"
    if "u \<in> set (db_workstations d)" "ws_id u \<noteq> k" "ws_worker_id u = ws_worker_id w" for u
    using that w(2) unfolding ws_place_def by blast
  then have free: "ws_slot w \<notin> set (listAllocatedSlots d' (wk_id v))"
    unfolding assms(7) set_listAllocatedSlots rows by fastforce
  have "0 \<le> ws_slot w \<and> ws_slot w < wk_pool_size v"
    using db_ok_slots [OF assms(1,6) w(1)] assms(7) by simp
  with free rows wk show ?thesis by (auto simp: has_free_slot_iff)
qed

theorem release_frees_slot_witness:
  "let d' = ws_apply 6 (Report (generateWorkerID ''U1'') \<lparr>rep_workstation_id = ''k1'',
              rep_power_state = ''deleted'', rep_ip_address = [], rep_last_error = []\<rparr>)
            (ws_apply 5 (Desire ''m1'' ''k1'' DesiredDeleted) sample_db)
   in db_workstations d' = [] \<and> has_free_slot sample_worker (listAllocatedSlots d' (wk_id sample_worker))"
proof -
  let ?r = "\<lparr>rep_workstation_id = ''k1'', rep_power_state = ''deleted'', rep_ip_address = [],
    rep_last_error = []\<rparr>"
  have "db_ok sample_db"
    by (simp add: db_ok_def lifecycle_ok_def capacity_ok_def)
      (simp add: sample_defs phase_ok_def phase_def fits_def ws_place_def)
  moreover have "find_workstation ''k1'' (db_workstations sample_db) = Some sample_ws"
    by (simp add: sample_rows sample_find)
  moreover have "ws_power_state sample_ws \<notin> {PowerDeleting, PowerDeleted}"
    and "sample_worker \<in> set (db_workers sample_db)" and "wk_id sample_worker = ws_worker_id sample_ws"
    by (simp_all add: sample_defs)
  ultimately have "db_workstations (ws_apply 6 (Report (ws_worker_id sample_ws) ?r)
        (ws_apply 5 (Desire (ws_member_id sample_ws) ''k1'' DesiredDeleted) sample_db)) =
      filter (\<lambda>u. ws_id u \<noteq> ''k1'') (db_workstations sample_db) \<and>
    has_free_slot sample_worker (listAllocatedSlots (ws_apply 6 (Report (ws_worker_id sample_ws) ?r)
        (ws_apply 5 (Desire (ws_member_id sample_ws) ''k1'' DesiredDeleted) sample_db)) (wk_id sample_worker))"
    using release_frees_slot [of sample_db "''k1''" sample_ws ?r sample_worker, OF _ _ _ _ _ _ _ refl]
    by (simp del: ws_apply.simps)
  then show ?thesis
    by (simp add: Let_def sample_rows del: ws_apply.simps) (simp add: sample_ws_def del: ws_apply.simps)
qed

end
