(* ===== verification/Sha256_Vector.thy ===== *)
theory Sha256_Vector
  imports Sha256
begin

text \<open>
  The digest model evaluated on the one-block example of FIPS 180-4.
\<close>

text \<open>The test vector of the standard: the digest of \<open>abc\<close>, one block.\<close>

lemma sha_pad_abc:
  "be_words (sha_pad ''abc'') = [0x61626380, 0, 0, 0, 0, 0, 0, 0, 0, 0, 0, 0, 0, 0, 0, 24]"
  by code_simp

lemma sha_block_abc:
  "sha_block sha_H0 [0x61626380, 0, 0, 0, 0, 0, 0, 0, 0, 0, 0, 0, 0, 0, 0, 24] =
   [0xba7816bf, 0x8f01cfea, 0x414140de, 0x5dae2223, 0xb00361a3, 0x96177a9c, 0xb410ff61, 0xf20015ad]"
  by code_simp

lemma sha256_abc:
  "hexEncode (sha256 ''abc'') =
   ''ba7816bf8f01cfea414140de5dae2223b00361a396177a9cb410ff61f20015ad''"
proof -
  let ?h = "[0xba7816bf, 0x8f01cfea, 0x414140de, 0x5dae2223,
             0xb00361a3, 0x96177a9c, 0xb410ff61, 0xf20015ad :: w32]"
  let ?ws = "[0x61626380, 0, 0, 0, 0, 0, 0, 0, 0, 0, 0, 0, 0, 0, 0, 24 :: w32]"
  have one: "chunks16 (length ?ws div 16) ?ws = [?ws]" by simp
  have "sha256 ''abc'' = concat (map (\<lambda>w. be_bytes 4 (uint w)) ?h)"
    by (simp only: sha256_def Let_def sha_pad_abc one foldl.simps sha_block_abc)
  moreover have "hexEncode (concat (map (\<lambda>w. be_bytes 4 (uint w)) ?h)) =
    ''ba7816bf8f01cfea414140de5dae2223b00361a396177a9cb410ff61f20015ad''"
    by code_simp
  ultimately show ?thesis by (simp only:)
qed

end
