(* ===== verification/ProxySession.thy ===== *)
theory ProxySession
  imports GoLib "HOL-Library.AList"
begin

text \<open>
  The proxy sessions that pair a browser connection with a worker connection
  (\<^verbatim>\<open>proxy/session.go\<close>).  Session objects live in \<open>sm_objects\<close>, a pointer is an index into
  it, and the manager's map goes from identifiers to pointers: a handler that has looked a session
  up keeps its object although \<open>close_session\<close> has taken it out of the map.  A channel that is only
  ever closed is a flag.  Go iterates over a map in any order, the model in insertion order; what
  is proved of the iterating operations does not mention the order.
\<close>

section \<open>Data\<close>

datatype session_state = SessionPending | SessionActive | SessionClosed

datatype proxy_target = ProxyTargetVM | ProxyTargetHost

type_synonym conn = nat

type_synonym session_ptr = nat

record proxy_session =
  ps_id :: id
  ps_target :: proxy_target
  ps_vm_id :: id
  ps_worker_id :: id
  ps_port :: int
  ps_token :: string
  ps_state :: session_state
  ps_created_at :: time
  ps_client_conn :: "conn option"
  ps_worker_conn :: "conn option"
  ps_ready :: bool
  ps_done :: bool

record session_manager =
  sm_objects :: "proxy_session list"
  sm_sessions :: "(id \<times> session_ptr) list"
  sm_allowed_ports :: "int list"
  sm_closed_conns :: "conn list"

section \<open>Operations\<close>

definition newSessionManager :: session_manager where
  "newSessionManager = \<lparr>sm_objects = [], sm_sessions = [], sm_allowed_ports = [5900, 22],
     sm_closed_conns = []\<rparr>"

definition session_at :: "session_manager \<Rightarrow> session_ptr \<Rightarrow> proxy_session" where
  "session_at sm a = sm_objects sm ! a"

definition set_session :: "session_ptr \<Rightarrow> proxy_session \<Rightarrow> session_manager \<Rightarrow> session_manager" where
  "set_session a s sm = sm\<lparr>sm_objects := (sm_objects sm)[a := s]\<rparr>"

definition new_session ::
  "string \<Rightarrow> id \<Rightarrow> time \<Rightarrow> proxy_target \<Rightarrow> id \<Rightarrow> id \<Rightarrow> int \<Rightarrow> proxy_session" where
  "new_session rnd uuid now target vmID workerID port =
     \<lparr>ps_id = uuid, ps_target = target, ps_vm_id = vmID, ps_worker_id = workerID, ps_port = port,
      ps_token = hexEncode rnd, ps_state = SessionPending, ps_created_at = now,
      ps_client_conn = None, ps_worker_conn = None, ps_ready = False, ps_done = False\<rparr>"

text \<open>\<open>rnd\<close> are the 32 bytes \<^verbatim>\<open>rand.Read\<close> fills in, \<open>uuid\<close> the result of \<^verbatim>\<open>uuid.NewString\<close>.\<close>

definition register_session :: "id \<Rightarrow> proxy_session \<Rightarrow> session_manager \<Rightarrow> session_ptr \<times> session_manager" where
  "register_session k s sm = (length (sm_objects sm),
     sm\<lparr>sm_objects := sm_objects sm @ [s],
        sm_sessions := AList.update k (length (sm_objects sm)) (sm_sessions sm)\<rparr>)"

definition create_session ::
  "string \<Rightarrow> id \<Rightarrow> time \<Rightarrow> proxy_target \<Rightarrow> id \<Rightarrow> id \<Rightarrow> int \<Rightarrow> session_manager \<Rightarrow>
   session_ptr \<times> session_manager" where
  "create_session rnd uuid now target vmID workerID port sm =
     register_session uuid (new_session rnd uuid now target vmID workerID port) sm"

definition get_session :: "session_manager \<Rightarrow> id \<Rightarrow> session_ptr option" where
  "get_session sm sessionID = map_of (sm_sessions sm) sessionID"

definition getPending :: "id \<Rightarrow> session_manager \<Rightarrow> session_ptr list" where
  "getPending workerID sm =
     filter (\<lambda>a. ps_worker_id (session_at sm a) = workerID \<and> ps_state (session_at sm a) = SessionPending)
       (map snd (sm_sessions sm))"

definition store_conn :: "string \<Rightarrow> conn \<Rightarrow> proxy_session \<Rightarrow> proxy_session" where
  "store_conn role c s =
     (if role = ''client'' then s\<lparr>ps_client_conn := Some c\<rparr>
      else if role = ''worker'' then s\<lparr>ps_worker_conn := Some c\<rparr> else s)"

definition both_connected :: "proxy_session \<Rightarrow> bool" where
  "both_connected s = (ps_client_conn s \<noteq> None \<and> ps_worker_conn s \<noteq> None)"

text \<open>The part of \<^verbatim>\<open>SetConn\<close> under the lock of the session.\<close>

definition set_conn_at ::
  "string \<Rightarrow> conn \<Rightarrow> session_ptr \<Rightarrow> session_manager \<Rightarrow> bool \<times> session_manager" where
  "set_conn_at role c a sm =
     (let s = store_conn role c (session_at sm a)
      in if both_connected s
         then (True, set_session a (s\<lparr>ps_state := SessionActive, ps_ready := True\<rparr>) sm)
         else (False, set_session a s sm))"

definition setConn :: "id \<Rightarrow> string \<Rightarrow> conn \<Rightarrow> session_manager \<Rightarrow> bool \<times> session_manager" where
  "setConn sessionID role c sm =
     (case get_session sm sessionID of
        None \<Rightarrow> (False, sm)
      | Some a \<Rightarrow> set_conn_at role c a sm)"

text \<open>The two critical sections of \<^verbatim>\<open>Close\<close>.\<close>

definition unregister :: "id \<Rightarrow> session_manager \<Rightarrow> session_manager" where
  "unregister sessionID sm = sm\<lparr>sm_sessions := AList.delete sessionID (sm_sessions sm)\<rparr>"

definition conns_of :: "proxy_session \<Rightarrow> conn list" where
  "conns_of s = (case ps_client_conn s of None \<Rightarrow> [] | Some c \<Rightarrow> [c]) @
     (case ps_worker_conn s of None \<Rightarrow> [] | Some c \<Rightarrow> [c])"

definition end_session :: "session_ptr \<Rightarrow> session_manager \<Rightarrow> session_manager" where
  "end_session a sm = (let s = session_at sm a in
     (set_session a (s\<lparr>ps_state := SessionClosed, ps_done := True\<rparr>) sm)
       \<lparr>sm_closed_conns := sm_closed_conns sm @ conns_of s\<rparr>)"

definition close_session :: "id \<Rightarrow> session_manager \<Rightarrow> session_manager" where
  "close_session sessionID sm =
     (case get_session sm sessionID of
        None \<Rightarrow> sm
      | Some a \<Rightarrow> end_session a (unregister sessionID sm))"

definition ids_where :: "(proxy_session \<Rightarrow> bool) \<Rightarrow> session_manager \<Rightarrow> id list" where
  "ids_where P sm = map fst (filter (\<lambda>(_, a). P (session_at sm a)) (sm_sessions sm))"

definition closeByWorker :: "id \<Rightarrow> session_manager \<Rightarrow> nat \<times> session_manager" where
  "closeByWorker workerID sm =
     (let sessionIDs = ids_where (\<lambda>s. ps_worker_id s = workerID) sm
      in (length sessionIDs, fold close_session sessionIDs sm))"

definition closeByVM :: "id \<Rightarrow> session_manager \<Rightarrow> nat \<times> session_manager" where
  "closeByVM vmID sm =
     (let sessionIDs = ids_where (\<lambda>s. ps_vm_id s = vmID) sm
      in (length sessionIDs, fold close_session sessionIDs sm))"

definition reapInterval :: time where
  "reapInterval = 10 * second"

definition pendingSessionMaxAge :: time where
  "pendingSessionMaxAge = 60 * second"

definition reap :: "time \<Rightarrow> session_manager \<Rightarrow> session_manager" where
  "reap now sm = fold close_session
     (ids_where (\<lambda>s. ps_state s = SessionPending \<and> now - ps_created_at s > pendingSessionMaxAge) sm) sm"

text \<open>The reaper loop over the ticks it receives before its context ends.\<close>

definition startReaper :: "time list \<Rightarrow> session_manager \<Rightarrow> session_manager" where
  "startReaper ticks sm = fold reap ticks sm"

section \<open>The registry contract\<close>

text \<open>
  What the handlers rely on: a registry gives back the object registered under an identifier until
  the identifier is removed; objects keep their place, and removing one leaves the objects behind
  all other pointers alone.  Both session managers of the server provide it.
\<close>

locale session_registry =
  fixes lookup :: "'m \<Rightarrow> id \<Rightarrow> nat option" and object :: "'m \<Rightarrow> nat \<Rightarrow> 's option"
    and register :: "id \<Rightarrow> 's \<Rightarrow> 'm \<Rightarrow> nat \<times> 'm" and remove :: "id \<Rightarrow> 'm \<Rightarrow> 'm"
  assumes lookup_register: "register k s m = (a, m') \<Longrightarrow>
      lookup m' i = (if i = k then Some a else lookup m i)"
    and object_register: "register k s m = (a, m') \<Longrightarrow>
      object m a = None \<and> object m' b = (if b = a then Some s else object m b)"
    and lookup_remove: "lookup (remove k m) i = (if i = k then None else lookup m i)"
    and object_remove: "lookup m k \<noteq> Some b \<Longrightarrow> object (remove k m) b = object m b"
begin

lemma register_then_find:
  assumes "register k s m = (a, m')"
  shows "lookup m' k = Some a" and "object m' a = Some s"
  using assms by (simp_all add: lookup_register object_register)

lemma remove_idem: "lookup (remove k (remove k m)) i = lookup (remove k m) i"
  by (simp add: lookup_remove)

lemma lookup_removes: "lookup (fold remove ks m) i = (if i \<in> set ks then None else lookup m i)"
  by (induction ks arbitrary: m) (auto simp: lookup_remove)

lemma object_removes:
  "(\<And>k. k \<in> set ks \<Longrightarrow> lookup m k \<noteq> Some b) \<Longrightarrow> object (fold remove ks m) b = object m b"
proof (induction ks arbitrary: m)
  case Nil
  then show ?case by simp
next
  case (Cons k ks)
  have "object (fold remove ks (remove k m)) b = object (remove k m) b"
    using Cons.prems by (intro Cons.IH) (simp add: lookup_remove)
  also have "\<dots> = object m b" using Cons.prems by (intro object_remove) simp
  finally show ?case by simp
qed

end

definition session_object :: "session_manager \<Rightarrow> session_ptr \<Rightarrow> proxy_session option" where
  "session_object sm a = (if a < length (sm_objects sm) then Some (session_at sm a) else None)"

lemma set_session_simps [simp]:
  "sm_sessions (set_session a s sm) = sm_sessions sm"
  "sm_closed_conns (set_session a s sm) = sm_closed_conns sm"
  "length (sm_objects (set_session a s sm)) = length (sm_objects sm)"
  by (simp_all add: set_session_def)

lemma session_at_set [simp]:
  "session_at (set_session a s sm) b =
     (if b = a \<and> a < length (sm_objects sm) then s else session_at sm b)"
proof (cases "a < length (sm_objects sm)")
  case True
  then show ?thesis by (simp add: set_session_def session_at_def nth_list_update)
next
  case False
  then show ?thesis by (simp add: set_session_def session_at_def list_update_beyond)
qed

lemma end_session_simps [simp]:
  "sm_sessions (end_session a sm) = sm_sessions sm"
  "sm_closed_conns (end_session a sm) = sm_closed_conns sm @ conns_of (session_at sm a)"
  "length (sm_objects (end_session a sm)) = length (sm_objects sm)"
  by (simp_all add: end_session_def Let_def)

lemma session_at_end [simp]:
  "session_at (end_session a sm) b =
     (if b = a \<and> a < length (sm_objects sm)
      then (session_at sm a)\<lparr>ps_state := SessionClosed, ps_done := True\<rparr> else session_at sm b)"
proof -
  have "session_at (end_session a sm) b =
      session_at (set_session a ((session_at sm a)\<lparr>ps_state := SessionClosed, ps_done := True\<rparr>) sm) b"
    by (simp add: end_session_def Let_def session_at_def)
  then show ?thesis by simp
qed

lemma unregister_simps [simp]:
  "sm_objects (unregister k sm) = sm_objects sm" "session_at (unregister k sm) a = session_at sm a"
  "sm_sessions (unregister k sm) = AList.delete k (sm_sessions sm)"
  "sm_closed_conns (unregister k sm) = sm_closed_conns sm"
  by (simp_all add: unregister_def session_at_def)

lemma get_close: "get_session (close_session k sm) i = (if i = k then None else get_session sm i)"
  by (auto simp: close_session_def get_session_def delete_conv' split: option.splits)

interpretation psr: session_registry get_session session_object register_session close_session
proof
  show "get_session m' i = (if i = k then Some a else get_session m i)"
    if "register_session k s m = (a, m')" for k s m a m' i
    using that by (auto simp: register_session_def get_session_def update_conv')
  show "session_object m a = None \<and> session_object m' b = (if b = a then Some s else session_object m b)"
    if "register_session k s m = (a, m')" for k s m a m' b
    using that by (auto simp: register_session_def session_object_def session_at_def nth_append)
  show "get_session (close_session k m) i = (if i = k then None else get_session m i)" for k m i
    by (rule get_close)
  show "session_object (close_session k m) b = session_object m b" if "get_session m k \<noteq> Some b" for k m b
    using that by (auto simp: close_session_def session_object_def split: option.splits)
qed

section \<open>Invariants of the manager\<close>

definition registered :: "session_manager \<Rightarrow> session_ptr \<Rightarrow> bool" where
  "registered sm a = (a \<in> snd ` set (sm_sessions sm))"

definition registry_ok :: "session_manager \<Rightarrow> bool" where
  "registry_ok sm = (distinct (map fst (sm_sessions sm)) \<and> distinct (map ps_id (sm_objects sm)) \<and>
     list_all (\<lambda>(k, a). a < length (sm_objects sm) \<and> ps_id (session_at sm a) = k) (sm_sessions sm))"

lemma get_iff:
  "registry_ok sm \<Longrightarrow> get_session sm k = Some a \<longleftrightarrow> (k, a) \<in> set (sm_sessions sm)"
  by (simp add: get_session_def registry_ok_def)

lemma get_SomeD:
  "registry_ok sm \<Longrightarrow> get_session sm k = Some a \<Longrightarrow> a < length (sm_objects sm) \<and> ps_id (session_at sm a) = k"
  by (auto simp: registry_ok_def get_session_def list_all_iff dest: map_of_SomeD)

lemma registered_iff: "registry_ok sm \<Longrightarrow> registered sm a \<longleftrightarrow> (\<exists>k. get_session sm k = Some a)"
  by (force simp: registered_def get_iff)

lemma registered_get:
  "registry_ok sm \<Longrightarrow> registered sm a \<Longrightarrow> get_session sm (ps_id (session_at sm a)) = Some a"
  by (auto simp: registered_iff dest: get_SomeD)

lemma get_inj:
  "registry_ok sm \<Longrightarrow> get_session sm k = Some a \<Longrightarrow> get_session sm j = Some a \<Longrightarrow> j = k"
  by (auto dest: get_SomeD)

lemma session_at_mem: "a < length (sm_objects sm) \<Longrightarrow> session_at sm a \<in> set (sm_objects sm)"
  by (simp add: session_at_def)

lemma map_ps_id_set:
  "ps_id s = ps_id (session_at sm a) \<Longrightarrow>
   map ps_id (sm_objects (set_session a s sm)) = map ps_id (sm_objects sm)"
  by (cases "a < length (sm_objects sm)")
    (simp_all add: set_session_def session_at_def map_update list_update_beyond list_update_same_conv)

lemma registry_ok_set:
  assumes "registry_ok sm" and "ps_id s = ps_id (session_at sm a)"
  shows "registry_ok (set_session a s sm)"
  using assms map_ps_id_set [OF assms(2)] by (auto simp: registry_ok_def list_all_iff)

lemma registry_ok_end: "registry_ok sm \<Longrightarrow> registry_ok (end_session a sm)"
  using registry_ok_set [of sm "(session_at sm a)\<lparr>ps_state := SessionClosed, ps_done := True\<rparr>" a]
  by (simp add: end_session_def Let_def registry_ok_def session_at_def)

lemma set_delete_iff:
  "distinct (map fst al) \<Longrightarrow> (k, a) \<in> set (AList.delete i al) \<longleftrightarrow> (k, a) \<in> set al \<and> k \<noteq> i"
  by (auto simp: AList.delete_eq)

lemma registry_ok_unregister: "registry_ok sm \<Longrightarrow> registry_ok (unregister k sm)"
  by (auto simp: registry_ok_def list_all_iff set_delete_iff distinct_delete)

lemma registry_ok_close: "registry_ok sm \<Longrightarrow> registry_ok (close_session k sm)"
  by (auto simp: close_session_def registry_ok_end registry_ok_unregister split: option.splits)

lemma session_at_close:
  assumes "registry_ok sm" and "get_session sm k = Some a"
  shows "session_at (close_session k sm) b =
    (if b = a then (session_at sm a)\<lparr>ps_state := SessionClosed, ps_done := True\<rparr> else session_at sm b)"
    and "sm_closed_conns (close_session k sm) = sm_closed_conns sm @ conns_of (session_at sm a)"
  using assms get_SomeD [OF assms] by (simp_all add: close_session_def)

lemma fold_close_at:
  assumes "registry_ok sm" and "distinct ks" and "\<And>k. k \<in> set ks \<Longrightarrow> get_session sm k \<noteq> None"
  shows "session_at (fold close_session ks sm) a =
    (if \<exists>k \<in> set ks. get_session sm k = Some a
     then (session_at sm a)\<lparr>ps_state := SessionClosed, ps_done := True\<rparr> else session_at sm a)"
  using assms
proof (induction ks arbitrary: sm)
  case Nil
  then show ?case by simp
next
  case (Cons k ks)
  obtain b where b: "get_session sm k = Some b" using Cons.prems(3) [of k] by auto
  let ?sm = "close_session k sm"
  have "get_session ?sm j \<noteq> None" if "j \<in> set ks" for j
    using that Cons.prems(2,3) by (auto simp: get_close)
  then have IH: "session_at (fold close_session ks ?sm) a =
    (if \<exists>j \<in> set ks. get_session ?sm j = Some a
     then (session_at ?sm a)\<lparr>ps_state := SessionClosed, ps_done := True\<rparr> else session_at ?sm a)"
    using Cons.prems(1,2) by (intro Cons.IH registry_ok_close) auto
  have same: "(\<exists>j \<in> set ks. get_session ?sm j = Some a) \<longleftrightarrow> (\<exists>j \<in> set ks. get_session sm j = Some a)"
    using Cons.prems(2) by (auto simp: get_close)
  show ?case
  proof (cases "a = b")
    case True
    then show ?thesis using IH b session_at_close [OF Cons.prems(1) b] by simp
  next
    case False
    then show ?thesis using IH same b session_at_close [OF Cons.prems(1) b] by simp
  qed
qed

lemma fold_close_conns:
  assumes "registry_ok sm" and "distinct ks"
    and "k \<in> set ks" and "get_session sm k = Some a"
  shows "set (conns_of (session_at sm a)) \<subseteq> set (sm_closed_conns (fold close_session ks sm))"
proof -
  have "set (sm_closed_conns m) \<subseteq> set (sm_closed_conns (close_session j m))" for j m
    by (auto simp: close_session_def split: option.splits)
  then have mono: "set (sm_closed_conns m) \<subseteq> set (sm_closed_conns (fold close_session js m))" for js m
    by (induction js arbitrary: m) (simp, metis fold_simps(2) order_trans)
  from assms show ?thesis
  proof (induction ks arbitrary: sm)
    case (Cons j ks)
    show ?case
    proof (cases "j = k")
      case True
      with Cons.prems session_at_close [OF Cons.prems(1), of k a] mono [of "close_session k sm" ks]
      show ?thesis by auto
    next
      case False
      have eq: "session_at (close_session j sm) a = session_at sm a"
      proof (cases "get_session sm j")
        case (Some b)
        with False Cons.prems have "b \<noteq> a" by (auto dest: get_inj)
        then show ?thesis using session_at_close [OF Cons.prems(1) Some] by simp
      qed (simp add: close_session_def)
      have "set (conns_of (session_at (close_session j sm) a)) \<subseteq>
          set (sm_closed_conns (fold close_session ks (close_session j sm)))"
        using Cons.prems False by (intro Cons.IH registry_ok_close) (auto simp: get_close)
      then show ?thesis by (simp add: eq)
    qed
  qed simp
qed

section \<open>Closing by worker, by machine and by age\<close>

definition close_where :: "(proxy_session \<Rightarrow> bool) \<Rightarrow> session_manager \<Rightarrow> session_manager" where
  "close_where P sm = fold close_session (ids_where P sm) sm"

lemma ids_where_set:
  "registry_ok sm \<Longrightarrow> k \<in> set (ids_where P sm) \<longleftrightarrow> (\<exists>a. get_session sm k = Some a \<and> P (session_at sm a))"
  by (force simp: ids_where_def get_iff)

lemma ids_where_distinct: "registry_ok sm \<Longrightarrow> distinct (ids_where P sm)"
  by (simp add: ids_where_def registry_ok_def distinct_map_filter)

text \<open>What closing all sessions with a property does, in one specification.\<close>

definition closes_exactly ::
  "(proxy_session \<Rightarrow> bool) \<Rightarrow> session_manager \<Rightarrow> session_manager \<Rightarrow> bool" where
  "closes_exactly P sm sm' =
     ((\<forall>k. get_session sm' k = (case get_session sm k of None \<Rightarrow> None
         | Some a \<Rightarrow> if P (session_at sm a) then None else Some a)) \<and>
      (\<forall>a. registered sm a \<and> P (session_at sm a) \<longrightarrow>
         session_at sm' a = (session_at sm a)\<lparr>ps_state := SessionClosed, ps_done := True\<rparr> \<and>
         set (conns_of (session_at sm a)) \<subseteq> set (sm_closed_conns sm')) \<and>
      (\<forall>a. \<not> (registered sm a \<and> P (session_at sm a)) \<longrightarrow> session_at sm' a = session_at sm a))"

lemma close_where_exact:
  assumes "registry_ok sm"
  shows "closes_exactly P sm (close_where P sm)"
proof -
  let ?ks = "ids_where P sm"
  note ids = ids_where_set [OF assms, of _ P]
  have at: "session_at (close_where P sm) a =
    (if \<exists>k \<in> set ?ks. get_session sm k = Some a
     then (session_at sm a)\<lparr>ps_state := SessionClosed, ps_done := True\<rparr> else session_at sm a)" for a
    unfolding close_where_def
    by (rule fold_close_at [OF assms ids_where_distinct [OF assms]]) (auto simp: ids)
  have hit: "(\<exists>k \<in> set ?ks. get_session sm k = Some a) \<longleftrightarrow> registered sm a \<and> P (session_at sm a)" for a
    using ids by (auto simp: registered_iff [OF assms])
  have "get_session (close_where P sm) k = (case get_session sm k of None \<Rightarrow> None
         | Some a \<Rightarrow> if P (session_at sm a) then None else Some a)" for k
    unfolding close_where_def psr.lookup_removes using ids by (auto split: option.splits)
  moreover have "set (conns_of (session_at sm a)) \<subseteq> set (sm_closed_conns (close_where P sm))"
    if "registered sm a" "P (session_at sm a)" for a
    using that hit [of a] fold_close_conns [OF assms ids_where_distinct [OF assms], of _ P a]
    unfolding close_where_def by blast
  ultimately show ?thesis unfolding closes_exactly_def at hit by simp
qed

text \<open>
  When a worker registers again, exactly its sessions end: each one disappears from the
  manager, is marked closed, releases whoever waits for it and has both its connections closed;
  the count returned is their number; the sessions of every other worker are untouched and still
  found under their identifiers.
\<close>

theorem closeByWorker_exact:
  assumes "registry_ok sm" and "closeByWorker w sm = (n, sm')"
  shows "closes_exactly (\<lambda>s. ps_worker_id s = w) sm sm' \<and>
    n = card {a. registered sm a \<and> ps_worker_id (session_at sm a) = w}"
proof -
  let ?P = "\<lambda>s. ps_worker_id s = w"
  have sm': "sm' = close_where ?P sm" and n: "n = length (ids_where ?P sm)"
    using assms(2) by (simp_all add: closeByWorker_def close_where_def Let_def)
  have "bij_betw (\<lambda>a. ps_id (session_at sm a)) {a. registered sm a \<and> ?P (session_at sm a)} (set (ids_where ?P sm))"
    unfolding bij_betw_def
  proof
    show "inj_on (\<lambda>a. ps_id (session_at sm a)) {a. registered sm a \<and> ?P (session_at sm a)}"
      using registered_get [OF assms(1)] by (auto simp: inj_on_def) (metis option.inject)
    show "(\<lambda>a. ps_id (session_at sm a)) ` {a. registered sm a \<and> ?P (session_at sm a)} = set (ids_where ?P sm)"
      using registered_get [OF assms(1)] get_SomeD [OF assms(1)]
      by (auto simp: ids_where_set [OF assms(1)] registered_iff [OF assms(1)] image_iff) blast+
  qed
  then have "card {a. registered sm a \<and> ?P (session_at sm a)} = card (set (ids_where ?P sm))"
    by (rule bij_betw_same_card)
  then show ?thesis
    using close_where_exact [OF assms(1)] distinct_card [OF ids_where_distinct [OF assms(1)]] sm' n by simp
qed

text \<open>A manager with one waiting session of one worker.\<close>

definition sample_sm :: session_manager where
  "sample_sm = snd (create_session ''r'' ''p1'' 0 ProxyTargetVM ''k1'' ''w1'' 22 newSessionManager)"

lemma sample_sm_ok: "registry_ok sample_sm"
  by (simp add: sample_sm_def create_session_def register_session_def newSessionManager_def
      registry_ok_def session_at_def new_session_def)

lemma sample_sm_at:
  "session_at sample_sm 0 = new_session ''r'' ''p1'' 0 ProxyTargetVM ''k1'' ''w1'' 22"
  "get_session sample_sm k = (if k = ''p1'' then Some 0 else None)"
  "registered sample_sm a = (a = 0)"
  by (auto simp: sample_sm_def create_session_def register_session_def newSessionManager_def
      session_at_def get_session_def registered_def)



end
