(* ===== verification/ProxySystem.thy ===== *)
theory ProxySystem
  imports ProxySession
begin

text \<open>
  The session manager under concurrent handlers.  \<^verbatim>\<open>SetConn\<close> and \<^verbatim>\<open>Close\<close> take the lock of the
  manager, release it, and then take the lock of the session: between the two sections every other
  handler may run.  A task is a handler between its two sections; the steps are the sections, in
  any interleaving.
\<close>

section \<open>Steps\<close>

datatype proxy_task = TaskSetConn session_ptr string conn | TaskEnd session_ptr

record proxy_world =
  pw_sm :: session_manager
  pw_tasks :: "proxy_task list"

definition pw_init :: "proxy_world \<Rightarrow> bool" where
  "pw_init w = (w = \<lparr>pw_sm = newSessionManager, pw_tasks = []\<rparr>)"

text \<open>Identifiers come from \<^verbatim>\<open>uuid.NewString\<close>, which does not return one twice.\<close>

inductive pw_step :: "proxy_world \<Rightarrow> proxy_world \<Rightarrow> bool" where
  pw_create: "uuid \<notin> ps_id ` set (sm_objects (pw_sm w)) \<Longrightarrow>
    create_session rnd uuid now target vmID workerID port (pw_sm w) = (a, sm') \<Longrightarrow>
    pw_step w (w\<lparr>pw_sm := sm'\<rparr>)"
| pw_lookup: "get_session (pw_sm w) k = Some a \<Longrightarrow>
    pw_step w (w\<lparr>pw_tasks := TaskSetConn a role c # pw_tasks w\<rparr>)"
| pw_store: "TaskSetConn a role c \<in> set (pw_tasks w) \<Longrightarrow>
    pw_step w \<lparr>pw_sm = snd (set_conn_at role c a (pw_sm w)),
               pw_tasks = remove1 (TaskSetConn a role c) (pw_tasks w)\<rparr>"
| pw_unregister: "get_session (pw_sm w) k = Some a \<Longrightarrow>
    pw_step w \<lparr>pw_sm = unregister k (pw_sm w), pw_tasks = TaskEnd a # pw_tasks w\<rparr>"
| pw_end: "TaskEnd a \<in> set (pw_tasks w) \<Longrightarrow>
    pw_step w \<lparr>pw_sm = end_session a (pw_sm w), pw_tasks = remove1 (TaskEnd a) (pw_tasks w)\<rparr>"

section \<open>Invariant\<close>

definition session_wf :: "proxy_session \<Rightarrow> bool" where
  "session_wf s = ((both_connected s \<longrightarrow> ps_state s \<noteq> SessionPending \<and> ps_ready s) \<and>
     (ps_state s = SessionActive \<longrightarrow> both_connected s) \<and> (ps_ready s \<longrightarrow> both_connected s) \<and>
     (ps_state s = SessionClosed \<longrightarrow> ps_done s))"

text \<open>Exactly one of: registered, taken out and about to end, ended.\<close>

definition ends_once :: "proxy_world \<Rightarrow> session_ptr \<Rightarrow> bool" where
  "ends_once w a =
     (count_list (pw_tasks w) (TaskEnd a) =
        (if registered (pw_sm w) a \<or> ps_done (session_at (pw_sm w) a) then 0 else 1) \<and>
      \<not> (registered (pw_sm w) a \<and> ps_done (session_at (pw_sm w) a)))"

definition task_ptr :: "proxy_task \<Rightarrow> session_ptr" where
  "task_ptr t = (case t of TaskSetConn a _ _ \<Rightarrow> a | TaskEnd a \<Rightarrow> a)"

definition pw_ok :: "proxy_world \<Rightarrow> bool" where
  "pw_ok w = (registry_ok (pw_sm w) \<and> list_all session_wf (sm_objects (pw_sm w)) \<and>
     (\<forall>a < length (sm_objects (pw_sm w)). ends_once w a) \<and>
     (\<forall>t \<in> set (pw_tasks w). task_ptr t < length (sm_objects (pw_sm w))))"

lemma list_all_set_session:
  "list_all P (sm_objects sm) \<Longrightarrow> P s \<Longrightarrow> list_all P (sm_objects (set_session a s sm))"
  by (auto simp: set_session_def list_all_iff dest!: set_update_subset_insert [THEN subsetD])

lemma wf_at: "pw_ok w \<Longrightarrow> a < length (sm_objects (pw_sm w)) \<Longrightarrow> session_wf (session_at (pw_sm w) a)"
  by (simp add: pw_ok_def list_all_length session_at_def)

lemma registered_set [simp]: "registered (set_session a s sm) = registered sm"
  and registered_end [simp]: "registered (end_session a sm) = registered sm"
  by (simp_all add: registered_def fun_eq_iff)

lemma set_conn_at_eq:
  "snd (set_conn_at role c a sm) = set_session a
     (let s = store_conn role c (session_at sm a) in
      if both_connected s then s\<lparr>ps_state := SessionActive, ps_ready := True\<rparr> else s) sm"
  by (simp add: set_conn_at_def Let_def)

lemma store_conn_simps [simp]:
  "ps_id (store_conn role c s) = ps_id s" "ps_done (store_conn role c s) = ps_done s"
  "ps_state (store_conn role c s) = ps_state s" "ps_ready (store_conn role c s) = ps_ready s"
  "ps_worker_id (store_conn role c s) = ps_worker_id s"
  by (simp_all add: store_conn_def)

lemma both_connected_simps [simp]:
  "both_connected (s\<lparr>ps_state := st\<rparr>) = both_connected s"
  "both_connected (s\<lparr>ps_ready := r\<rparr>) = both_connected s"
  "both_connected (s\<lparr>ps_done := d\<rparr>) = both_connected s"
  "both_connected s \<Longrightarrow> both_connected (store_conn role c s)"
  by (simp_all add: both_connected_def store_conn_def)

lemma store_conn_wf:
  "session_wf s \<Longrightarrow> session_wf (let s = store_conn role c s in
      if both_connected s then s\<lparr>ps_state := SessionActive, ps_ready := True\<rparr> else s)"
  by (cases "both_connected (store_conn role c s)"; cases "both_connected s")
    (simp_all add: session_wf_def Let_def)

lemma end_wf: "session_wf s \<Longrightarrow> session_wf (s\<lparr>ps_state := SessionClosed, ps_done := True\<rparr>)"
  by (simp add: session_wf_def)

lemma registered_unregister:
  assumes "registry_ok sm" and "get_session sm k = Some a"
  shows "registered (unregister k sm) b \<longleftrightarrow> registered sm b \<and> b \<noteq> a"
proof -
  have "get_session (unregister k sm) i = (if i = k then None else get_session sm i)" for i
    by (simp add: get_session_def delete_conv')
  then show ?thesis
    using assms get_inj [OF assms(1)]
    by (simp add: registered_iff registry_ok_unregister) (metis option.inject)
qed

lemma count_remove1: "count_list (remove1 x xs) y = count_list xs y - (if x = y then 1 else 0)"
  by (induction xs) auto

lemma update_fresh: "k \<notin> fst ` set al \<Longrightarrow> AList.update k v al = al @ [(k, v)]"
  by (induction al) auto

lemma create_ok:
  assumes "pw_ok w" and "uuid \<notin> ps_id ` set (sm_objects (pw_sm w))"
    and "create_session rnd uuid now target vmID workerID port (pw_sm w) = (a, sm')"
  shows "pw_ok (w\<lparr>pw_sm := sm'\<rparr>)"
proof -
  let ?sm = "pw_sm w" and ?s = "new_session rnd uuid now target vmID workerID port"
  have fresh: "uuid \<notin> fst ` set (sm_sessions ?sm)"
  proof
    assume "uuid \<in> fst ` set (sm_sessions ?sm)"
    then obtain b where "(uuid, b) \<in> set (sm_sessions ?sm)" by auto
    then have "b < length (sm_objects ?sm)" "ps_id (session_at ?sm b) = uuid"
      using assms(1) by (auto simp: pw_ok_def registry_ok_def list_all_iff)
    with assms(2) session_at_mem show False by blast
  qed
  have sm': "sm_objects sm' = sm_objects ?sm @ [?s]"
    "sm_sessions sm' = sm_sessions ?sm @ [(uuid, length (sm_objects ?sm))]"
    using assms(3) fresh by (auto simp: create_session_def register_session_def update_fresh)
  have at: "session_at sm' b = (if b = length (sm_objects ?sm) then ?s else session_at ?sm b)"
    if "b \<le> length (sm_objects ?sm)" for b
    using that by (auto simp: session_at_def sm' nth_append)
  have "b < Suc (length (sm_objects ?sm)) \<and> ps_id (session_at sm' b) = k"
    if "(k, b) \<in> set (sm_sessions sm')" for k b
  proof (cases "(k, b) \<in> set (sm_sessions ?sm)")
    case True
    then have "b < length (sm_objects ?sm)" "ps_id (session_at ?sm b) = k"
      using assms(1) by (auto simp: pw_ok_def registry_ok_def list_all_iff)
    then show ?thesis by (simp add: at)
  qed (use that in \<open>auto simp: sm' at new_session_def\<close>)
  then have entries: "list_all (\<lambda>(k, b). b < length (sm_objects sm') \<and> ps_id (session_at sm' b) = k)
      (sm_sessions sm')"
    by (auto simp: list_all_iff sm'(1))
  have reg: "registered sm' b \<longleftrightarrow> registered ?sm b \<or> b = length (sm_objects ?sm)" for b
    by (auto simp: registered_def sm')
  have "distinct (map fst (sm_sessions sm'))" "distinct (map ps_id (sm_objects sm'))"
    using assms(1,2) fresh by (simp_all add: pw_ok_def registry_ok_def sm' new_session_def)
  with entries have "registry_ok sm'" by (simp add: registry_ok_def)
  moreover have "list_all session_wf (sm_objects sm')"
    using assms(1) by (simp add: sm' pw_ok_def session_wf_def new_session_def both_connected_def)
  moreover have "ends_once (w\<lparr>pw_sm := sm'\<rparr>) b" if "b < length (sm_objects sm')" for b
  proof (cases "b = length (sm_objects ?sm)")
    case True
    have "TaskEnd b \<notin> set (pw_tasks w)" using True assms(1) by (force simp: pw_ok_def task_ptr_def)
    then show ?thesis using True by (simp add: ends_once_def reg at new_session_def)
  next
    case False
    then have "ends_once w b" "b < length (sm_objects ?sm)" using that assms(1) by (simp_all add: pw_ok_def sm')
    then show ?thesis using False by (simp add: ends_once_def reg at)
  qed
  ultimately show ?thesis using assms(1) by (auto simp: pw_ok_def sm')
qed

lemma lookup_ok:
  assumes "pw_ok w" and "get_session (pw_sm w) k = Some a"
  shows "pw_ok (w\<lparr>pw_tasks := TaskSetConn a role c # pw_tasks w\<rparr>)"
  using assms get_SomeD [OF _ assms(2)] by (auto simp: pw_ok_def ends_once_def task_ptr_def)

lemma store_ok:
  assumes "pw_ok w" and "TaskSetConn a role c \<in> set (pw_tasks w)"
  shows "pw_ok \<lparr>pw_sm = snd (set_conn_at role c a (pw_sm w)),
    pw_tasks = remove1 (TaskSetConn a role c) (pw_tasks w)\<rparr>"
proof -
  have a: "a < length (sm_objects (pw_sm w))" using assms by (force simp: pw_ok_def task_ptr_def)
  let ?s = "let s = store_conn role c (session_at (pw_sm w) a) in
      if both_connected s then s\<lparr>ps_state := SessionActive, ps_ready := True\<rparr> else s"
  have s: "ps_id ?s = ps_id (session_at (pw_sm w) a)" "ps_done ?s = ps_done (session_at (pw_sm w) a)"
    by (simp_all add: Let_def)
  let ?w = "\<lparr>pw_sm = set_session a ?s (pw_sm w), pw_tasks = remove1 (TaskSetConn a role c) (pw_tasks w)\<rparr>"
  have "list_all session_wf (sm_objects (set_session a ?s (pw_sm w)))"
    using assms(1) store_conn_wf [OF wf_at [OF assms(1) a]]
    by (intro list_all_set_session) (simp_all add: pw_ok_def)
  moreover have "registry_ok (set_session a ?s (pw_sm w))"
    using assms(1) s(1) by (intro registry_ok_set) (simp_all add: pw_ok_def)
  moreover have "ends_once ?w b" if "b < length (sm_objects (pw_sm w))" for b
  proof -
    have "ends_once w b" using that assms(1) by (simp add: pw_ok_def)
    moreover have "ps_done (session_at (set_session a ?s (pw_sm w)) b) = ps_done (session_at (pw_sm w) b)"
      using s(2) by (simp only: session_at_set) simp
    ultimately show ?thesis by (simp add: ends_once_def count_remove1 del: session_at_set)
  qed
  ultimately show ?thesis
    using assms(1) unfolding set_conn_at_eq pw_ok_def by (auto dest: notin_set_remove1)
qed

lemma unregister_ok:
  assumes "pw_ok w" and "get_session (pw_sm w) k = Some a"
  shows "pw_ok \<lparr>pw_sm = unregister k (pw_sm w), pw_tasks = TaskEnd a # pw_tasks w\<rparr>"
proof -
  have ok: "registry_ok (pw_sm w)" using assms(1) by (simp add: pw_ok_def)
  note a = get_SomeD [OF ok assms(2)]
  have reg: "registered (pw_sm w) a" using assms(2) ok by (auto simp: registered_iff)
  have "ends_once \<lparr>pw_sm = unregister k (pw_sm w), pw_tasks = TaskEnd a # pw_tasks w\<rparr> b"
    if "b < length (sm_objects (pw_sm w))" for b
    using that assms(1) reg a
    by (auto simp: pw_ok_def ends_once_def registered_unregister [OF ok assms(2)])
  then show ?thesis
    using assms(1) a by (auto simp: pw_ok_def registry_ok_unregister task_ptr_def)
qed

lemma end_ok:
  assumes "pw_ok w" and "TaskEnd a \<in> set (pw_tasks w)"
  shows "pw_ok \<lparr>pw_sm = end_session a (pw_sm w), pw_tasks = remove1 (TaskEnd a) (pw_tasks w)\<rparr>"
proof -
  let ?sm = "pw_sm w"
  have a: "a < length (sm_objects ?sm)" using assms by (force simp: pw_ok_def task_ptr_def)
  have once: "ends_once w b" if "b < length (sm_objects ?sm)" for b
    using that assms(1) by (simp add: pw_ok_def)
  have "count_list (pw_tasks w) (TaskEnd a) \<noteq> 0" using assms(2) by (simp add: count_list_0_iff)
  then have one: "count_list (pw_tasks w) (TaskEnd a) = 1" "\<not> registered ?sm a"
    using once [OF a] by (auto simp: ends_once_def split: if_splits)
  have "ends_once \<lparr>pw_sm = end_session a ?sm, pw_tasks = remove1 (TaskEnd a) (pw_tasks w)\<rparr> b"
    if "b < length (sm_objects ?sm)" for b
    using once [OF that] one a by (auto simp: ends_once_def count_remove1)
  moreover have "list_all session_wf (sm_objects (end_session a ?sm))"
    using assms(1) end_wf [OF wf_at [OF assms(1) a]] list_all_set_session [of session_wf]
    by (simp add: pw_ok_def end_session_def Let_def)
  ultimately show ?thesis
    using assms(1) registry_ok_end by (auto simp: pw_ok_def dest: notin_set_remove1)
qed

interpretation pws: invariant_system pw_init pw_step pw_ok
proof
  show "pw_ok s" if "pw_init s" for s
    using that by (simp add: pw_init_def pw_ok_def registry_ok_def newSessionManager_def)
  show "pw_ok s'" if "pw_step s s'" and "pw_ok s" for s s'
    using that
    by (induction rule: pw_step.induct) (blast intro: create_ok lookup_ok store_ok unregister_ok end_ok)+
qed

section \<open>Properties of every interleaving\<close>



text \<open>
  A handler that has looked a session up, is overtaken by the closing of that session, and then
  stores its connection.
\<close>

definition race_created :: session_manager where
  "race_created = snd (create_session ''r'' ''p1'' 0 ProxyTargetVM ''k1'' ''w1'' 22 newSessionManager)"

definition race_client :: session_manager where
  "race_client = snd (set_conn_at ''client'' 1 0 race_created)"

definition race_closed :: session_manager where
  "race_closed = end_session 0 (unregister ''p1'' race_client)"

definition race_final :: session_manager where
  "race_final = snd (set_conn_at ''worker'' 2 0 race_closed)"

lemmas race_defs = race_created_def race_client_def race_closed_def race_final_def
  create_session_def register_session_def newSessionManager_def set_conn_at_eq

lemma race_get:
  "get_session race_created ''p1'' = Some 0" "get_session race_client ''p1'' = Some 0"
  by (simp_all add: race_defs get_session_def)

lemma race_trace: "reach pw_init pw_step \<lparr>pw_sm = race_final, pw_tasks = []\<rparr>"
proof -
  let ?c = "TaskSetConn 0 ''client'' 1" and ?k = "TaskSetConn 0 ''worker'' 2"
  have "reach pw_init pw_step \<lparr>pw_sm = newSessionManager, pw_tasks = []\<rparr>"
    by (rule reach_init) (simp add: pw_init_def)
  then have "reach pw_init pw_step \<lparr>pw_sm = race_created, pw_tasks = []\<rparr>"
    by (rule reach_step)
      (use pw_create [of "''p1''" "\<lparr>pw_sm = newSessionManager, pw_tasks = []\<rparr>" "''r''" 0 ProxyTargetVM
          "''k1''" "''w1''" 22 0 race_created] in \<open>simp add: race_defs\<close>)
  then have "reach pw_init pw_step \<lparr>pw_sm = race_created, pw_tasks = [?c]\<rparr>"
    by (rule reach_step)
      (use pw_lookup [of "\<lparr>pw_sm = race_created, pw_tasks = []\<rparr>" "''p1''" 0 "''client''" 1] race_get in simp)
  then have "reach pw_init pw_step \<lparr>pw_sm = race_client, pw_tasks = []\<rparr>"
    by (rule reach_step)
      (use pw_store [of 0 "''client''" 1 "\<lparr>pw_sm = race_created, pw_tasks = [?c]\<rparr>"] in
        \<open>simp add: race_client_def\<close>)
  then have "reach pw_init pw_step \<lparr>pw_sm = race_client, pw_tasks = [?k]\<rparr>"
    by (rule reach_step)
      (use pw_lookup [of "\<lparr>pw_sm = race_client, pw_tasks = []\<rparr>" "''p1''" 0 "''worker''" 2] race_get in simp)
  then have "reach pw_init pw_step \<lparr>pw_sm = unregister ''p1'' race_client, pw_tasks = [TaskEnd 0, ?k]\<rparr>"
    by (rule reach_step)
      (use pw_unregister [of "\<lparr>pw_sm = race_client, pw_tasks = [?k]\<rparr>" "''p1''" 0] race_get in simp)
  then have "reach pw_init pw_step \<lparr>pw_sm = race_closed, pw_tasks = [?k]\<rparr>"
    by (rule reach_step)
      (use pw_end [of 0 "\<lparr>pw_sm = unregister ''p1'' race_client, pw_tasks = [TaskEnd 0, ?k]\<rparr>"] in
        \<open>simp add: race_closed_def\<close>)
  then show ?thesis
    by (rule reach_step)
      (use pw_store [of 0 "''worker''" 2 "\<lparr>pw_sm = race_closed, pw_tasks = [?k]\<rparr>"] in
        \<open>simp add: race_final_def\<close>)
qed


end
