(* ===== verification/Json.thy ===== *)
theory Json
  imports GoLib
begin

text \<open>
  \<^verbatim>\<open>encoding/json\<close> as the server uses it: values, the text the encoder writes, the parser, and
  decoding into a struct by field name (exact, else ignoring ASCII case), with or without
  \<^verbatim>\<open>DisallowUnknownFields\<close>.  Text is UTF-8; bytes above 127 are copied.  The parser is written with
  fuel and reports running out of it as a result of its own, which is shown never to happen with
  the fuel \<open>parse_json\<close> gives it.
\<close>

datatype json =
    JNull
  | JBool bool
  | JNum string
  | JStr string
  | JArr "json list"
  | JObj "(string \<times> json) list"

section \<open>Encoding\<close>

abbreviation quote_char :: char where "quote_char \<equiv> CHR 0x22"
abbreviation backslash :: char where "backslash \<equiv> CHR 0x5C"

definition u_escape :: "nat \<Rightarrow> string" where
  "u_escape n = [backslash, CHR ''u'', CHR ''0'', CHR ''0'', hex_char (n div 16), hex_char (n mod 16)]"

definition escape_char :: "char \<Rightarrow> string" where
  "escape_char c =
     (let n = (of_char c :: nat)
      in if c = quote_char \<or> c = backslash then [backslash, c]
         else if n = 8 then [backslash, CHR ''b'']
         else if n = 9 then [backslash, CHR ''t'']
         else if n = 10 then [backslash, CHR ''n'']
         else if n = 12 then [backslash, CHR ''f'']
         else if n = 13 then [backslash, CHR ''r'']
         else if n < 32 \<or> c = CHR ''<'' \<or> c = CHR ''>'' \<or> c = CHR ''&'' then u_escape n
         else [c])"

definition print_string :: "string \<Rightarrow> string" where
  "print_string s = quote_char # concat (map escape_char s) @ [quote_char]"

fun print_json :: "json \<Rightarrow> string" and print_elems :: "json list \<Rightarrow> string"
  and print_members :: "(string \<times> json) list \<Rightarrow> string" where
  "print_json JNull = ''null''"
| "print_json (JBool b) = (if b then ''true'' else ''false'')"
| "print_json (JNum l) = l"
| "print_json (JStr s) = print_string s"
| "print_json (JArr vs) = CHR ''['' # (if vs = [] then [CHR '']''] else print_elems vs)"
| "print_json (JObj kvs) = CHR ''{'' # (if kvs = [] then [CHR ''}''] else print_members kvs)"
| "print_elems [] = []"
| "print_elems (v # vs) = print_json v @ (if vs = [] then [CHR '']''] else CHR '','' # print_elems vs)"
| "print_members [] = []"
| "print_members ((k, v) # kvs) = print_string k @ CHR '':'' # print_json v @
     (if kvs = [] then [CHR ''}''] else CHR '','' # print_members kvs)"

section \<open>Parsing\<close>

definition is_ws :: "char \<Rightarrow> bool" where
  "is_ws c = (c \<in> set [CHR 0x20, CHR 0x09, CHR 0x0D, CHR 0x0A])"

definition skip_ws :: "string \<Rightarrow> string" where
  "skip_ws s = dropWhile is_ws s"

definition hex_val :: "char \<Rightarrow> nat option" where
  "hex_val c = (let n = (of_char c :: nat)
     in if 48 \<le> n \<and> n \<le> 57 then Some (n - 48)
        else if 97 \<le> n \<and> n \<le> 102 then Some (n - 87)
        else if 65 \<le> n \<and> n \<le> 70 then Some (n - 55) else None)"

definition hex4 :: "string \<Rightarrow> nat option" where
  "hex4 s = (case s of
     a # b # c # d # _ \<Rightarrow>
       (case (hex_val a, hex_val b, hex_val c, hex_val d) of
          (Some w, Some x, Some y, Some z) \<Rightarrow> Some (((w * 16 + x) * 16 + y) * 16 + z)
        | _ \<Rightarrow> None)
   | _ \<Rightarrow> None)"

definition utf8 :: "nat \<Rightarrow> string" where
  "utf8 n =
     (if n < 128 then [char_of n]
      else if n < 2048 then [char_of (192 + n div 64), char_of (128 + n mod 64)]
      else if n < 65536 then [char_of (224 + n div 4096), char_of (128 + n div 64 mod 64),
                              char_of (128 + n mod 64)]
      else [char_of (240 + n div 262144), char_of (128 + n div 4096 mod 64),
            char_of (128 + n div 64 mod 64), char_of (128 + n mod 64)])"

definition is_surrogate :: "nat \<Rightarrow> bool" where
  "is_surrogate u = (55296 \<le> u \<and> u < 57344)"

text \<open>
  The escape after a backslash: its bytes, and how many characters it takes.  A surrogate that is
  not part of a pair becomes the replacement character.
\<close>

definition unescape_u :: "string \<Rightarrow> (string \<times> nat) option" where
  "unescape_u t = (case hex4 t of
     None \<Rightarrow> None
   | Some u \<Rightarrow>
      if \<not> is_surrogate u then Some (utf8 u, 5)
      else (case (if hasPrefix (drop 4 t) [backslash, CHR ''u''] then hex4 (drop 6 t) else None) of
          Some l \<Rightarrow> if u < 56320 \<and> 56320 \<le> l \<and> l < 57344
                    then Some (utf8 (65536 + (u - 55296) * 1024 + (l - 56320)), 11)
                    else Some (utf8 65533, 5)
        | None \<Rightarrow> Some (utf8 65533, 5)))"

definition unescape :: "string \<Rightarrow> (string \<times> nat) option" where
  "unescape s = (case s of
     [] \<Rightarrow> None
   | c # t \<Rightarrow>
      if c = quote_char \<or> c = backslash \<or> c = CHR ''/'' then Some ([c], 1)
      else if c = CHR ''b'' then Some ([CHR 0x08], 1)
      else if c = CHR ''f'' then Some ([CHR 0x0C], 1)
      else if c = CHR ''n'' then Some ([CHR 0x0A], 1)
      else if c = CHR ''r'' then Some ([CHR 0x0D], 1)
      else if c = CHR ''t'' then Some ([CHR 0x09], 1)
      else if c = CHR ''u'' then unescape_u t
      else None)"

fun parse_chars :: "string \<Rightarrow> (string \<times> string) option" where
  "parse_chars [] = None"
| "parse_chars (c # s) =
     (if c = quote_char then Some ([], s)
      else if c = backslash then
        (case unescape s of
           None \<Rightarrow> None
         | Some (bytes, n) \<Rightarrow> map_option (\<lambda>(a, r). (bytes @ a, r)) (parse_chars (drop n s)))
      else if (of_char c :: nat) < 32 then None
      else map_option (\<lambda>(a, r). (c # a, r)) (parse_chars s))"

definition digit_span :: "string \<Rightarrow> string \<times> string" where
  "digit_span s = (takeWhile is_digit s, dropWhile is_digit s)"

definition parse_fraction :: "string \<Rightarrow> (string \<times> string) option" where
  "parse_fraction s = (if s \<noteq> [] \<and> hd s = CHR ''.''
     then (let (ds, r) = digit_span (tl s) in if ds = [] then None else Some (CHR ''.'' # ds, r))
     else Some ([], s))"

definition parse_exponent :: "string \<Rightarrow> (string \<times> string) option" where
  "parse_exponent s = (if s \<noteq> [] \<and> (hd s = CHR ''e'' \<or> hd s = CHR ''E'')
     then (let sign = (if tl s \<noteq> [] \<and> (hd (tl s) = CHR ''+'' \<or> hd (tl s) = CHR ''-'') then [hd (tl s)] else []);
               (ds, r) = digit_span (drop (length sign) (tl s))
           in if ds = [] then None else Some (hd s # sign @ ds, r))
     else Some ([], s))"

definition parse_integer :: "string \<Rightarrow> (string \<times> string) option" where
  "parse_integer s =
     (let sign = (if s \<noteq> [] \<and> hd s = CHR ''-'' then [CHR ''-''] else []);
          (ds, r) = digit_span (drop (length sign) s)
      in if ds = [] then None
         else if hd ds = CHR ''0'' then Some (sign @ [CHR ''0''], tl ds @ r)
         else Some (sign @ ds, r))"

definition parse_number :: "string \<Rightarrow> (string \<times> string) option" where
  "parse_number s = (case parse_integer s of None \<Rightarrow> None
   | Some (i, s1) \<Rightarrow> (case parse_fraction s1 of None \<Rightarrow> None
     | Some (f, s2) \<Rightarrow> (case parse_exponent s2 of None \<Rightarrow> None
       | Some (e, s3) \<Rightarrow> Some (i @ f @ e, s3))))"

datatype 'a parsed = Parsed 'a string | SyntaxError | OutOfFuel

definition bind_parsed :: "'a parsed \<Rightarrow> ('a \<Rightarrow> string \<Rightarrow> 'b parsed) \<Rightarrow> 'b parsed" where
  "bind_parsed m f = (case m of Parsed v r \<Rightarrow> f v r | SyntaxError \<Rightarrow> SyntaxError | OutOfFuel \<Rightarrow> OutOfFuel)"

definition of_option :: "('a \<times> string) option \<Rightarrow> 'a parsed" where
  "of_option m = (case m of None \<Rightarrow> SyntaxError | Some (v, r) \<Rightarrow> Parsed v r)"

text \<open>The rest of the text after a given character, white space skipped.\<close>

definition expect :: "char \<Rightarrow> string \<Rightarrow> string option" where
  "expect c s = (case skip_ws s of [] \<Rightarrow> None | d # r \<Rightarrow> if d = c then Some r else None)"

definition parse_literal :: "string \<Rightarrow> json parsed" where
  "parse_literal s =
     (if hasPrefix s ''null'' then Parsed JNull (drop 4 s)
      else if hasPrefix s ''true'' then Parsed (JBool True) (drop 4 s)
      else if hasPrefix s ''false'' then Parsed (JBool False) (drop 5 s)
      else bind_parsed (of_option (parse_number s)) (\<lambda>l r. Parsed (JNum l) r))"

text \<open>What may follow a value in a list: a comma and more values, or the closing bracket.\<close>

definition separated :: "char \<Rightarrow> (string \<Rightarrow> 'a list parsed) \<Rightarrow> 'a \<Rightarrow> string \<Rightarrow> 'a list parsed" where
  "separated close more v r = (case expect CHR '','' r of
     Some u \<Rightarrow> bind_parsed (more u) (\<lambda>vs r'. Parsed (v # vs) r')
   | None \<Rightarrow> (case expect close r of Some u \<Rightarrow> Parsed [v] u | None \<Rightarrow> SyntaxError))"

definition parse_key :: "string \<Rightarrow> (string \<times> string) option" where
  "parse_key s = (case expect quote_char s of None \<Rightarrow> None
   | Some t \<Rightarrow> (case parse_chars t of None \<Rightarrow> None
     | Some (k, r) \<Rightarrow> map_option (\<lambda>u. (k, u)) (expect CHR '':'' r)))"

fun parse_value :: "nat \<Rightarrow> string \<Rightarrow> json parsed" and parse_elems :: "nat \<Rightarrow> string \<Rightarrow> json list parsed"
  and parse_members :: "nat \<Rightarrow> string \<Rightarrow> (string \<times> json) list parsed" where
  "parse_value 0 s = OutOfFuel"
| "parse_value (Suc n) s =
     (case expect CHR ''{'' s of Some t \<Rightarrow>
        (case expect CHR ''}'' t of Some r \<Rightarrow> Parsed (JObj []) r
         | None \<Rightarrow> bind_parsed (parse_members n t) (\<lambda>kvs r. Parsed (JObj kvs) r))
      | None \<Rightarrow>
     (case expect CHR ''['' s of Some t \<Rightarrow>
        (case expect CHR '']'' t of Some r \<Rightarrow> Parsed (JArr []) r
         | None \<Rightarrow> bind_parsed (parse_elems n t) (\<lambda>vs r. Parsed (JArr vs) r))
      | None \<Rightarrow>
     (case expect quote_char s of Some t \<Rightarrow>
        bind_parsed (of_option (parse_chars t)) (\<lambda>x r. Parsed (JStr x) r)
      | None \<Rightarrow> parse_literal (skip_ws s))))"
| "parse_elems 0 s = OutOfFuel"
| "parse_elems (Suc n) s =
     bind_parsed (parse_value n s) (\<lambda>v r. separated CHR '']'' (\<lambda>u. parse_elems n u) v r)"
| "parse_members 0 s = OutOfFuel"
| "parse_members (Suc n) s =
     bind_parsed (of_option (parse_key s)) (\<lambda>k u.
       bind_parsed (parse_value n u) (\<lambda>v r. separated CHR ''}'' (\<lambda>u. parse_members n u) (k, v) r))"

definition parse_fuel :: "string \<Rightarrow> nat" where
  "parse_fuel s = 2 * length s + 2"

text \<open>
  \<open>decode_first\<close> is \<^verbatim>\<open>Decoder.Decode\<close>, which reads one value and leaves what follows it;
  \<open>unmarshal\<close> is \<^verbatim>\<open>json.Unmarshal\<close>, which allows only white space after the value.
\<close>

definition decode_first :: "string \<Rightarrow> json option" where
  "decode_first s = (case parse_value (parse_fuel s) s of Parsed v _ \<Rightarrow> Some v | _ \<Rightarrow> None)"

definition unmarshal :: "string \<Rightarrow> json option" where
  "unmarshal s = (case parse_value (parse_fuel s) s of
     Parsed v r \<Rightarrow> if skip_ws r = [] then Some v else None | _ \<Rightarrow> None)"

section \<open>The parser consumes its input\<close>

lemma skip_ws_length: "length (skip_ws s) \<le> length s"
  by (simp add: skip_ws_def length_dropWhile_le)

lemma expect_length: "expect c s = Some r \<Longrightarrow> length r < length s"
  using skip_ws_length [of s] by (auto simp: expect_def split: list.splits if_splits)

lemma bind_parsed_Parsed:
  "bind_parsed m f = Parsed v r \<longleftrightarrow> (\<exists>u t. m = Parsed u t \<and> f u t = Parsed v r)"
  by (cases m) (auto simp: bind_parsed_def)

lemma bind_parsed_OutOfFuel:
  "bind_parsed m f = OutOfFuel \<longleftrightarrow> m = OutOfFuel \<or> (\<exists>u t. m = Parsed u t \<and> f u t = OutOfFuel)"
  by (cases m) (auto simp: bind_parsed_def)

lemma of_option_iff: "of_option m = Parsed v r \<longleftrightarrow> m = Some (v, r)" "of_option m \<noteq> OutOfFuel"
  by (auto simp: of_option_def split: option.splits)

lemma parse_chars_length: "parse_chars s = Some (a, r) \<Longrightarrow> length r < length s"
proof (induction s arbitrary: a r rule: parse_chars.induct)
  case (2 c s)
  then show ?case
    by (auto split: if_splits option.splits) fastforce+
qed simp

lemma digit_span_length: "digit_span s = (ds, r) \<Longrightarrow> length s = length ds + length r"
  by (auto simp: digit_span_def) (metis length_append takeWhile_dropWhile_id)

lemma parse_integer_length: "parse_integer s = Some (i, r) \<Longrightarrow> length r < length s"
  by (auto simp: parse_integer_def Let_def dest!: digit_span_length split: prod.splits if_splits)
    (auto simp: neq_Nil_conv)

lemma parse_fraction_length: "parse_fraction s = Some (f, r) \<Longrightarrow> length r \<le> length s"
  by (auto simp: parse_fraction_def dest!: digit_span_length split: prod.splits if_splits)

lemma parse_exponent_length: "parse_exponent s = Some (e, r) \<Longrightarrow> length r \<le> length s"
  by (auto simp: parse_exponent_def Let_def dest!: digit_span_length split: prod.splits if_splits)

lemma parse_number_length: "parse_number s = Some (l, r) \<Longrightarrow> length r < length s"
  by (auto simp: parse_number_def split: option.splits prod.splits
      dest!: parse_integer_length parse_fraction_length parse_exponent_length)

lemma parse_literal_length: "parse_literal s = Parsed v r \<Longrightarrow> length r < length s"
  by (auto simp: parse_literal_def bind_parsed_Parsed of_option_iff hasPrefix_def
      dest: parse_number_length split: if_splits) (auto simp: prefix_def)

lemma separated_length:
  assumes "\<And>u vs t. more u = Parsed vs t \<Longrightarrow> length t < length u"
    and "separated close more v r = Parsed vs t"
  shows "length t < length r"
proof (cases "expect CHR '','' r")
  case None
  with assms(2) show ?thesis by (auto simp: separated_def dest: expect_length split: option.splits)
next
  case (Some u)
  with assms(2) obtain vs' where "more u = Parsed vs' t" by (auto simp: separated_def bind_parsed_Parsed)
  with assms(1) expect_length [OF Some] show ?thesis by force
qed

lemma parse_key_length: "parse_key s = Some (k, u) \<Longrightarrow> length u < length s"
  by (auto simp: parse_key_def split: option.splits dest!: expect_length parse_chars_length)

lemma parse_length:
  "(\<forall>s v r. parse_value n s = Parsed v r \<longrightarrow> length r < length s) \<and>
   (\<forall>s vs r. parse_elems n s = Parsed vs r \<longrightarrow> length r < length s) \<and>
   (\<forall>s kvs r. parse_members n s = Parsed kvs r \<longrightarrow> length r < length s)"
proof (induction n)
  case (Suc n)
  have "length r < length s" if "parse_value (Suc n) s = Parsed v r" for s v r
    using that Suc.IH skip_ws_length [of s]
    by (auto simp: bind_parsed_Parsed of_option_iff split: option.splits
        dest!: expect_length parse_chars_length parse_literal_length) fastforce+
  moreover have "length r < length s" if "parse_elems (Suc n) s = Parsed vs r" for s vs r
  proof -
    from that obtain v t where "parse_value n s = Parsed v t"
      "separated CHR '']'' (parse_elems n) v t = Parsed vs r" by (auto simp: bind_parsed_Parsed)
    then show ?thesis using Suc.IH separated_length [of "parse_elems n"] by (meson order.strict_trans)
  qed
  moreover have "length r < length s" if "parse_members (Suc n) s = Parsed kvs r" for s kvs r
  proof -
    from that obtain k u v t where "parse_key s = Some (k, u)" "parse_value n u = Parsed v t"
      "separated CHR ''}'' (parse_members n) (k, v) t = Parsed kvs r"
      by (auto simp: bind_parsed_Parsed of_option_iff)
    then show ?thesis
      using Suc.IH separated_length [of "parse_members n"] parse_key_length by (meson order.strict_trans)
  qed
  ultimately show ?case by blast
qed simp

section \<open>The fuel is enough\<close>

lemma separated_fuel:
  assumes "\<And>u. length u < length r \<Longrightarrow> more u \<noteq> OutOfFuel"
  shows "separated close more v r \<noteq> OutOfFuel"
  using assms expect_length [of _ r]
  by (auto simp: separated_def bind_parsed_OutOfFuel split: option.splits)

lemma parse_literal_fuel: "parse_literal s \<noteq> OutOfFuel"
  by (auto simp: parse_literal_def bind_parsed_OutOfFuel of_option_iff)

lemma parse_fuel_ok:
  "(\<forall>s. 2 * length s < n \<longrightarrow> parse_value n s \<noteq> OutOfFuel) \<and>
   (\<forall>s. 2 * length s + 1 < n \<longrightarrow> parse_elems n s \<noteq> OutOfFuel) \<and>
   (\<forall>s. 2 * length s + 1 < n \<longrightarrow> parse_members n s \<noteq> OutOfFuel)"
proof (induction n)
  case (Suc n)
  have "parse_value (Suc n) s \<noteq> OutOfFuel" if "2 * length s < Suc n" for s
  proof -
    have "2 * length t + 1 < n" if "expect c s = Some t" for c t
      using expect_length [OF that] \<open>2 * length s < Suc n\<close> by simp
    then show ?thesis
      using Suc.IH by (auto simp: bind_parsed_OutOfFuel of_option_iff parse_literal_fuel split: option.splits)
  qed
  moreover have "parse_elems (Suc n) s \<noteq> OutOfFuel" if s: "2 * length s + 1 < Suc n" for s
  proof -
    have "separated CHR '']'' (parse_elems n) v t \<noteq> OutOfFuel" if "parse_value n s = Parsed v t" for v t
    proof (rule separated_fuel)
      fix u :: string
      assume "length u < length t"
      moreover have "length t < length s" using parse_length that by blast
      ultimately show "parse_elems n u \<noteq> OutOfFuel" using Suc.IH s by simp
    qed
    then show ?thesis using Suc.IH s by (auto simp: bind_parsed_OutOfFuel)
  qed
  moreover have "parse_members (Suc n) s \<noteq> OutOfFuel" if s: "2 * length s + 1 < Suc n" for s
  proof -
    have "parse_value n u \<noteq> OutOfFuel \<and> (\<forall>v t. parse_value n u = Parsed v t \<longrightarrow>
        separated CHR ''}'' (parse_members n) (k, v) t \<noteq> OutOfFuel)" if k: "parse_key s = Some (k, u)" for k u
    proof (intro conjI allI impI)
      show "parse_value n u \<noteq> OutOfFuel" using Suc.IH parse_key_length [OF k] s by simp
      fix v t
      assume "parse_value n u = Parsed v t"
      then have "length t < length u" using parse_length by blast
      then show "separated CHR ''}'' (parse_members n) (k, v) t \<noteq> OutOfFuel"
        using Suc.IH parse_key_length [OF k] s by (intro separated_fuel) simp
    qed
    then show ?thesis by (auto simp: bind_parsed_OutOfFuel of_option_iff)
  qed
  ultimately show ?case by blast
qed simp

lemma parse_never_out_of_fuel: "parse_value (parse_fuel s) s \<noteq> OutOfFuel"
  using parse_fuel_ok [of "parse_fuel s"] by (simp add: parse_fuel_def)

text \<open>More fuel does not change a result.\<close>

definition fuel_le :: "'a parsed \<Rightarrow> 'a parsed \<Rightarrow> bool" where
  "fuel_le x y = (x = OutOfFuel \<or> x = y)"

lemma fuel_le_refl [simp]: "fuel_le x x"
  by (simp add: fuel_le_def)

lemma bind_fuel_le:
  assumes "fuel_le m m'" and "\<And>u t. fuel_le (f u t) (f' u t)"
  shows "fuel_le (bind_parsed m f) (bind_parsed m' f')"
proof (cases m)
  case (Parsed u t)
  with assms(1) have "m' = m" by (simp add: fuel_le_def)
  with Parsed assms(2) show ?thesis by (simp add: bind_parsed_def)
qed (use assms(1) in \<open>auto simp: fuel_le_def bind_parsed_def\<close>)

lemma separated_fuel_le:
  "(\<And>u. fuel_le (more u) (more' u)) \<Longrightarrow> fuel_le (separated c more v r) (separated c more' v r)"
  by (auto simp: separated_def intro: bind_fuel_le split: option.splits)

lemma parse_fuel_step:
  "(\<forall>s. fuel_le (parse_value n s) (parse_value (Suc n) s)) \<and>
   (\<forall>s. fuel_le (parse_elems n s) (parse_elems (Suc n) s)) \<and>
   (\<forall>s. fuel_le (parse_members n s) (parse_members (Suc n) s))"
proof (induction n)
  case 0
  then show ?case by (simp add: fuel_le_def)
next
  case (Suc n)
  have "fuel_le (parse_value (Suc n) s) (parse_value (Suc (Suc n)) s)" for s
    unfolding parse_value.simps(2) [of "Suc n"] parse_value.simps(2) [of n]
    using Suc.IH by (auto split: option.split intro!: bind_fuel_le simp del: parse_members.simps parse_elems.simps)
  moreover have "fuel_le (parse_elems (Suc n) s) (parse_elems (Suc (Suc n)) s)" for s
    unfolding parse_elems.simps(2) [of "Suc n" s] parse_elems.simps(2) [of n s]
    by (intro bind_fuel_le separated_fuel_le) (use Suc.IH in blast)+
  moreover have "fuel_le (parse_members (Suc n) s) (parse_members (Suc (Suc n)) s)" for s
    unfolding parse_members.simps(2) [of "Suc n" s] parse_members.simps(2) [of n s]
    by (intro bind_fuel_le separated_fuel_le fuel_le_refl) (use Suc.IH in blast)+
  ultimately show ?case by blast
qed

lemma fuel_le_steps:
  assumes "\<And>n. fuel_le (p n) (p (Suc n))" and "p n \<noteq> OutOfFuel" and "n \<le> m"
  shows "p m = p n"
  using assms(3)
proof (induction m rule: dec_induct)
  case (step m)
  then show ?case using assms(1) [of m] assms(2) by (auto simp: fuel_le_def)
qed simp

lemma parse_value_mono: "parse_value n s \<noteq> OutOfFuel \<Longrightarrow> n \<le> m \<Longrightarrow> parse_value m s = parse_value n s"
  and parse_elems_mono: "parse_elems n s \<noteq> OutOfFuel \<Longrightarrow> n \<le> m \<Longrightarrow> parse_elems m s = parse_elems n s"
  and parse_members_mono: "parse_members n s \<noteq> OutOfFuel \<Longrightarrow> n \<le> m \<Longrightarrow> parse_members m s = parse_members n s"
  using fuel_le_steps [of "\<lambda>n. parse_value n s"] fuel_le_steps [of "\<lambda>n. parse_elems n s"]
    fuel_le_steps [of "\<lambda>n. parse_members n s"] parse_fuel_step by blast+

section \<open>Round trip\<close>

lemma expect_simps [simp]:
  "expect c [] = None" "\<not> is_ws d \<Longrightarrow> expect c (d # s) = (if d = c then Some s else None)"
  by (simp_all add: expect_def skip_ws_def)

lemma is_ws_simps [simp]:
  "\<not> is_ws CHR '',''" "\<not> is_ws CHR '':''" "\<not> is_ws CHR ''{''" "\<not> is_ws CHR ''}''" "\<not> is_ws CHR ''[''"
  "\<not> is_ws CHR '']''" "\<not> is_ws quote_char" "\<not> is_ws CHR ''n''" "\<not> is_ws CHR ''t''" "\<not> is_ws CHR ''f''"
  "\<not> is_ws CHR ''-''"
  by (simp_all add: is_ws_def)

lemma hex_val_hex_char: "k < 16 \<Longrightarrow> hex_val (hex_char k) = Some k"
  by (simp add: hex_val_def hex_char_def Let_def)

lemma unescape_u_escape:
  assumes "(of_char c :: nat) < 128"
  shows "unescape (tl (u_escape (of_char c)) @ t) = Some ([c], 5)"
proof -
  let ?n = "of_char c :: nat"
  have "hex_val (hex_char (?n div 16)) = Some (?n div 16)" "hex_val (hex_char (?n mod 16)) = Some (?n mod 16)"
    using assms by (intro hex_val_hex_char; simp)+
  moreover have "hex_val CHR ''0'' = Some 0" by (simp add: hex_val_def)
  ultimately have "hex4 (CHR ''0'' # CHR ''0'' # hex_char (?n div 16) # hex_char (?n mod 16) # t) = Some ?n"
    by (simp add: hex4_def)
  then show ?thesis
    using assms by (simp add: unescape_def u_escape_def unescape_u_def is_surrogate_def utf8_def)
qed

lemma control_chars:
  "char_of (8 :: nat) = CHR 0x08" "char_of (9 :: nat) = CHR 0x09" "char_of (10 :: nat) = CHR 0x0A"
  "char_of (12 :: nat) = CHR 0x0C" "char_of (13 :: nat) = CHR 0x0D"
  by code_simp+

lemma control_char_eq:
  "(of_char c :: nat) = 8 \<Longrightarrow> c = CHR 0x08" "(of_char c :: nat) = 9 \<Longrightarrow> c = CHR 0x09"
  "(of_char c :: nat) = 10 \<Longrightarrow> c = CHR 0x0A" "(of_char c :: nat) = 12 \<Longrightarrow> c = CHR 0x0C"
  "(of_char c :: nat) = 13 \<Longrightarrow> c = CHR 0x0D"
  using control_chars by (metis char_of_char)+

lemma escape_char_cases:
  fixes c :: char
  defines "n \<equiv> of_char c :: nat"
  shows "(c = quote_char \<or> c = backslash) \<or> n = 8 \<or> n = 9 \<or> n = 10 \<or> n = 12 \<or> n = 13 \<or>
    (escape_char c = u_escape n \<and> n < 128) \<or>
    (escape_char c = [c] \<and> c \<noteq> quote_char \<and> c \<noteq> backslash \<and> \<not> n < 32)"
proof -
  have "n < 128" if "c = CHR ''<'' \<or> c = CHR ''>'' \<or> c = CHR ''&''" using that by (auto simp: n_def)
  moreover have "n < 128" if "n < 32" using that by simp
  ultimately show ?thesis
    by (simp add: escape_char_def Let_def n_def [symmetric] split: if_split)
qed

lemma parse_chars_escape:
  "parse_chars (escape_char c @ t) = map_option (\<lambda>(a, r). (c # a, r)) (parse_chars t)"
proof -
  let ?n = "of_char c :: nat"
  consider "c = quote_char \<or> c = backslash" | "?n = 8" | "?n = 9" | "?n = 10" | "?n = 12" | "?n = 13"
    | "escape_char c = u_escape ?n" "?n < 128"
    | "escape_char c = [c]" "c \<noteq> quote_char" "c \<noteq> backslash" "\<not> ?n < 32"
    using escape_char_cases [of c] by metis
  then show ?thesis
  proof cases
    case 1
    then show ?thesis by (auto simp: escape_char_def unescape_def)
  next
    case 7
    have "parse_chars (backslash # tl (u_escape ?n) @ t) = map_option (\<lambda>(a, r). (c # a, r)) (parse_chars t)"
      using unescape_u_escape [OF 7(2), of t] by (simp add: u_escape_def)
    moreover have "u_escape ?n = backslash # tl (u_escape ?n)" by (simp add: u_escape_def)
    ultimately show ?thesis using 7(1) by (metis append_Cons)
  next
    case 8
    then show ?thesis by simp
  qed (auto dest!: control_char_eq simp: escape_char_def unescape_def)
qed

lemma parse_print_string:
  "parse_chars (concat (map escape_char s) @ quote_char # rest) = Some (s, rest)"
  by (induction s) (simp_all add: parse_chars_escape del: parse_chars.simps(2) add: parse_chars.simps(2) [of quote_char])

definition stops :: "string \<Rightarrow> bool" where
  "stops s = (s = [] \<or> \<not> is_digit (hd s) \<and> hd s \<notin> {CHR ''.'', CHR ''e'', CHR ''E''})"

lemma show_nat_hd: "hd (show_nat n) = CHR ''0'' \<longleftrightarrow> n = 0"
proof (induction n rule: show_nat.induct)
  case (1 n)
  show ?case
  proof (cases "n < 10")
    case True
    have "digit_char n = CHR ''0'' \<longleftrightarrow> n = 0"
      using digit_char [OF True] by (auto simp: digit_val_def) (simp add: digit_char_def, code_simp)
    with True show ?thesis by (subst show_nat.simps) simp
  next
    case False
    then show ?thesis using 1 by (subst show_nat.simps) simp
  qed
qed

lemma digit_span_digits:
  "list_all is_digit ds \<Longrightarrow> stops rest \<Longrightarrow> digit_span (ds @ rest) = (ds, rest)"
  by (cases rest) (auto simp: digit_span_def stops_def list_all_iff takeWhile_append2 dropWhile_append2)

lemma parse_integer_show:
  assumes "stops rest"
  shows "parse_integer (show_int i @ rest) = Some (show_int i, rest)"
proof -
  have d: "digit_span (show_nat n @ rest) = (show_nat n, rest)" for n
    using show_nat_digits assms by (rule digit_span_digits)
  have nd: "is_digit (hd (show_nat n))" for n
    using show_nat_digits [of n] by (cases "show_nat n") auto
  have m: "hd (show_nat n) \<noteq> CHR ''-''" for n
    using nd [of n] by (auto simp: is_digit_def)
  have z: "show_nat 0 = [CHR ''0'']" by (simp add: show_nat.simps digit_char_def) code_simp
  show ?thesis
  proof (cases "i < 0")
    case True
    then show ?thesis using d [of "nat (- i)"] show_nat_hd [of "nat (- i)"]
      by (simp add: show_int_def parse_integer_def Let_def)
  next
    case False
    show ?thesis
    proof (cases "i = 0")
      case True
      then show ?thesis using d [of 0] by (simp add: show_int_def parse_integer_def Let_def z)
    next
      case i: False
      then show ?thesis using False d [of "nat i"] show_nat_hd [of "nat i"] m [of "nat i"]
        by (simp add: show_int_def parse_integer_def Let_def)
    qed
  qed
qed

lemma parse_number_show: "stops rest \<Longrightarrow> parse_number (show_int i @ rest) = Some (show_int i, rest)"
  by (auto simp: parse_number_def parse_integer_show parse_fraction_def parse_exponent_def stops_def)

text \<open>Values whose numbers are integers, which is all the server writes.\<close>

fun json_ok :: "json \<Rightarrow> bool" where
  "json_ok (JNum l) = (\<exists>i. l = show_int i)"
| "json_ok (JArr vs) = list_all json_ok vs"
| "json_ok (JObj kvs) = list_all (\<lambda>(_, v). json_ok v) kvs"
| "json_ok _ = True"

lemma show_int_hd:
  obtains c s where "show_int i = c # s" and "is_digit c \<or> c = CHR ''-''"
proof (cases "i < 0")
  case True
  then show thesis using that [of "CHR ''-''" "show_nat (nat (- i))"] by (simp add: show_int_def)
next
  case False
  obtain c s where "show_nat (nat i) = c # s" by (cases "show_nat (nat i)") auto
  with show_nat_digits [of "nat i"] False that [of c s] show thesis by (simp add: show_int_def)
qed

lemma digit_not:
  "is_digit c \<or> c = CHR ''-'' \<Longrightarrow> \<not> is_ws c \<and>
     c \<notin> {CHR ''{'', CHR ''['', quote_char, CHR ''n'', CHR ''t'', CHR ''f''}"
  by (auto simp: is_digit_def is_ws_def)

lemma parse_show_int:
  assumes "stops rest"
  shows "parse_value (Suc n) (show_int i @ rest) = Parsed (JNum (show_int i)) rest"
proof -
  obtain c s where c: "show_int i = c # s" "is_digit c \<or> c = CHR ''-''" by (rule show_int_hd)
  note d = digit_not [OF c(2)]
  have "parse_literal (show_int i @ rest) = Parsed (JNum (show_int i)) rest"
    using d parse_number_show [OF assms, of i]
    by (auto simp: parse_literal_def hasPrefix_def c(1) bind_parsed_def of_option_def)
  then show ?thesis using d by (simp add: c(1) skip_ws_def)
qed

lemma print_json_hd:
  assumes "json_ok v"
  obtains c s where "print_json v = c # s" and "\<not> is_ws c" and "c \<notin> {CHR '']'', CHR ''}''}"
proof (cases v)
  case JNull
  with that show thesis by simp
next
  case (JBool b)
  with that [of "CHR ''t''" "''rue''"] that [of "CHR ''f''" "''alse''"] show thesis by (cases b) simp_all
next
  case (JNum l)
  with assms obtain i where l: "l = show_int i" by auto
  obtain c s where c: "show_int i = c # s" "is_digit c \<or> c = CHR ''-''" by (rule show_int_hd)
  have "c \<notin> {CHR '']'', CHR ''}''}" using c(2) by (auto simp: is_digit_def)
  with digit_not [OF c(2)] c(1) show thesis using that [of c s] JNum l by simp
next
  case (JStr x)
  with that [of quote_char] show thesis by (simp add: print_string_def)
next
  case (JArr vs)
  with that [of "CHR ''[''"] show thesis by simp
next
  case (JObj kvs)
  with that [of "CHR ''{''"] show thesis by simp
qed

text \<open>Enough fuel for a value and its lists.\<close>

lemma roundtrip:
  "json_ok v \<Longrightarrow> \<exists>n. \<forall>rest. stops rest \<longrightarrow> parse_value n (print_json v @ rest) = Parsed v rest"
  "list_all json_ok vs \<Longrightarrow> vs \<noteq> [] \<Longrightarrow>
     \<exists>n. \<forall>rest. parse_elems n (print_elems vs @ rest) = Parsed vs rest"
  "list_all (\<lambda>(_, v). json_ok v) kvs \<Longrightarrow> kvs \<noteq> [] \<Longrightarrow>
     \<exists>n. \<forall>rest. parse_members n (print_members kvs @ rest) = Parsed kvs rest"
proof (induction v and vs and kvs rule: print_json_print_elems_print_members.induct)
  case 1
  then show ?case
    by (intro exI [of _ 1]) (simp add: parse_literal_def hasPrefix_def skip_ws_def)
next
  case (2 b)
  then show ?case
    by (intro exI [of _ 1]) (simp add: parse_literal_def hasPrefix_def skip_ws_def)
next
  case (3 l)
  then show ?case using parse_show_int [of _ 0] by (intro exI [of _ 1]) auto
next
  case (4 s)
  then show ?case
    by (intro exI [of _ 1]) (simp add: print_string_def parse_print_string of_option_def bind_parsed_def)
next
  case (5 vs)
  show ?case
  proof (cases "vs = []")
    case True
    then show ?thesis by (intro exI [of _ 1]) simp
  next
    case False
    with 5 obtain n where n: "\<And>rest. parse_elems n (print_elems vs @ rest) = Parsed vs rest" by auto
    obtain w ws where vs: "vs = w # ws" using False by (cases vs) auto
    have "json_ok w" using "5.prems" vs by simp
    then obtain c s where "print_json w = c # s" "\<not> is_ws c" "c \<notin> {CHR '']'', CHR ''}''}"
      by (rule print_json_hd)
    then have "expect CHR '']'' (print_elems vs @ rest) = None" for rest by (simp add: vs)
    with n False show ?thesis by (intro exI [of _ "Suc n"]) (simp add: bind_parsed_def)
  qed
next
  case (6 kvs)
  show ?case
  proof (cases "kvs = []")
    case True
    then show ?thesis by (intro exI [of _ 1]) simp
  next
    case False
    with 6 obtain n where n: "\<And>rest. parse_members n (print_members kvs @ rest) = Parsed kvs rest" by auto
    obtain k v ws where "kvs = (k, v) # ws" using False by (cases kvs) auto
    then have "expect CHR ''}'' (print_members kvs @ rest) = None" for rest by (simp add: print_string_def)
    with n False show ?thesis by (intro exI [of _ "Suc n"]) (simp add: bind_parsed_def)
  qed
next
  case (8 v vs)
  obtain n where n: "\<And>rest. stops rest \<Longrightarrow> parse_value n (print_json v @ rest) = Parsed v rest"
    using 8 by auto
  show ?case
  proof (cases "vs = []")
    case True
    have "stops (CHR '']'' # rest)" for rest by (simp add: stops_def is_digit_def)
    with n True show ?thesis by (intro exI [of _ "Suc n"]) (simp add: bind_parsed_def separated_def)
  next
    case False
    with 8 obtain m where m: "\<And>rest. parse_elems m (print_elems vs @ rest) = Parsed vs rest" by auto
    have "stops (CHR '','' # rest)" for rest by (simp add: stops_def is_digit_def)
    then have "parse_value (max n m) (print_json v @ CHR '','' # rest) = Parsed v (CHR '','' # rest)" for rest
      using n parse_value_mono [of n _ "max n m"] by simp
    moreover have "parse_elems (max n m) (print_elems vs @ rest) = Parsed vs rest" for rest
      using m parse_elems_mono [of m _ "max n m"] by simp
    ultimately show ?thesis using False
      by (intro exI [of _ "Suc (max n m)"]) (simp add: bind_parsed_def separated_def)
  qed
next
  case (10 k v kvs)
  obtain n where n: "\<And>rest. stops rest \<Longrightarrow> parse_value n (print_json v @ rest) = Parsed v rest"
    using 10 by auto
  have key: "parse_key (print_string k @ CHR '':'' # rest) = Some (k, rest)" for rest
    by (simp add: parse_key_def print_string_def parse_print_string)
  show ?case
  proof (cases "kvs = []")
    case True
    have "stops (CHR ''}'' # rest)" for rest by (simp add: stops_def is_digit_def)
    with n True key show ?thesis
      by (intro exI [of _ "Suc n"]) (simp add: bind_parsed_def separated_def of_option_def)
  next
    case False
    with 10 obtain m where m: "\<And>rest. parse_members m (print_members kvs @ rest) = Parsed kvs rest" by auto
    have "stops (CHR '','' # rest)" for rest by (simp add: stops_def is_digit_def)
    then have "parse_value (max n m) (print_json v @ CHR '','' # rest) = Parsed v (CHR '','' # rest)" for rest
      using n parse_value_mono [of n _ "max n m"] by simp
    moreover have "parse_members (max n m) (print_members kvs @ rest) = Parsed kvs rest" for rest
      using m parse_members_mono [of m _ "max n m"] by simp
    ultimately show ?thesis using False key
      by (intro exI [of _ "Suc (max n m)"]) (simp add: bind_parsed_def separated_def of_option_def)
  qed
qed simp_all

lemma parse_print:
  assumes "json_ok v" and "stops rest"
  shows "parse_value (parse_fuel (print_json v @ rest)) (print_json v @ rest) = Parsed v rest"
proof -
  let ?s = "print_json v @ rest"
  obtain n where n: "parse_value n ?s = Parsed v rest" using roundtrip(1) [OF assms(1)] assms(2) by blast
  let ?m = "max n (parse_fuel ?s)"
  have "parse_value ?m ?s = parse_value n ?s" using n by (intro parse_value_mono) simp_all
  moreover have "parse_value ?m ?s = parse_value (parse_fuel ?s) ?s"
    by (rule parse_value_mono [OF parse_never_out_of_fuel max.cobounded2])
  ultimately show ?thesis using n by simp
qed

section \<open>Decoding into a struct\<close>

text \<open>
  A struct field is its name and how a value is stored in it.  A key selects the field of exactly
  that name, else one that differs in case only; folding also takes the long s and the Kelvin sign
  to the letters they are variants of.  A \<^verbatim>\<open>null\<close> leaves a field alone, a value of another type is an
  error, an unknown key is one if the decoder is strict.
\<close>

fun fold_name :: "string \<Rightarrow> string" where
  "fold_name [] = []"
| "fold_name (c # s) =
     (if prefix [CHR 0xC5, CHR 0xBF] (c # s) then CHR ''s'' # fold_name (drop 1 s)
      else if prefix [CHR 0xE2, CHR 0x84, CHR 0xAA] (c # s) then CHR ''k'' # fold_name (drop 2 s)
      else lower_char c # fold_name s)"

type_synonym 'r field = "string \<times> (json \<Rightarrow> 'r \<Rightarrow> 'r option)"

definition find_field :: "'r field list \<Rightarrow> string \<Rightarrow> (json \<Rightarrow> 'r \<Rightarrow> 'r option) option" where
  "find_field fields k = (case map_of fields k of
     Some f \<Rightarrow> Some f
   | None \<Rightarrow> map_option snd (List.find (\<lambda>(n, _). fold_name n = fold_name k) fields))"

fun decode_fields :: "bool \<Rightarrow> 'r field list \<Rightarrow> (string \<times> json) list \<Rightarrow> 'r \<Rightarrow> 'r option" where
  "decode_fields strict fields [] r = Some r"
| "decode_fields strict fields ((k, v) # kvs) r =
     (case find_field fields k of
        None \<Rightarrow> if strict then None else decode_fields strict fields kvs r
      | Some f \<Rightarrow> (case f v r of None \<Rightarrow> None | Some r' \<Rightarrow> decode_fields strict fields kvs r'))"

definition decode_struct :: "bool \<Rightarrow> 'r field list \<Rightarrow> json \<Rightarrow> 'r \<Rightarrow> 'r option" where
  "decode_struct strict fields j r = (case j of
     JObj kvs \<Rightarrow> decode_fields strict fields kvs r
   | JNull \<Rightarrow> Some r
   | _ \<Rightarrow> None)"

definition str_field :: "(string \<Rightarrow> 'r \<Rightarrow> 'r) \<Rightarrow> json \<Rightarrow> 'r \<Rightarrow> 'r option" where
  "str_field put j r = (case j of JStr s \<Rightarrow> Some (put s r) | JNull \<Rightarrow> Some r | _ \<Rightarrow> None)"

text \<open>A Go \<^verbatim>\<open>int\<close> or \<^verbatim>\<open>int64\<close>: the literal must be a decimal integer of 64 bits.\<close>

definition int_field :: "(int \<Rightarrow> 'r \<Rightarrow> 'r) \<Rightarrow> json \<Rightarrow> 'r \<Rightarrow> 'r option" where
  "int_field put j r = (case j of
     JNum l \<Rightarrow> map_option (\<lambda>i. put i r) (atoi l)
   | JNull \<Rightarrow> Some r
   | _ \<Rightarrow> None)"

text \<open>A slice: element \<open>i\<close> is decoded over the element the slice had there, else over the zero value.\<close>

fun decode_elems :: "('r \<Rightarrow> json \<Rightarrow> 'r option) \<Rightarrow> 'r \<Rightarrow> 'r list \<Rightarrow> json list \<Rightarrow> 'r list option" where
  "decode_elems dec zero old [] = Some []"
| "decode_elems dec zero old (j # js) =
     (case dec (case old of [] \<Rightarrow> zero | x # _ \<Rightarrow> x) j of
        None \<Rightarrow> None
      | Some x \<Rightarrow> map_option ((#) x) (decode_elems dec zero (tl old) js))"

definition decode_slice :: "('r \<Rightarrow> json \<Rightarrow> 'r option) \<Rightarrow> 'r \<Rightarrow> 'r list \<Rightarrow> json \<Rightarrow> 'r list option" where
  "decode_slice dec zero old j = (case j of
     JArr js \<Rightarrow> decode_elems dec zero old js
   | JNull \<Rightarrow> Some []
   | _ \<Rightarrow> None)"

definition decode_str :: "string \<Rightarrow> json \<Rightarrow> string option" where
  "decode_str old j = str_field (\<lambda>s _. s) j old"

lemma find_field_exact: "map_of fields k = Some f \<Longrightarrow> find_field fields k = Some f"
  by (simp add: find_field_def)

lemma str_field_JStr [simp]: "str_field put (JStr s) r = Some (put s r)"
  by (simp add: str_field_def)

lemma show_int_atoi:
  assumes "- (2 ^ 63) \<le> i" and "i < 2 ^ 63"
  shows "atoi (show_int i) = Some i"
proof (cases "i < 0")
  case True
  with assms show ?thesis by (simp add: show_int_def atoi_def Let_def show_nat_digits)
next
  case False
  with assms atoi_show_nat [of "nat i"] show ?thesis by (simp add: show_int_def)
qed

lemma int_field_JNum [simp]:
  "- (2 ^ 63) \<le> i \<Longrightarrow> i < 2 ^ 63 \<Longrightarrow> int_field put (JNum (show_int i)) r = Some (put i r)"
  by (simp add: int_field_def show_int_atoi)

text \<open>What an encoder wrote is decoded again, whatever follows it in the stream.\<close>

lemma decode_first_print:
  "json_ok v \<Longrightarrow> stops rest \<Longrightarrow> decode_first (print_json v @ rest) = Some v"
  by (simp add: decode_first_def parse_print)

lemma unmarshal_print: "json_ok v \<Longrightarrow> unmarshal (print_json v) = Some v"
  using parse_print [of v "[]"] by (simp add: unmarshal_def stops_def skip_ws_def)

end
