(* ===== verification/Url.thy ===== *)
theory Url
  imports Json
begin

text \<open>
  The parts of \<^verbatim>\<open>net/url\<close> and \<^verbatim>\<open>net\<close> the server calls: escaping and parsing of queries, escaping
  of a path, host and port of an address.
\<close>

section \<open>Escaping\<close>

definition is_alnum :: "char \<Rightarrow> bool" where
  "is_alnum c = (let n = (of_char c :: nat) in 48 \<le> n \<and> n \<le> 57 \<or> 65 \<le> n \<and> n \<le> 90 \<or> 97 \<le> n \<and> n \<le> 122)"

definition unreserved :: "char \<Rightarrow> bool" where
  "unreserved c = (is_alnum c \<or> c \<in> set ''-_.~'')"

definition upper_hex :: "nat \<Rightarrow> char" where
  "upper_hex n = char_of (if n < 10 then 48 + n else 55 + n)"

definition percent :: "char \<Rightarrow> string" where
  "percent c = [CHR ''%'', upper_hex (of_char c div 16), upper_hex (of_char c mod 16)]"

definition query_escape :: "string \<Rightarrow> string" where
  "query_escape s = concat (map (\<lambda>c. if unreserved c then [c] else if c = CHR '' '' then ''+'' else percent c) s)"

definition path_escape :: "string \<Rightarrow> string" where
  "path_escape s = concat (map (\<lambda>c. if unreserved c \<or> c \<in> set ''$&+,/:;=@'' then [c] else percent c) s)"

fun query_unescape :: "string \<Rightarrow> string option" where
  "query_unescape [] = Some []"
| "query_unescape (c # cs) =
     (if c = CHR ''%'' then
        (case cs of
           a # b # rest \<Rightarrow>
             (case (hex_val a, hex_val b) of
                (Some x, Some y) \<Rightarrow> map_option ((#) (char_of (x * 16 + y))) (query_unescape rest)
              | _ \<Rightarrow> None)
         | _ \<Rightarrow> None)
      else map_option ((#) (if c = CHR ''+'' then CHR '' '' else c)) (query_unescape cs))"

section \<open>Queries\<close>

definition parse_pair :: "string \<Rightarrow> (string \<times> string) option" where
  "parse_pair segment =
     (if CHR '';'' \<in> set segment \<or> segment = [] then None
      else let (key, v, _) = cut segment ''=''
           in case (query_unescape key, query_unescape v) of
                (Some k, Some x) \<Rightarrow> Some (k, x)
              | _ \<Rightarrow> None)"

text \<open>\<^verbatim>\<open>URL.Query\<close>: the pairs in order; malformed ones are dropped.\<close>

definition parse_query :: "string \<Rightarrow> (string \<times> string) list" where
  "parse_query q = List.map_filter parse_pair (split_on (CHR ''&'') q)"

section \<open>Addresses\<close>

definition last_index :: "string \<Rightarrow> char \<Rightarrow> nat option" where
  "last_index s c = (if c \<in> set s then Some (length s - 1 - length (takeWhile (\<lambda>x. x \<noteq> c) (rev s))) else None)"

definition splitHostPort :: "string \<Rightarrow> (string \<times> string) option" where
  "splitHostPort a = (case last_index a (CHR '':'') of
     None \<Rightarrow> None
   | Some i \<Rightarrow>
      if hasPrefix a ''['' then
        (case indexOf a '']'' of
           None \<Rightarrow> None
         | Some e \<Rightarrow>
             if e + 1 \<noteq> i \<or> CHR ''['' \<in> set (drop 1 a) \<or> CHR '']'' \<in> set (drop (e + 1) a) then None
             else Some (take (e - 1) (drop 1 a), drop (i + 1) a))
      else if CHR '':'' \<in> set (take i a) \<or> CHR ''['' \<in> set a \<or> CHR '']'' \<in> set a then None
      else Some (take i a, drop (i + 1) a))"

definition joinHostPort :: "string \<Rightarrow> string \<Rightarrow> string" where
  "joinHostPort host port = (if CHR '':'' \<in> set host then ''['' @ host @ '']:'' @ port else host @ '':'' @ port)"

section \<open>Round trips\<close>

lemma hex_val_upper_hex: "k < 16 \<Longrightarrow> hex_val (upper_hex k) = Some k"
  by (simp add: hex_val_def upper_hex_def Let_def)

lemma char_nibbles: "of_char c div 16 < (16 :: nat)" "of_char c mod 16 < (16 :: nat)"
proof -
  have "(of_char c :: nat) < 16 * 16" by simp
  then show "of_char c div 16 < (16 :: nat)" by (rule less_mult_imp_div_less)
qed simp

lemma query_unescape_percent:
  "query_unescape (percent c @ s) = map_option ((#) c) (query_unescape s)"
  by (simp add: percent_def hex_val_upper_hex char_nibbles)

lemma unreserved_plain: "unreserved c \<Longrightarrow> c \<noteq> CHR ''%'' \<and> c \<noteq> CHR ''+'' \<and> c \<noteq> CHR ''&'' \<and> c \<noteq> CHR ''='' \<and> c \<noteq> CHR '';''"
  by (auto simp: unreserved_def is_alnum_def Let_def)

lemma query_unescape_escape_append: "query_unescape (query_escape s @ t) = map_option ((@) s) (query_unescape t)"
proof (induction s)
  case (Cons c s)
  let ?e = "if unreserved c then [c] else if c = CHR '' '' then ''+'' else percent c"
  have "query_unescape (?e @ u) = map_option ((#) c) (query_unescape u)" for u
    using unreserved_plain [of c] query_unescape_percent [of c u] by auto
  then have "query_unescape (?e @ (query_escape s @ t)) = map_option ((#) c) (query_unescape (query_escape s @ t))" .
  moreover have "query_escape (c # s) @ t = ?e @ (query_escape s @ t)" by (simp add: query_escape_def)
  ultimately show ?case using Cons by (simp only: option.map_comp comp_def append.simps)
qed (simp add: query_escape_def option.map_ident)

lemma query_unescape_escape [simp]: "query_unescape (query_escape s) = Some s"
  using query_unescape_escape_append [of s "[]"] by simp

lemma upper_hex_unreserved: "k < 16 \<Longrightarrow> unreserved (upper_hex k)"
  by (simp add: unreserved_def upper_hex_def is_alnum_def Let_def)

lemma percent_chars: "x \<in> set (percent c) \<Longrightarrow> unreserved x \<or> x = CHR ''%''"
  using upper_hex_unreserved [OF char_nibbles(1)] upper_hex_unreserved [OF char_nibbles(2)]
  by (auto simp: percent_def)

lemma query_escape_chars: "x \<in> set (query_escape s) \<Longrightarrow> unreserved x \<or> x = CHR ''%'' \<or> x = CHR ''+''"
  by (auto simp: query_escape_def dest: percent_chars split: if_splits)

lemma query_escape_separators:
  "CHR ''&'' \<notin> set (query_escape s)" "CHR ''='' \<notin> set (query_escape s)" "CHR '';'' \<notin> set (query_escape s)"
  using query_escape_chars unreserved_plain by fastforce+

definition encode_pair :: "string \<times> string \<Rightarrow> string" where
  "encode_pair p = query_escape (fst p) @ ''='' @ query_escape (snd p)"

fun encode_query :: "(string \<times> string) list \<Rightarrow> string" where
  "encode_query [] = []"
| "encode_query [p] = encode_pair p"
| "encode_query (p # ps) = encode_pair p @ ''&'' @ encode_query ps"

lemma parse_encode_pair: "parse_pair (encode_pair p) = Some p"
  using query_escape_separators cut_single [of "CHR ''=''" "query_escape (fst p)" "query_escape (snd p)"]
  by (simp add: parse_pair_def encode_pair_def)

lemma split_on_none: "d \<notin> set a \<Longrightarrow> split_on d a = [a]"
  by (induction a) auto

lemma split_on_append: "split_on d (p @ d # q) = split_on d p @ split_on d q"
proof (induction p)
  case (Cons c p)
  have "split_on d p \<noteq> []" by (induction p) (auto split: list.splits)
  with Cons show ?case by (cases "split_on d p") auto
qed simp

lemma encode_pair_no_amp: "CHR ''&'' \<notin> set (encode_pair p)"
  using query_escape_separators by (simp add: encode_pair_def)

lemma parse_encode_query: "parse_query (encode_query ps) = ps"
proof (induction ps rule: encode_query.induct)
  case 1
  then show ?case by (simp add: parse_query_def parse_pair_def map_filter_def)
next
  case (2 p)
  then show ?case by (simp add: parse_query_def split_on_none encode_pair_no_amp parse_encode_pair map_filter_def)
next
  case (3 p q ps)
  then show ?case by (simp add: parse_query_def split_on_append split_on_none encode_pair_no_amp parse_encode_pair map_filter_def)
qed

text \<open>A host without colons and brackets, and a port without them, are taken apart and put together again.\<close>

lemma splitHostPort_plain:
  assumes "CHR '':'' \<notin> set h" and "CHR ''['' \<notin> set h" and "CHR '']'' \<notin> set h"
    and "CHR '':'' \<notin> set p" and "CHR ''['' \<notin> set p" and "CHR '']'' \<notin> set p"
  shows "splitHostPort (h @ '':'' @ p) = Some (h, p)"
proof -
  have "takeWhile (\<lambda>x. x \<noteq> CHR '':'') (rev p @ CHR '':'' # rev h) = rev p"
    using assms(4) by (subst takeWhile_append2) auto
  then have "last_index (h @ '':'' @ p) (CHR '':'') = Some (length h)" by (simp add: last_index_def)
  moreover have "\<not> hasPrefix (h @ '':'' @ p) ''[''"
    using assms(2) by (cases h) (auto simp: hasPrefix_def)
  ultimately show ?thesis using assms by (auto simp: splitHostPort_def)
qed

end
