(* ===== verification/Request.thy ===== *)
theory Request
  imports Url DbSystem
begin

text \<open>
  What a handler of \<^verbatim>\<open>api/rest\<close> sees and returns: the configuration, a request, a response, and the
  helpers of \<^verbatim>\<open>handler.go\<close>.  Header and query lookups that find nothing give the empty string, as
  in \<^verbatim>\<open>net/http\<close>; a request that reached a handler always has a body, possibly empty.  A response
  holds the value given to the JSON encoder.  The two library functions that are not modelled,
  \<^verbatim>\<open>url.Parse\<close> and the parsing of a PEM certificate, are the parameter \<open>lib\<close>.
\<close>

section \<open>Configuration\<close>

record handler_config =
  cfg_admin_token :: string
  cfg_enrollment_token :: string
  cfg_pool_size :: int
  cfg_base_image :: string
  cfg_http_addr :: string
  cfg_tls_enabled :: bool
  cfg_worker_public_host :: string
  cfg_browser_public_host :: string
  cfg_access_team_domain :: string
  cfg_access_aud :: string
  cfg_access_issuer_url :: string
  cfg_access_jwks_url :: string
  cfg_access_allowed_email_domain :: string

text \<open>
  Of a parsed URL: its host, and its text once path, query and fragment are cleared.
\<close>

record url =
  url_host :: string
  url_origin :: string

record rsa_public_key =
  rsa_n :: nat
  rsa_e :: int

record lib =
  url_parse :: "string \<Rightarrow> url option"
  pem_public_key :: "string \<Rightarrow> (string + rsa_public_key)"

section \<open>Requests\<close>

text \<open>
  \<open>rq_path\<close> is the decoded path of the URL, \<open>rq_segments\<close> the segments of its encoded form, each
  decoded, as the multiplexer matches them.  \<open>rq_form\<close> is what \<^verbatim>\<open>ParseMultipartForm\<close> makes of the body: an error, or the version field and the
  content of the binary part, if there is one.
\<close>

record authenticated_worker =
  aw_id :: id
  aw_hardware_uuid :: string

record request =
  rq_method :: string
  rq_path :: string
  rq_segments :: "string list"
  rq_raw_query :: string
  rq_host :: string
  rq_forwarded_host :: string
  rq_authorization :: string
  rq_access_jwt :: string
  rq_access_cookie :: "string option"
  rq_path_id :: string
  rq_path_version :: string
  rq_body :: string
  rq_form :: "(string \<times> string option) option"
  rq_worker :: "authenticated_worker option"
  rq_member :: "member option"

definition query_get :: "request \<Rightarrow> string \<Rightarrow> string" where
  "query_get r key = (case map_of (parse_query (rq_raw_query r)) key of None \<Rightarrow> [] | Some v \<Rightarrow> v)"

definition currentWorker :: "request \<Rightarrow> authenticated_worker option" where
  "currentWorker r = rq_worker r"

definition currentMember :: "request \<Rightarrow> member option" where
  "currentMember r = rq_member r"

definition adminToken :: "handler_config \<Rightarrow> string" where
  "adminToken cfg = cfg_admin_token cfg"

definition enrollmentToken :: "handler_config \<Rightarrow> string" where
  "enrollmentToken cfg = cfg_enrollment_token cfg"

section \<open>Responses\<close>

record browser_vm =
  bv_id :: id
  bv_worker_id :: id
  bv_state :: string
  bv_ip_address :: string
  bv_state_since :: time
  bv_created_at :: time

record pending_resp =
  pr_session_id :: id
  pr_target :: string
  pr_vm_id :: id
  pr_port :: int
  pr_token :: string

datatype payload =
    PStrings "(string \<times> string) list"
  | PMember member
  | PWorkstation workstation
  | PWorkstations "workstation list"
  | PWorkers "(worker \<times> browser_vm list) list"
  | PRelease release
  | PRegistered id int string "string option"
  | PHeartbeat string "(id \<times> string \<times> int \<times> string) list"
  | PSession id string
  | PPending "pending_resp list"

text \<open>
  \<open>RPanic\<close> is a handler that panics: the server aborts the connection without a response.  A
  handler that took over its connection ends as \<open>RWebSocket\<close> with the status and reason it closed
  the connection with, if it did.
\<close>

datatype response =
    RJson nat payload
  | RText nat "(string \<times> string) list" string
  | RFile "(string \<times> string) list" string
  | RRedirect nat string
  | RWebSocket "(nat \<times> string) option"
  | RPanic

definition writeJSON :: "nat \<Rightarrow> payload \<Rightarrow> response" where
  "writeJSON status v = RJson status v"

definition writeError :: "nat \<Rightarrow> string \<Rightarrow> response" where
  "writeError status message = writeJSON status (PStrings [(''error'', message)])"

text \<open>\<^verbatim>\<open>http.NotFound\<close> and \<^verbatim>\<open>w.WriteHeader\<close>.\<close>

definition httpNotFound :: response where
  "httpNotFound = RText 404 [] ''404 page not found''"

definition writeHeader :: "nat \<Rightarrow> response" where
  "writeHeader status = RText status [] []"

fun status_of :: "response \<Rightarrow> nat" where
  "status_of (RJson s _) = s"
| "status_of (RText s _ _) = s"
| "status_of (RFile _ _) = 200"
| "status_of (RRedirect s _) = s"
| "status_of (RWebSocket _) = 101"
| "status_of RPanic = 0"

lemma status_of_write [simp]:
  "status_of (writeJSON s v) = s" "status_of (writeError s m) = s" "status_of httpNotFound = 404"
  "status_of (writeHeader s) = s"
  by (simp_all add: writeJSON_def writeError_def httpNotFound_def writeHeader_def)

record api_error =
  ae_status :: nat
  ae_message :: string

definition apiError :: "nat \<Rightarrow> string \<Rightarrow> api_error" where
  "apiError status message = \<lparr>ae_status = status, ae_message = message\<rparr>"

definition write_api_error :: "api_error \<Rightarrow> response" where
  "write_api_error e = writeError (ae_status e) (ae_message e)"

section \<open>Helpers\<close>

definition maxJSONBodyBytes :: nat where
  "maxJSONBodyBytes = 2 ^ 20"

definition maxProxyMessageBytes :: nat where
  "maxProxyMessageBytes = 8 * 2 ^ 20"

definition bearerToken :: "string \<Rightarrow> string" where
  "bearerToken header = (let (token, ok) = cutPrefix header ''Bearer ''
     in if \<not> ok then [] else trimSpace token)"

definition tokensMatch :: "string \<Rightarrow> string \<Rightarrow> bool" where
  "tokensMatch expected actual = (if expected = [] \<or> actual = [] then False else expected = actual)"

definition parsePositiveQueryInt :: "request \<Rightarrow> string \<Rightarrow> int \<Rightarrow> int" where
  "parsePositiveQueryInt r key fallback =
     (let v = trimSpace (query_get r key)
      in if v = [] then fallback
         else case atoi v of None \<Rightarrow> fallback | Some parsed \<Rightarrow> if parsed \<le> 0 then fallback else parsed)"

definition decodeJSONBody :: "'r field list \<Rightarrow> 'r \<Rightarrow> request \<Rightarrow> 'r option" where
  "decodeJSONBody fs zero r =
     (case decode_first (take maxJSONBodyBytes (rq_body r)) of
        None \<Rightarrow> None
      | Some j \<Rightarrow> decode_struct True fs j zero)"

lemma tokensMatch_iff [simp]: "tokensMatch a b \<longleftrightarrow> a = b \<and> a \<noteq> []"
  by (auto simp: tokensMatch_def)

lemma tokensMatch_blank: "\<not> tokensMatch [] t" "\<not> tokensMatch t []"
  by simp_all

lemma bearerToken_prefix: "bearerToken h \<noteq> [] \<Longrightarrow> hasPrefix h ''Bearer ''"
  by (auto simp: bearerToken_def cutPrefix_def split: if_splits)

lemma bearerToken_of:
  "list_all (\<lambda>c. \<not> is_space c) t \<Longrightarrow> bearerToken (''Bearer '' @ t) = t"
  using cutPrefix_append [of "''Bearer ''" t] by (simp add: bearerToken_def trimSpace_no_space)

lemma decodeJSONBody_print:
  assumes "json_ok j" and "rq_body r = print_json j" and "length (print_json j) \<le> maxJSONBodyBytes"
  shows "decodeJSONBody fs zero r = decode_struct True fs j zero"
  using assms decode_first_print [of j "[]"] by (simp add: decodeJSONBody_def stops_def)

lemma decodeJSONBody_empty: "rq_body r = [] \<Longrightarrow> decodeJSONBody fs zero r = None"
  by (simp add: decodeJSONBody_def decode_first_def parse_fuel_def expect_def skip_ws_def
      parse_literal_def hasPrefix_def parse_number_def parse_integer_def digit_span_def of_option_def
      bind_parsed_def Let_def numeral_2_eq_2)

end
