(* ===== verification/Host.thy ===== *)
theory Host
  imports Request
begin

text \<open>
  Host names: how the server normalises the host a request came for, and which host names its
  browser and worker routes answer to (\<^verbatim>\<open>api/rest/host.go\<close>).
\<close>

section \<open>Definitions\<close>

definition normalizeHost :: "lib \<Rightarrow> string \<Rightarrow> string" where
  "normalizeHost lb v0 =
     (let v1 = trimSpace (toLower v0)
      in if v1 = [] then []
         else let v = (if contains v1 ''://''
                       then case url_parse lb v1 of Some u \<Rightarrow> trimSpace (url_host u) | None \<Rightarrow> v1
                       else v1)
              in if hasPrefix v ''[''
                 then (let (address, _, found) = cut v '']''
                       in if found then trimPrefix address ''['' else v)
                 else (let (host, _, found) = cut v '':''
                       in if found \<and> \<not> contains host '':'' \<and> host \<noteq> [] then host else v))"

definition requestHost :: "lib \<Rightarrow> request \<Rightarrow> string" where
  "requestHost lb r =
     (let forwarded = trimSpace (rq_forwarded_host r)
      in if forwarded \<noteq> []
         then (let (first, _, ok) = cut forwarded '',''
               in if ok then normalizeHost lb first else normalizeHost lb forwarded)
         else normalizeHost lb (rq_host r))"

definition hostMatches :: "lib \<Rightarrow> string \<Rightarrow> string \<Rightarrow> bool" where
  "hostMatches lb configuredHost actualHost =
     (let configured = normalizeHost lb configuredHost; actual = normalizeHost lb actualHost
      in if configured = [] then True else configured = actual)"

definition matchesBrowserHost :: "lib \<Rightarrow> handler_config \<Rightarrow> request \<Rightarrow> bool" where
  "matchesBrowserHost lb cfg r = hostMatches lb (cfg_browser_public_host cfg) (requestHost lb r)"

definition matchesWorkerHost :: "lib \<Rightarrow> handler_config \<Rightarrow> request \<Rightarrow> bool" where
  "matchesWorkerHost lb cfg r = hostMatches lb (cfg_worker_public_host cfg) (requestHost lb r)"

definition workerScriptAddress :: "lib \<Rightarrow> handler_config \<Rightarrow> request \<Rightarrow> string" where
  "workerScriptAddress lb cfg r =
     (let configured = normalizeHost lb (cfg_worker_public_host cfg)
      in if configured \<noteq> [] then configured else requestHost lb r)"

section \<open>Plain host names\<close>

text \<open>A host name or IPv4 address: no white space, no colon, no bracket, no comma.\<close>

definition plain_host :: "string \<Rightarrow> bool" where
  "plain_host h = (h \<noteq> [] \<and> list_all (\<lambda>c. \<not> is_space c \<and> c \<notin> set '':[,'') h)"

lemma lower_char_punct:
  "lower_char c = CHR '':'' \<longleftrightarrow> c = CHR '':''" "lower_char c = CHR ''['' \<longleftrightarrow> c = CHR ''[''"
  "lower_char c = CHR '','' \<longleftrightarrow> c = CHR '',''"
proof -
  have "(of_char c :: nat) < 256" by simp
  then have *: "lower_char c = d \<longleftrightarrow> c = d" if "(of_char d :: nat) < 65 \<or> 90 < (of_char d :: nat) \<and> (of_char d :: nat) < 97" for d
    using that by (auto simp: lower_char_def Let_def)
  show "lower_char c = CHR '':'' \<longleftrightarrow> c = CHR '':''" "lower_char c = CHR ''['' \<longleftrightarrow> c = CHR ''[''"
    "lower_char c = CHR '','' \<longleftrightarrow> c = CHR '',''" by (rule *, simp)+
qed

lemma plain_host_lower: "plain_host h \<Longrightarrow> plain_host (toLower h)"
  by (auto simp: plain_host_def toLower_def list_all_iff lower_char_punct)

lemma plain_hostD:
  assumes "plain_host h"
  shows "h \<noteq> []" "CHR '':'' \<notin> set h" "CHR '','' \<notin> set h" "trimSpace h = h" "\<not> hasPrefix (h @ t) ''[''"
proof -
  show "h \<noteq> []" "CHR '':'' \<notin> set h" "CHR '','' \<notin> set h" using assms by (auto simp: plain_host_def list_all_iff)
  show "trimSpace h = h" using assms by (intro trimSpace_no_space) (auto simp: plain_host_def list_all_iff)
  show "\<not> hasPrefix (h @ t) ''[''"
    using assms by (cases h) (auto simp: hasPrefix_def plain_host_def)
qed

lemma contains_colon: "contains s ''://'' \<Longrightarrow> CHR '':'' \<in> set s"
proof -
  assume "contains s ''://''"
  then obtain i where "indexOf s ''://'' = Some i" by (auto simp: contains_def)
  from indexOf_Some [OF this] have "set ''://'' \<subseteq> set s" by (metis Un_iff set_append subsetI)
  then show ?thesis by simp
qed

lemma normalizeHost_Nil [simp]: "normalizeHost lb [] = []"
  by (simp add: normalizeHost_def toLower_def)

lemma normalizeHost_plain: "plain_host h \<Longrightarrow> normalizeHost lb h = toLower h"
proof -
  assume h: "plain_host h"
  note l = plain_hostD [OF plain_host_lower [OF h]]
  have "\<not> contains (toLower h) ''://''" using l(2) contains_colon by blast
  then show ?thesis
    using l l(5) [of "[]"] by (simp add: normalizeHost_def Let_def cut_single_none)
qed

text \<open>A port: nothing, or a colon and digits.\<close>

definition port_suffix :: "string \<Rightarrow> bool" where
  "port_suffix p = (p = [] \<or> (hd p = CHR '':'' \<and> list_all is_digit (tl p)))"

lemma lower_digits: "list_all is_digit s \<Longrightarrow> toLower s = s"
proof -
  assume "list_all is_digit s"
  then have "lower_char c = c" if "c \<in> set s" for c
    using that by (auto simp: list_all_iff is_digit_def lower_char_def Let_def)
  then show ?thesis by (simp add: toLower_def map_idI)
qed

lemma digit_not_punct:
  assumes "is_digit c"
  shows "\<not> is_space c" "c \<noteq> CHR '':''" "c \<noteq> CHR ''/''"
  using assms by (auto simp: is_digit_def is_space_def)

lemma port_suffix_chars:
  assumes "port_suffix p"
  shows "toLower p = p \<and> list_all (\<lambda>c. \<not> is_space c \<and> c \<noteq> CHR ''/'') p"
proof (cases p)
  case (Cons c q)
  then have c: "c = CHR '':''" and q: "list_all is_digit q" using assms by (auto simp: port_suffix_def)
  have "lower_char CHR '':'' = CHR '':''" by (simp add: lower_char_punct)
  with c lower_digits [OF q] Cons have "toLower p = p" by (simp add: toLower_def)
  moreover have "\<not> is_space CHR '':''" by (simp add: is_space_def)
  with c q Cons digit_not_punct have "list_all (\<lambda>c. \<not> is_space c \<and> c \<noteq> CHR ''/'') p"
    by (simp add: list_all_iff)
  ultimately show ?thesis by simp
qed (simp_all add: toLower_def)

lemma contains_Cons: "contains (c # s) sub \<longleftrightarrow> prefix sub (c # s) \<or> contains s sub"
  by (simp add: contains_def)

lemma port_no_scheme:
  assumes "CHR '':'' \<notin> set h" and "list_all is_digit p"
  shows "\<not> contains (h @ CHR '':'' # p) ''://''"
  using assms(1)
proof (induction h)
  case Nil
  have "CHR '':'' \<notin> set p" and "CHR ''/'' \<notin> set p"
    using assms(2) digit_not_punct by (auto simp: list_all_iff)
  then show ?case using contains_colon [of p] by (cases p) (auto simp: contains_Cons)
qed (auto simp: contains_Cons)

lemma normalizeHost_port:
  assumes "plain_host h" and "port_suffix p"
  shows "normalizeHost lb (h @ p) = toLower h"
proof (cases "p = []")
  case True
  with assms show ?thesis by (simp add: normalizeHost_plain)
next
  case False
  then obtain q where p: "p = CHR '':'' # q" and q: "list_all is_digit q"
    using assms(2) by (cases p) (auto simp: port_suffix_def)
  note l = plain_hostD [OF plain_host_lower [OF assms(1)]]
  have lower: "toLower (h @ p) = toLower h @ CHR '':'' # q"
    using lower_digits [OF q] by (simp add: p toLower_def lower_char_punct)
  have "list_all (\<lambda>c. \<not> is_space c) (toLower h @ CHR '':'' # q)"
  proof -
    have "\<not> is_space c" if "c \<in> set (toLower h)" for c
      using plain_host_lower [OF assms(1)] that by (simp add: plain_host_def list_all_iff)
    moreover have "\<not> is_space c" if "c \<in> set q" for c
      using q that digit_not_punct(1) by (simp add: list_all_iff)
    moreover have "\<not> is_space CHR '':''" by (simp add: is_space_def)
    ultimately show ?thesis by (auto simp: list_all_iff)
  qed
  then have trim: "trimSpace (toLower (h @ p)) = toLower h @ CHR '':'' # q"
    by (simp add: lower trimSpace_no_space)
  have "\<not> contains (toLower h @ CHR '':'' # q) ''://''" using l(2) q by (rule port_no_scheme)
  then show ?thesis
    unfolding normalizeHost_def trim
    using l by (simp add: Let_def cut_single)
qed

section \<open>What the host check admits\<close>

lemma requestHost_direct:
  "trimSpace (rq_forwarded_host r) = [] \<Longrightarrow> requestHost lb r = normalizeHost lb (rq_host r)"
  by (simp add: requestHost_def)

lemma requestHost_forwarded:
  assumes "rq_forwarded_host r = h @ CHR '','' # rest" and "plain_host h"
  shows "requestHost lb r = toLower h"
proof -
  have f: "\<exists>rest'. trimSpace (rq_forwarded_host r) = h @ CHR '','' # rest'"
  proof -
    have hd: "dropWhile is_space (h @ CHR '','' # rest) = h @ CHR '','' # rest"
      using assms(2) by (cases h) (auto simp: plain_host_def)
    have "dropWhile is_space (rev rest @ CHR '','' # rev h) =
        dropWhile is_space (rev rest) @ CHR '','' # rev h"
      by (cases "list_all is_space (rev rest)")
        (auto simp: dropWhile_append list_all_iff is_space_def)
    then have "trimSpace (h @ CHR '','' # rest) = h @ CHR '','' # rev (dropWhile is_space (rev rest))"
      by (simp add: trimSpace_def hd)
    then show ?thesis using assms(1) by metis
  qed
  then obtain rest' where "trimSpace (rq_forwarded_host r) = h @ CHR '','' # rest'" by blast
  with assms(2) plain_hostD(3) [OF assms(2)] show ?thesis
    by (simp add: requestHost_def Let_def cut_single normalizeHost_plain)
qed


definition sample_config :: handler_config where
  "sample_config = \<lparr>cfg_admin_token = ''adm'', cfg_enrollment_token = ''enr'', cfg_pool_size = 2,
     cfg_base_image = ''base'', cfg_http_addr = '':8080'', cfg_tls_enabled = False,
     cfg_worker_public_host = [], cfg_browser_public_host = [], cfg_access_team_domain = [],
     cfg_access_aud = ''aud'', cfg_access_issuer_url = ''https://t'', cfg_access_jwks_url = [],
     cfg_access_allowed_email_domain = []\<rparr>"

definition sample_request :: request where
  "sample_request = \<lparr>rq_method = ''GET'', rq_path = ''/'', rq_segments = [[]], rq_raw_query = [], rq_host = ''Mini.example:8443'', rq_forwarded_host = [], rq_authorization = [],
     rq_access_jwt = [], rq_access_cookie = None, rq_path_id = [], rq_path_version = [],
     rq_body = [], rq_form = None, rq_worker = None, rq_member = None\<rparr>"

definition sample_lib :: lib where
  "sample_lib = \<lparr>url_parse = (\<lambda>_. None), pem_public_key = (\<lambda>_. Inl ''invalid PEM certificate'')\<rparr>"


section \<open>Bracketed IPv6 addresses\<close>

text \<open>
  The host of a request is normalised twice, when it is read and when it is compared; the second
  pass takes an address without its brackets for a host with a port.
\<close>



end
