(* ===== verification/Access.thy ===== *)
theory Access
  imports Request "HOL-Library.AList"
begin

text \<open>
  Verification of the Access tokens browsers present (\<^verbatim>\<open>api/rest/access.go\<close>): parsing, the checks on
  the claims, the key set document and the signature.  Base64 and the PKCS #1 v1.5 check of RSA
  are those of the Go library, written out; parsing a PEM certificate is a parameter (\<open>lib\<close>).  The
  cache of keys and the requests that fill it are shared state and follow in \<^verbatim>\<open>Auth\<close>.
\<close>

section \<open>Library functions\<close>

subsection \<open>base64.RawURLEncoding\<close>

definition b64_val :: "char \<Rightarrow> nat option" where
  "b64_val c = (let n = (of_char c :: nat)
     in if 65 \<le> n \<and> n \<le> 90 then Some (n - 65)
        else if 97 \<le> n \<and> n \<le> 122 then Some (n - 71)
        else if 48 \<le> n \<and> n \<le> 57 then Some (n + 4)
        else if c = CHR ''-'' then Some 62
        else if c = CHR ''_'' then Some 63 else None)"

fun b64_groups :: "nat list \<Rightarrow> string option" where
  "b64_groups [] = Some []"
| "b64_groups [a] = None"
| "b64_groups [a, b] = Some [char_of (a * 4 + b div 16)]"
| "b64_groups [a, b, c] = Some [char_of (a * 4 + b div 16), char_of (b mod 16 * 16 + c div 4)]"
| "b64_groups (a # b # c # d # r) = map_option
     (\<lambda>s. char_of (a * 4 + b div 16) # char_of (b mod 16 * 16 + c div 4) # char_of (c mod 4 * 64 + d) # s)
     (b64_groups r)"

text \<open>Line breaks are skipped, bits left over in the last digit are ignored.\<close>

definition b64_decode :: "string \<Rightarrow> string option" where
  "b64_decode s = (case those (map b64_val (filter (\<lambda>c. c \<notin> set [CHR 0x0A, CHR 0x0D]) s)) of
     None \<Rightarrow> None | Some vs \<Rightarrow> b64_groups vs)"

subsection \<open>rsa.VerifyPKCS1v15 with SHA-256\<close>

fun be_nat :: "string \<Rightarrow> nat \<Rightarrow> nat" where
  "be_nat [] acc = acc"
| "be_nat (c # s) acc = be_nat s (acc * 256 + of_char c)"

fun bit_len :: "nat \<Rightarrow> nat" where
  "bit_len n = (if n = 0 then 0 else Suc (bit_len (n div 2)))"

declare bit_len.simps [simp del]

definition rsa_size :: "rsa_public_key \<Rightarrow> nat" where
  "rsa_size k = (bit_len (rsa_n k) + 7) div 8"

text \<open>Keys the library refuses: short or even moduli, exponents out of range or even.\<close>

definition rsa_key_ok :: "rsa_public_key \<Rightarrow> bool" where
  "rsa_key_ok k = (1024 \<le> bit_len (rsa_n k) \<and> odd (rsa_n k) \<and> 2 \<le> rsa_e k \<and> odd (rsa_e k) \<and>
     rsa_e k \<le> 2 ^ 31 - 1)"

definition sha256_digest_info :: string where
  "sha256_digest_info = map (\<lambda>n. char_of (n :: nat))
     [48, 49, 48, 13, 6, 9, 96, 134, 72, 1, 101, 3, 4, 2, 1, 5, 0, 4, 32]"

definition pkcs1_encode :: "nat \<Rightarrow> string \<Rightarrow> string" where
  "pkcs1_encode len digest =
     CHR 0x00 # CHR 0x01 # replicate (len - 3 - length (sha256_digest_info @ digest)) CHR 0xFF @
       CHR 0x00 # sha256_digest_info @ digest"

definition verifyPKCS1v15 :: "rsa_public_key \<Rightarrow> string \<Rightarrow> string \<Rightarrow> bool" where
  "verifyPKCS1v15 k digest sig =
     (rsa_key_ok k \<and> length sig = rsa_size k \<and> be_nat sig 0 < rsa_n k \<and>
      length (sha256_digest_info @ digest) + 11 \<le> rsa_size k \<and>
      be_nat sig 0 ^ nat (rsa_e k) mod rsa_n k = be_nat (pkcs1_encode (rsa_size k) digest) 0)"

section \<open>The verifier\<close>

record access_verifier =
  av_audience :: string
  av_issuer_url :: string
  av_certs_url :: string
  av_allowed_email_domain :: string

datatype access_error =
    InvalidTokenFormat | DecodeHeader | ParseHeader | UnsupportedAlg | MissingKeyID
  | DecodePayload | ParsePayload | UnexpectedIssuer | UnexpectedType | AudienceMismatch
  | TokenExpired | TokenNotValidYet | MissingSubject | MissingEmail | EmailDomainNotAllowed
  | FetchCerts | ParseCerts | NoUsableKeys | UnknownKeyID | DecodeSignature | InvalidSignature

record jwt_header =
  jh_alg :: string
  jh_kid :: string
  jh_typ :: string

record access_claims =
  cl_audience :: "string list"
  cl_email :: string
  cl_expires :: int
  cl_issued_at :: int
  cl_not_before :: int
  cl_issuer :: string
  cl_type :: string
  cl_subject :: string

definition normalizeAccessEmailDomain :: "string \<Rightarrow> string" where
  "normalizeAccessEmailDomain domain = trimPrefix (trimSpace (toLower domain)) ''@''"

definition newAccessVerifier :: "lib \<Rightarrow> handler_config \<Rightarrow> string + access_verifier option" where
  "newAccessVerifier lb cfg =
     (if cfg_access_aud cfg = [] then Inr None
      else let finish = (\<lambda>issuerURL.
                 let certsURL = trimSpace (cfg_access_jwks_url cfg)
                 in Inr (Some \<lparr>av_audience = cfg_access_aud cfg, av_issuer_url = issuerURL,
                      av_certs_url = (if certsURL = [] then issuerURL @ ''/cdn-cgi/access/certs'' else certsURL),
                      av_allowed_email_domain = normalizeAccessEmailDomain (cfg_access_allowed_email_domain cfg)\<rparr>));
               issuerURL = trimRight (cfg_access_issuer_url cfg) CHR ''/''
           in if issuerURL \<noteq> [] then finish issuerURL
              else if cfg_access_team_domain cfg = []
                   then Inl ''access_team_domain is required when access_aud is configured''
              else let raw0 = trimSpace (cfg_access_team_domain cfg);
                       raw = (if contains raw0 ''://'' then raw0 else ''https://'' @ raw0)
                   in case url_parse lb raw of
                        None \<Rightarrow> Inl ''invalid access_team_domain''
                      | Some u \<Rightarrow> if url_host u = [] then Inl ''invalid access_team_domain''
                          else finish (trimRight (url_origin u) CHR ''/''))"

subsection \<open>Decoding\<close>

definition audience_field :: "json \<Rightarrow> access_claims \<Rightarrow> access_claims option" where
  "audience_field j c = (case decode_slice decode_str [] [] j of
     Some many \<Rightarrow> Some (c\<lparr>cl_audience := many\<rparr>)
   | None \<Rightarrow> (case decode_str [] j of
       Some single \<Rightarrow> Some (c\<lparr>cl_audience := [single]\<rparr>)
     | None \<Rightarrow> None))"

definition header_fields :: "jwt_header field list" where
  "header_fields =
     [(''alg'', str_field (\<lambda>v h. h\<lparr>jh_alg := v\<rparr>)), (''kid'', str_field (\<lambda>v h. h\<lparr>jh_kid := v\<rparr>)),
      (''typ'', str_field (\<lambda>v h. h\<lparr>jh_typ := v\<rparr>))]"

definition claims_fields :: "access_claims field list" where
  "claims_fields =
     [(''aud'', audience_field), (''email'', str_field (\<lambda>v c. c\<lparr>cl_email := v\<rparr>)),
      (''exp'', int_field (\<lambda>v c. c\<lparr>cl_expires := v\<rparr>)), (''iat'', int_field (\<lambda>v c. c\<lparr>cl_issued_at := v\<rparr>)),
      (''nbf'', int_field (\<lambda>v c. c\<lparr>cl_not_before := v\<rparr>)), (''iss'', str_field (\<lambda>v c. c\<lparr>cl_issuer := v\<rparr>)),
      (''type'', str_field (\<lambda>v c. c\<lparr>cl_type := v\<rparr>)), (''sub'', str_field (\<lambda>v c. c\<lparr>cl_subject := v\<rparr>))]"

definition zero_header :: jwt_header where
  "zero_header = \<lparr>jh_alg = [], jh_kid = [], jh_typ = []\<rparr>"

definition zero_claims :: access_claims where
  "zero_claims = \<lparr>cl_audience = [], cl_email = [], cl_expires = 0, cl_issued_at = 0, cl_not_before = 0,
     cl_issuer = [], cl_type = [], cl_subject = []\<rparr>"

definition unmarshal_struct :: "'r field list \<Rightarrow> 'r \<Rightarrow> string \<Rightarrow> 'r option" where
  "unmarshal_struct fs zero s =
     (case unmarshal s of None \<Rightarrow> None | Some j \<Rightarrow> decode_struct False fs j zero)"

subsection \<open>Claims\<close>

definition containsString :: "string list \<Rightarrow> string \<Rightarrow> bool" where
  "containsString vals target = list_ex (\<lambda>v. v = target) vals"

definition accessEmailMatchesDomain :: "string \<Rightarrow> string \<Rightarrow> bool" where
  "accessEmailMatchesDomain email0 domain0 =
     (let email = trimSpace (toLower email0); domain = normalizeAccessEmailDomain domain0
      in if email = [] \<or> domain = [] then False else hasSuffix email (''@'' @ domain))"

definition unix_seconds :: "time \<Rightarrow> int" where
  "unix_seconds t = t div second"

definition validateClaims :: "access_verifier \<Rightarrow> time \<Rightarrow> access_claims \<Rightarrow> access_error option" where
  "validateClaims v clock claims =
     (let now = unix_seconds clock
      in if cl_issuer claims \<noteq> av_issuer_url v then Some UnexpectedIssuer
         else if cl_type claims \<noteq> ''app'' then Some UnexpectedType
         else if \<not> containsString (cl_audience claims) (av_audience v) then Some AudienceMismatch
         else if cl_expires claims = 0 \<or> now \<ge> cl_expires claims then Some TokenExpired
         else if cl_not_before claims \<noteq> 0 \<and> now + 60 < cl_not_before claims then Some TokenNotValidYet
         else if cl_subject claims = [] then Some MissingSubject
         else if cl_email claims = [] then Some MissingEmail
         else if av_allowed_email_domain v \<noteq> [] \<and>
                 \<not> accessEmailMatchesDomain (cl_email claims) (av_allowed_email_domain v)
              then Some EmailDomainNotAllowed
         else None)"

text \<open>The part of \<^verbatim>\<open>Verify\<close> before the key is looked up: the key identifier and the claims.\<close>

definition parse_token :: "access_verifier \<Rightarrow> time \<Rightarrow> string \<Rightarrow> access_error + string \<times> access_claims" where
  "parse_token v clock token = (case split_on CHR ''.'' token of
     [p0, p1, p2] \<Rightarrow>
      (case b64_decode p0 of None \<Rightarrow> Inl DecodeHeader
       | Some headerBytes \<Rightarrow> (case unmarshal_struct header_fields zero_header headerBytes of None \<Rightarrow> Inl ParseHeader
       | Some header \<Rightarrow>
          if jh_alg header \<noteq> ''RS256'' then Inl UnsupportedAlg
          else if jh_kid header = [] then Inl MissingKeyID
          else (case b64_decode p1 of None \<Rightarrow> Inl DecodePayload
           | Some payloadBytes \<Rightarrow> (case unmarshal_struct claims_fields zero_claims payloadBytes of None \<Rightarrow> Inl ParsePayload
           | Some claims \<Rightarrow> (case validateClaims v clock claims of
               Some e \<Rightarrow> Inl e
             | None \<Rightarrow> Inr (jh_kid header, claims))))))
   | _ \<Rightarrow> Inl InvalidTokenFormat)"

text \<open>The part after it: the signature over the first two parts of the token.\<close>

definition check_signature :: "rsa_public_key \<Rightarrow> string \<Rightarrow> access_error option" where
  "check_signature key token = (case split_on CHR ''.'' token of
     [p0, p1, p2] \<Rightarrow>
      (case b64_decode p2 of
         None \<Rightarrow> Some DecodeSignature
       | Some sig \<Rightarrow> if verifyPKCS1v15 key (sha256 (p0 @ ''.'' @ p1)) sig then None else Some InvalidSignature)
   | _ \<Rightarrow> Some InvalidTokenFormat)"

section \<open>The key set\<close>

type_synonym key_set = "(string \<times> rsa_public_key) list"

record public_cert =
  pc_kid :: string
  pc_cert :: string

record jwk =
  jwk_kid :: string
  jwk_kty :: string
  jwk_use :: string
  jwk_alg :: string
  jwk_n :: string
  jwk_e :: string

record cert_response =
  cr_public_certs :: "public_cert list"
  cr_keys :: "jwk list"

definition zero_cert :: public_cert where
  "zero_cert = \<lparr>pc_kid = [], pc_cert = []\<rparr>"

definition zero_jwk :: jwk where
  "zero_jwk = \<lparr>jwk_kid = [], jwk_kty = [], jwk_use = [], jwk_alg = [], jwk_n = [], jwk_e = []\<rparr>"

definition cert_fields :: "public_cert field list" where
  "cert_fields = [(''kid'', str_field (\<lambda>v c. c\<lparr>pc_kid := v\<rparr>)), (''cert'', str_field (\<lambda>v c. c\<lparr>pc_cert := v\<rparr>))]"

definition jwk_fields :: "jwk field list" where
  "jwk_fields = [(''kid'', str_field (\<lambda>v c. c\<lparr>jwk_kid := v\<rparr>)), (''kty'', str_field (\<lambda>v c. c\<lparr>jwk_kty := v\<rparr>)),
     (''use'', str_field (\<lambda>v c. c\<lparr>jwk_use := v\<rparr>)), (''alg'', str_field (\<lambda>v c. c\<lparr>jwk_alg := v\<rparr>)),
     (''n'', str_field (\<lambda>v c. c\<lparr>jwk_n := v\<rparr>)), (''e'', str_field (\<lambda>v c. c\<lparr>jwk_e := v\<rparr>))]"

definition cert_response_fields :: "cert_response field list" where
  "cert_response_fields =
     [(''public_certs'', \<lambda>j c. map_option (\<lambda>v. c\<lparr>cr_public_certs := v\<rparr>)
         (decode_slice (\<lambda>r e. decode_struct False cert_fields e r) zero_cert (cr_public_certs c) j)),
      (''keys'', \<lambda>j c. map_option (\<lambda>v. c\<lparr>cr_keys := v\<rparr>)
         (decode_slice (\<lambda>r e. decode_struct False jwk_fields e r) zero_jwk (cr_keys c) j))]"

definition parseJWKPublicKey :: "string \<Rightarrow> string \<Rightarrow> rsa_public_key option" where
  "parseJWKPublicKey nRaw eRaw = (case b64_decode nRaw of None \<Rightarrow> None
   | Some nBytes \<Rightarrow> (case b64_decode eRaw of None \<Rightarrow> None
     | Some eBytes \<Rightarrow> if be_nat eBytes 0 < 2 ^ 63
         then Some \<lparr>rsa_n = be_nat nBytes 0, rsa_e = int (be_nat eBytes 0)\<rparr> else None))"

fun add_certs :: "lib \<Rightarrow> public_cert list \<Rightarrow> key_set \<Rightarrow> key_set option" where
  "add_certs lb [] ks = Some ks"
| "add_certs lb (c # cs) ks = (case pem_public_key lb (pc_cert c) of
     Inl _ \<Rightarrow> None
   | Inr key \<Rightarrow> add_certs lb cs (AList.update (pc_kid c) key ks))"

fun add_jwks :: "jwk list \<Rightarrow> key_set \<Rightarrow> key_set option" where
  "add_jwks [] ks = Some ks"
| "add_jwks (k # js) ks =
     (if jwk_kty k \<noteq> ''RSA'' \<or> jwk_kid k = [] then add_jwks js ks
      else case parseJWKPublicKey (jwk_n k) (jwk_e k) of
        None \<Rightarrow> None
      | Some key \<Rightarrow> add_jwks js (AList.update (jwk_kid k) key ks))"

definition parseAccessCerts :: "lib \<Rightarrow> string \<Rightarrow> access_error + key_set" where
  "parseAccessCerts lb body =
     (case unmarshal_struct cert_response_fields \<lparr>cr_public_certs = [], cr_keys = []\<rparr> body of
        None \<Rightarrow> Inl ParseCerts
      | Some p \<Rightarrow> (case add_certs lb (cr_public_certs p) [] of None \<Rightarrow> Inl ParseCerts
        | Some ks \<Rightarrow> (case add_jwks (cr_keys p) ks of None \<Rightarrow> Inl ParseCerts
          | Some result \<Rightarrow> if result = [] then Inl NoUsableKeys else Inr result)))"

end
