(* ===== verification/ReleasePaths.thy ===== *)
theory ReleasePaths
  imports Request
begin

text \<open>
  Where the binary of a release lives on disk (\<^verbatim>\<open>release/store.go\<close>), and what a signature says of
  it (\<^verbatim>\<open>release/codesign.go\<close>).  Paths are those of Unix.  Reading a Mach-O file and its CMS blob is
  the work of libraries and given by the parameter \<open>macho_lib\<close>.
\<close>

section \<open>Package filepath on absolute paths\<close>

fun resolve :: "string list \<Rightarrow> string list \<Rightarrow> string list" where
  "resolve stack [] = rev stack"
| "resolve stack (c # cs) =
     (if c = [] \<or> c = ''.'' then resolve stack cs
      else if c = ''..'' then resolve (tl stack) cs
      else resolve (c # stack) cs)"

definition components :: "string \<Rightarrow> string list" where
  "components p = resolve [] (split_on CHR ''/'' p)"

fun join_path :: "string list \<Rightarrow> string" where
  "join_path [] = []"
| "join_path [c] = c"
| "join_path (c # cs) = c @ CHR ''/'' # join_path cs"

definition isAbs :: "string \<Rightarrow> bool" where
  "isAbs p = hasPrefix p ''/''"

definition clean_abs :: "string \<Rightarrow> string" where
  "clean_abs p = CHR ''/'' # join_path (components p)"

definition path_join :: "string \<Rightarrow> string \<Rightarrow> string" where
  "path_join a b = clean_abs (a @ CHR ''/'' # b)"

text \<open>\<^verbatim>\<open>filepath.Abs\<close> in the working directory \<open>cwd\<close>.\<close>

definition path_abs :: "string \<Rightarrow> string \<Rightarrow> string" where
  "path_abs cwd p = (if isAbs p then clean_abs p else path_join cwd p)"

fun common_len :: "string list \<Rightarrow> string list \<Rightarrow> nat" where
  "common_len (a # as) (b # bs) = (if a = b then Suc (common_len as bs) else 0)"
| "common_len _ _ = 0"

text \<open>\<^verbatim>\<open>filepath.Rel\<close> of two absolute paths.\<close>

definition path_rel :: "string \<Rightarrow> string \<Rightarrow> string" where
  "path_rel base target =
     (let b = components base; t = components target; n = common_len b t;
          cs = replicate (length b - n) ''..'' @ drop n t
      in if cs = [] then ''.'' else join_path cs)"

section \<open>The store\<close>

record store =
  st_root :: string
  st_required_signing_id :: string

text \<open>\<open>mkdir_ok\<close> is the outcome of \<^verbatim>\<open>os.MkdirAll\<close>.\<close>

definition newStore :: "string \<Rightarrow> bool \<Rightarrow> string \<Rightarrow> string \<Rightarrow> string + store" where
  "newStore cwd mkdir_ok storagePath requiredSigningID =
     (if \<not> mkdir_ok then Inl ''create release storage dir''
      else Inr \<lparr>st_root = path_abs cwd storagePath, st_required_signing_id = requiredSigningID\<rparr>)"

text \<open>The pattern \<^verbatim>\<open>^[A-Za-z0-9][A-Za-z0-9._-]{0,63}$\<close>.\<close>

definition validateVersion :: "string \<Rightarrow> bool" where
  "validateVersion v = (case v of
     [] \<Rightarrow> False
   | c # cs \<Rightarrow> is_alnum c \<and> length cs \<le> 63 \<and> list_all (\<lambda>d. is_alnum d \<or> d \<in> set ''._-'') cs)"

definition isWithinStorage :: "store \<Rightarrow> string \<Rightarrow> bool" where
  "isWithinStorage st p =
     (let relPath = path_rel (st_root st) p
      in if relPath = ''..'' then False else \<not> hasPrefix relPath ''../'')"

definition releasePaths :: "store \<Rightarrow> string \<Rightarrow> string + string \<times> string" where
  "releasePaths st version =
     (if \<not> validateVersion version then Inl ''invalid version''
      else let versionDir = path_join (st_root st) version
           in if \<not> isWithinStorage st versionDir then Inl ''release version escapes storage root''
              else let finalPath = path_join versionDir ''minicontrol-worker''
                   in if \<not> isWithinStorage st finalPath then Inl ''release binary path escapes storage root''
                      else Inr (versionDir, finalPath))"

definition binaryPath :: "string \<Rightarrow> store \<Rightarrow> release \<Rightarrow> string + string" where
  "binaryPath cwd st r =
     (if rel_file_path r = [] then Inl ''release binary path is empty''
      else let absPath = path_abs cwd (rel_file_path r)
           in if \<not> isWithinStorage st absPath then Inl ''release binary path escapes storage root''
              else Inr absPath)"

section \<open>Signing information\<close>

record signing_info =
  si_id :: string
  si_team_id :: string
  si_common_name :: string
  si_cd_hash :: string

record code_directory =
  cd_id :: string
  cd_team_id :: string
  cd_hash :: string

record code_signature =
  cs_code_directories :: "code_directory list"
  cs_cms_signature :: string

text \<open>
  A Mach-O file is what matters of it, its code signature if it has one.  A certificate is whether
  it is a CA's and its common name.  \<open>cms_certificates\<close> are the certificates in a CMS blob.
\<close>

type_synonym macho_file = "code_signature option"

record macho_lib =
  macho_open :: "string \<Rightarrow> macho_file option"
  macho_open_fat :: "string \<Rightarrow> macho_file list option"
  cms_certificates :: "string \<Rightarrow> (bool \<times> string) list option"

definition extractCNFromCMS :: "macho_lib \<Rightarrow> string \<Rightarrow> string option" where
  "extractCNFromCMS ml cmsData = (case cms_certificates ml cmsData of
     None \<Rightarrow> None
   | Some [] \<Rightarrow> None
   | Some (c # cs) \<Rightarrow> (case List.find (\<lambda>(isCA, _). \<not> isCA) (c # cs) of
       Some (_, cn) \<Rightarrow> Some cn
     | None \<Rightarrow> Some (snd c)))"

definition extractFromFile :: "macho_lib \<Rightarrow> macho_file \<Rightarrow> signing_info option" where
  "extractFromFile ml f = (case f of
     None \<Rightarrow> None
   | Some cs \<Rightarrow>
      let info0 = (case cs_code_directories cs of
             [] \<Rightarrow> \<lparr>si_id = [], si_team_id = [], si_common_name = [], si_cd_hash = []\<rparr>
           | cd # _ \<Rightarrow> \<lparr>si_id = cd_id cd, si_team_id = cd_team_id cd, si_common_name = [], si_cd_hash = cd_hash cd\<rparr>);
          info = (if cs_cms_signature cs = [] then info0
            else case extractCNFromCMS ml (cs_cms_signature cs) of
               Some cn \<Rightarrow> info0\<lparr>si_common_name := cn\<rparr>
             | None \<Rightarrow> if si_team_id info0 = [] then info0
                 else info0\<lparr>si_common_name := ''(team: '' @ si_team_id info0 @ '', id: '' @ si_id info0 @ '')''\<rparr>)
      in if si_team_id info = [] \<and> si_common_name info = [] then None else Some info)"

definition extractSigningInfo :: "macho_lib \<Rightarrow> string \<Rightarrow> signing_info option" where
  "extractSigningInfo ml content = (case macho_open ml content of
     Some f \<Rightarrow> extractFromFile ml f
   | None \<Rightarrow> (case macho_open_fat ml content of
       None \<Rightarrow> None
     | Some [] \<Rightarrow> None
     | Some (f # _) \<Rightarrow> extractFromFile ml f))"

definition validateSigningIdentity :: "macho_lib \<Rightarrow> string \<Rightarrow> string \<Rightarrow> bool" where
  "validateSigningIdentity ml content requiredIdentity = (case extractSigningInfo ml content of
     None \<Rightarrow> False
   | Some info \<Rightarrow> si_common_name info = requiredIdentity)"

section \<open>Paths of valid versions\<close>

definition plain_component :: "string \<Rightarrow> bool" where
  "plain_component c = (c \<noteq> [] \<and> c \<noteq> ''.'' \<and> c \<noteq> ''..'' \<and> CHR ''/'' \<notin> set c)"

lemma resolve_append: "resolve stack (as @ bs) = resolve (rev (resolve stack as)) bs"
  by (induction as arbitrary: stack) auto

lemma components_snoc:
  assumes "plain_component c"
  shows "components (p @ CHR ''/'' # c) = components p @ [c]"
proof -
  have "split_on CHR ''/'' (p @ CHR ''/'' # c) = split_on CHR ''/'' p @ [c]"
    using assms split_on_none split_on_append by (simp add: plain_component_def)
  then show ?thesis using assms by (simp add: components_def resolve_append plain_component_def)
qed

lemma resolve_plain:
  "list_all plain_component stack \<Longrightarrow> list_all (\<lambda>c. CHR ''/'' \<notin> set c) cs \<Longrightarrow>
   list_all plain_component (resolve stack cs)"
proof (induction stack cs rule: resolve.induct)
  case (2 stack c cs)
  then show ?case by (cases stack) (auto simp: plain_component_def)
qed (simp add: list_all_iff)

lemma split_on_no_sep: "list_all (\<lambda>c. d \<notin> set c) (split_on d s)"
  by (induction s) (auto split: list.splits)

lemma components_plain: "list_all plain_component (components p)"
  by (simp add: components_def resolve_plain split_on_no_sep)

lemma resolve_id: "list_all plain_component cs \<Longrightarrow> resolve stack cs = rev stack @ cs"
  by (induction cs arbitrary: stack) (auto simp: plain_component_def)

lemma split_join: "list_all plain_component cs \<Longrightarrow> cs \<noteq> [] \<Longrightarrow> split_on CHR ''/'' (join_path cs) = cs"
  by (induction cs rule: join_path.induct) (auto simp: plain_component_def split_on_append split_on_none)

lemma components_clean [simp]: "components (clean_abs p) = components p"
proof (cases "components p = []")
  case True
  then show ?thesis by (simp add: clean_abs_def components_def)
next
  case False
  have "split_on CHR ''/'' (clean_abs p) = [] # components p"
    using split_join [OF components_plain False] by (simp add: clean_abs_def)
  then show ?thesis using resolve_id [OF components_plain] by (simp add: components_def)
qed

lemma join_path_inj:
  "list_all plain_component as \<Longrightarrow> list_all plain_component bs \<Longrightarrow> join_path as = join_path bs \<Longrightarrow> as = bs"
proof -
  assume a: "list_all plain_component as" "list_all plain_component bs" "join_path as = join_path bs"
  have ne: "join_path cs \<noteq> []" if "list_all plain_component cs" "cs \<noteq> []" for cs
    using that by (cases cs rule: join_path.cases) (auto simp: plain_component_def)
  show ?thesis
  proof (cases "as = [] \<or> bs = []")
    case True
    then show ?thesis using a ne by (metis join_path.simps(1))
  next
    case False
    then show ?thesis using a split_join by metis
  qed
qed

lemma components_join: "plain_component c \<Longrightarrow> components (path_join p c) = components p @ [c]"
  by (simp add: path_join_def components_snoc)

text \<open>Inside the storage means below it, component by component.\<close>

lemma common_len_prefix: "common_len b t = length b \<longleftrightarrow> prefix b t"
  by (induction b t rule: common_len.induct) auto

lemma common_len_le: "common_len b t \<le> length b"
  by (induction b t rule: common_len.induct) auto

lemma isWithinStorage_iff: "isWithinStorage st p \<longleftrightarrow> prefix (components (st_root st)) (components p)"
proof -
  let ?b = "components (st_root st)" and ?t = "components p"
  let ?n = "common_len ?b ?t"
  show ?thesis
  proof (cases "?n = length ?b")
    case True
    then have pre: "prefix ?b ?t" by (simp add: common_len_prefix)
    obtain u where u: "?t = ?b @ u" using pre by (auto simp: prefix_def)
    have plain: "list_all plain_component u" using components_plain [of p] u by simp
    have "path_rel (st_root st) p = (if u = [] then ''.'' else join_path u)"
      using True u by (simp add: path_rel_def Let_def)
    moreover have "join_path u \<noteq> ''..'' \<and> \<not> hasPrefix (join_path u) ''../''" if ne: "u \<noteq> []"
    proof -
      obtain c cs where c: "u = c # cs" using ne by (cases u) auto
      have pc: "plain_component c" using plain c by simp
      have eq: "c = ''..''" if "join_path u = ''..'' \<or> hasPrefix (join_path u) ''../''"
      proof -
        have "split_on CHR ''/'' (join_path u) = u" using split_join [OF plain ne] .
        moreover have "\<exists>r. split_on CHR ''/'' (join_path u) = ''..'' # r"
          using that by (auto simp: hasPrefix_def prefix_def)
        ultimately show ?thesis using c by auto
      qed
      with pc show ?thesis by (auto simp: plain_component_def)
    qed
    ultimately show ?thesis using pre by (auto simp: isWithinStorage_def hasPrefix_def Let_def)
  next
    case False
    then have "\<not> prefix ?b ?t" by (simp add: common_len_prefix)
    moreover have lt: "?n < length ?b" using False common_len_le [of ?b ?t] by simp
    then obtain k where "length ?b - ?n = Suc k" by (metis Suc_diff_Suc)
    then have rel: "path_rel (st_root st) p = join_path (''..'' # replicate k ''..'' @ drop ?n ?t)"
      using lt by (simp add: path_rel_def Let_def)
    have "\<not> isWithinStorage st p"
      unfolding isWithinStorage_def rel
      by (cases "replicate k ''..'' @ drop ?n ?t") (auto simp: hasPrefix_def Let_def)
    ultimately show ?thesis by simp
  qed
qed

lemma validateVersion_plain: "validateVersion v \<Longrightarrow> plain_component v"
proof (cases v)
  case (Cons c cs)
  assume "validateVersion v"
  then have c: "is_alnum c" and cs: "list_all (\<lambda>d. is_alnum d \<or> d \<in> set ''._-'') cs"
    by (auto simp: validateVersion_def Cons)
  have "c \<noteq> CHR ''.'' \<and> c \<noteq> CHR ''/''" using c by (auto simp: is_alnum_def)
  moreover have "CHR ''/'' \<notin> set cs" using cs by (auto simp: list_all_iff is_alnum_def)
  ultimately show ?thesis by (auto simp: plain_component_def Cons)
qed (simp add: validateVersion_def)

lemma worker_component: "plain_component ''minicontrol-worker''"
  by (simp add: plain_component_def)

text \<open>
  C28: A release version that passes validation gets a directory and a binary of its own directly
  below the storage root, two versions never share a path, every other version is refused, and no
  path the store hands out lies outside its root.
\<close>

theorem release_paths_contained:
  shows "(validateVersion v \<longrightarrow> (\<exists>dir file. releasePaths st v = Inr (dir, file) \<and>
            components dir = components (st_root st) @ [v] \<and>
            components file = components (st_root st) @ [v, ''minicontrol-worker''])) \<and>
         (\<not> validateVersion v \<longrightarrow> releasePaths st v = Inl ''invalid version'') \<and>
         (binaryPath cwd st r = Inr p \<longrightarrow> prefix (components (st_root st)) (components p))"
proof (intro conjI impI)
  assume v: "validateVersion v"
  let ?dir = "path_join (st_root st) v"
  let ?file = "path_join ?dir ''minicontrol-worker''"
  have dir: "components ?dir = components (st_root st) @ [v]"
    using v by (simp add: components_join validateVersion_plain)
  then have fin: "components ?file = components (st_root st) @ [v, ''minicontrol-worker'']"
    by (simp add: components_join worker_component)
  have "releasePaths st v = Inr (?dir, ?file)"
    using v dir fin by (simp add: releasePaths_def Let_def isWithinStorage_iff)
  with dir fin show "\<exists>dir file. releasePaths st v = Inr (dir, file) \<and>
            components dir = components (st_root st) @ [v] \<and>
            components file = components (st_root st) @ [v, ''minicontrol-worker'']" by blast
next
  show "prefix (components (st_root st)) (components p)" if "binaryPath cwd st r = Inr p"
    using that by (auto simp: binaryPath_def Let_def isWithinStorage_iff split: if_splits)
qed (simp add: releasePaths_def)

definition sample_store :: store where
  "sample_store = \<lparr>st_root = ''/srv/rel'', st_required_signing_id = []\<rparr>"

definition sample_release :: release where
  "sample_release = \<lparr>rel_id = ''r1'', rel_version = ''1.0'', rel_sha256 = [], rel_size_bytes = 0,
     rel_signing_identity = [], rel_file_path = ''/srv/rel/1.0/minicontrol-worker'', rel_uploaded_at = 0\<rparr>"

theorem release_paths_contained_witness:
  "(\<exists>dir file. releasePaths sample_store ''1.0'' = Inr (dir, file) \<and>
      components dir = [''srv'', ''rel'', ''1.0''] \<and>
      components file = [''srv'', ''rel'', ''1.0'', ''minicontrol-worker'']) \<and>
   releasePaths sample_store ''../x'' = Inl ''invalid version'' \<and>
   prefix [''srv'', ''rel''] (components ''/srv/rel/1.0/minicontrol-worker'')"
proof -
  have v: "validateVersion ''1.0''" and w: "\<not> validateVersion ''../x''" by code_simp+
  have root: "components (st_root sample_store) = [''srv'', ''rel'']" by code_simp
  have "binaryPath ''/'' sample_store sample_release = Inr ''/srv/rel/1.0/minicontrol-worker''" by code_simp
  then show ?thesis
    using release_paths_contained [of "''1.0''" sample_store "''/''" sample_release "''/srv/rel/1.0/minicontrol-worker''"]
      release_paths_contained [of "''../x''" sample_store "''/''" sample_release "[]"] v w
    unfolding root by simp
qed

end
