(* ===== verification/Relay.thy ===== *)
theory Relay
  imports ProxySession
begin

text \<open>
  The relay between the two connections of a proxy session (\<^verbatim>\<open>proxy/relay.go\<close>).  What the
  WebSocket library does is a script: the messages or the error the source delivers, and for each
  message how the destination takes it.  A script that has run out is a call that still blocks.
\<close>

datatype message_type = MessageText | MessageBinary

type_synonym ws_message = "message_type \<times> string"

datatype read_event =
    ReadMessage message_type string
  | ReadBreaks message_type string string
  | ReadFails string

datatype write_event =
    WriteOK
  | WriterFails string
  | WriteBreaks string
  | WriterCloseFails string

text \<open>
  The messages copied completely, and the error that ended the copy (\<open>None\<close> while it runs).
\<close>

fun copyWS :: "read_event list \<Rightarrow> write_event list \<Rightarrow> ws_message list \<times> string option" where
  "copyWS [] ws = ([], None)"
| "copyWS (ReadFails e # rs) ws = ([], Some e)"
| "copyWS (ReadMessage t p # rs) [] = ([], None)"
| "copyWS (ReadBreaks t p e # rs) [] = ([], None)"
| "copyWS (ReadMessage t p # rs) (w # ws) = (case w of
     WriterFails e \<Rightarrow> ([], Some e)
   | WriteBreaks e \<Rightarrow> ([], Some e)
   | WriterCloseFails e \<Rightarrow> ([], Some e)
   | WriteOK \<Rightarrow> (let (sent, err) = copyWS rs ws in ((t, p) # sent, err)))"
| "copyWS (ReadBreaks t p e # rs) (w # ws) = (case w of
     WriterFails e' \<Rightarrow> ([], Some e')
   | WriteBreaks e' \<Rightarrow> ([], Some e')
   | _ \<Rightarrow> ([], Some e))"

datatype relay_end =
    RelayCancelled
  | RelayWaiting
  | RelayUnpaired
  | RelayRunning
  | RelayEnded string string

text \<open>
  \<open>cancelled\<close> is the choice of the first \<^verbatim>\<open>select\<close> for the context; \<open>client_first\<close> says which
  result arrives first when both directions have ended.
\<close>

definition relay ::
  "bool \<Rightarrow> bool \<Rightarrow> proxy_session \<Rightarrow> string option \<Rightarrow> string option \<Rightarrow> relay_end" where
  "relay cancelled client_first s client_to_worker worker_to_client =
     (if cancelled then RelayCancelled
      else if \<not> ps_ready s then RelayWaiting
      else if ps_client_conn s = None \<or> ps_worker_conn s = None then RelayUnpaired
      else case (client_to_worker, worker_to_client) of
          (None, None) \<Rightarrow> RelayRunning
        | (Some e, None) \<Rightarrow> RelayEnded ''client_to_worker'' e
        | (None, Some e) \<Rightarrow> RelayEnded ''worker_to_client'' e
        | (Some e, Some e') \<Rightarrow> if client_first then RelayEnded ''client_to_worker'' e
                               else RelayEnded ''worker_to_client'' e')"

fun sent_by :: "read_event list \<Rightarrow> ws_message list" where
  "sent_by [] = []"
| "sent_by (ReadMessage t p # rs) = (t, p) # sent_by rs"
| "sent_by (_ # rs) = []"

lemma copyWS_prefix: "prefix (fst (copyWS rs ws)) (sent_by rs)"
  by (induction rs ws rule: copyWS.induct) (auto split: write_event.splits prod.splits)

lemma copyWS_all:
  "list_all (\<lambda>w. w = WriteOK) ws \<Longrightarrow> length rs \<le> length ws \<Longrightarrow> fst (copyWS rs ws) = sent_by rs"
  by (induction rs ws rule: copyWS.induct) (auto split: prod.splits)

text \<open>
  C22: The relay neither reorders, invents, merges nor retypes messages: what the destination has
  received completely is always a prefix of what the source sent, and all of it as long as the
  destination takes every message.
\<close>

theorem copyWS_faithful:
  "prefix (fst (copyWS rs ws)) (sent_by rs) \<and>
   (list_all (\<lambda>w. w = WriteOK) ws \<and> length rs \<le> length ws \<longrightarrow> fst (copyWS rs ws) = sent_by rs)"
  using copyWS_prefix copyWS_all by blast

theorem copyWS_faithful_witness:
  "fst (copyWS [ReadMessage MessageBinary ''a'', ReadFails ''eof''] [WriteOK, WriteOK]) = [(MessageBinary, ''a'')]"
  using copyWS_faithful [of "[ReadMessage MessageBinary ''a'', ReadFails ''eof'']" "[WriteOK, WriteOK]"]
  by simp

end
