(* ===== verification/Ring.thy ===== *)
theory Ring
  imports Prelude
begin

text \<open>
  The circular list of \<^verbatim>\<open>container/ring\<close>, as a fixed number of slots and a position, and the
  contract of a bounded log that the terminal history needs.
\<close>

record 'a ring =
  rg_slots :: "'a option list"
  rg_pos :: nat

definition ring_new :: "nat \<Rightarrow> 'a ring" where
  "ring_new n = \<lparr>rg_slots = replicate n None, rg_pos = 0\<rparr>"

definition ring_len :: "'a ring \<Rightarrow> nat" where
  "ring_len r = length (rg_slots r)"

definition ring_value :: "'a ring \<Rightarrow> 'a option" where
  "ring_value r = rg_slots r ! rg_pos r"

definition ring_store :: "'a \<Rightarrow> 'a ring \<Rightarrow> 'a ring" where
  "ring_store v r = r\<lparr>rg_slots := (rg_slots r)[rg_pos r := Some v]\<rparr>"

definition ring_move :: "int \<Rightarrow> 'a ring \<Rightarrow> 'a ring" where
  "ring_move k r = r\<lparr>rg_pos := nat ((int (rg_pos r) + k) mod int (ring_len r))\<rparr>"

definition ring_next :: "'a ring \<Rightarrow> 'a ring" where
  "ring_next r = ring_move 1 r"

section \<open>The contract of a bounded log\<close>

definition last_n :: "nat \<Rightarrow> 'a list \<Rightarrow> 'a list" where
  "last_n n xs = drop (length xs - n) xs"

lemma last_n_append: "last_n n (last_n n xs @ ys) = last_n n (xs @ ys)"
proof (cases "length xs \<le> n")
  case True
  then show ?thesis by (simp add: last_n_def)
next
  case False
  then have "last_n n (last_n n xs @ ys) = drop (length ys) (drop (length xs - n) (xs @ ys))"
    by (simp add: last_n_def)
  also have "\<dots> = drop (length (xs @ ys) - n) (xs @ ys)"
    unfolding drop_drop using False by (intro arg_cong [where f = "\<lambda>k. drop k (xs @ ys)"]) simp
  finally show ?thesis by (simp only: last_n_def)
qed

lemma length_last_n [simp]: "length (last_n n xs) = min (length xs) n"
  by (simp add: last_n_def)

lemma last_n_short: "length xs \<le> n \<Longrightarrow> last_n n xs = xs"
  by (simp add: last_n_def)

lemma set_last_n: "set (last_n n xs) \<subseteq> set xs"
  by (simp add: last_n_def set_drop_subset)

text \<open>
  A log of capacity \<open>cap\<close> holds the last \<open>cap\<close> entries appended to it, oldest first.
\<close>

locale bounded_log =
  fixes empty :: 'l and append :: "'a \<Rightarrow> 'l \<Rightarrow> 'l" and contents :: "'l \<Rightarrow> 'a list"
    and ok :: "'l \<Rightarrow> bool" and cap :: nat
  assumes empty_ok: "ok empty" and empty_contents: "contents empty = []"
    and append_ok: "ok l \<Longrightarrow> ok (append x l)"
    and append_contents: "ok l \<Longrightarrow> contents (append x l) = last_n cap (contents l @ [x])"
begin

lemma fold_ok: "ok l \<Longrightarrow> ok (fold append xs l)"
  by (induction xs arbitrary: l) (auto intro: append_ok)

lemma contents_fold: "ok l \<Longrightarrow> length (contents l) \<le> cap \<Longrightarrow> contents (fold append xs l) = last_n cap (contents l @ xs)"
proof (induction xs arbitrary: l)
  case Nil
  then show ?case by (simp add: last_n_short)
next
  case (Cons x xs)
  have "contents (fold append xs (append x l)) = last_n cap (contents (append x l) @ xs)"
    using Cons.prems by (intro Cons.IH append_ok) (simp_all add: append_contents)
  then show ?case using Cons.prems by (simp add: append_contents last_n_append)
qed

lemma contents_all: "contents (fold append xs empty) = last_n cap xs"
  using contents_fold [OF empty_ok] by (simp add: empty_contents)

end

end
