(* ===== verification/Terminal.thy ===== *)
theory Terminal
  imports Relay Ring Json "HOL-Library.Word"
begin

text \<open>
  Browser terminals (\<^verbatim>\<open>api/rest/terminal_sessions.go\<close>): a session keeps the last output frames of a
  shell in a ring and feeds them to at most one attached browser through a bounded queue.  This
  theory has the data, the steps each of which the code does under one lock or in one channel
  operation, the ring as a bounded log and the session manager as a registry.  The methods that
  are made of several such steps are programs and follow in \<^verbatim>\<open>TerminalSession\<close>.
\<close>

section \<open>Data\<close>

definition terminalHistoryFrames :: nat where
  "terminalHistoryFrames = 256"

definition terminalAttachmentQueueSize :: nat where
  "terminalAttachmentQueueSize = 128"

definition terminalIdleTimeout :: time where
  "terminalIdleTimeout = 60 * second"

definition terminalWriteTimeout :: time where
  "terminalWriteTimeout = 10 * second"

record history_frame =
  hf_seq :: "64 word"
  hf_message :: message_type
  hf_payload :: string

text \<open>
  An attachment: the messages waiting in its channel, the messages its writer has put on the
  connection, and the status the connection was closed with.
\<close>

record attachment =
  at_conn :: conn
  at_outbound :: "ws_message list"
  at_done :: bool
  at_written :: "ws_message list"
  at_close :: "(nat \<times> string) option"

type_synonym attachment_ptr = nat

text \<open>A \<^verbatim>\<open>sync.Once\<close>: a second caller waits until the first has run.\<close>

datatype once = NotRun | Running | Ran

text \<open>
  A session; \<open>ts_attachments\<close> are the attachment objects, \<open>ts_attachment\<close> points to the current one.
  \<open>ts_attach_mu\<close> says whether \<^verbatim>\<open>attachMu\<close> is held, \<open>ts_close_once\<close> is the state of \<^verbatim>\<open>closeOnce\<close>, \<open>ts_cancelled\<close> that of its context, \<open>ts_idle_timer\<close> the
  deadline of the running timer; \<open>ts_input\<close> is what was written to the shell, \<open>ts_window\<close> its size,
  \<open>ts_ssh_closed\<close> that its connections are closed.  \<open>ts_proxy_id\<close> is the proxy session its clean-up closes.
\<close>

record terminal_session =
  ts_id :: id
  ts_member_id :: id
  ts_workstation_id :: id
  ts_worker_id :: id
  ts_proxy_id :: id
  ts_attachments :: "attachment list"
  ts_attachment :: "attachment_ptr option"
  ts_history :: "history_frame ring option"
  ts_history_len :: nat
  ts_next_seq :: "64 word"
  ts_closed :: bool
  ts_attach_mu :: bool
  ts_close_once :: once
  ts_cancelled :: bool
  ts_idle_timer :: "time option"
  ts_input :: string
  ts_window :: "(int \<times> int) option"
  ts_ssh_closed :: bool

record terminal_manager =
  tm_objects :: "terminal_session list"
  tm_sessions :: "(id \<times> nat) list"

definition newTerminalSessionManager :: terminal_manager where
  "newTerminalSessionManager = \<lparr>tm_objects = [], tm_sessions = []\<rparr>"

definition new_terminal_session :: "id \<Rightarrow> id \<Rightarrow> id \<Rightarrow> id \<Rightarrow> id \<Rightarrow> terminal_session" where
  "new_terminal_session uuid memberID workstationID workerID proxyID =
     \<lparr>ts_id = uuid, ts_member_id = memberID, ts_workstation_id = workstationID, ts_worker_id = workerID,
      ts_proxy_id = proxyID, ts_attachments = [], ts_attachment = None, ts_history = None,
      ts_history_len = 0, ts_next_seq = 0, ts_closed = False, ts_attach_mu = False, ts_close_once = NotRun,
      ts_cancelled = False, ts_idle_timer = None, ts_input = [], ts_window = None,
      ts_ssh_closed = False\<rparr>"

section \<open>The session manager\<close>

definition register_terminal :: "id \<Rightarrow> terminal_session \<Rightarrow> terminal_manager \<Rightarrow> nat \<times> terminal_manager" where
  "register_terminal k s tm = (length (tm_objects tm),
     tm\<lparr>tm_objects := tm_objects tm @ [s],
        tm_sessions := AList.update k (length (tm_objects tm)) (tm_sessions tm)\<rparr>)"

definition create_terminal ::
  "id \<Rightarrow> id \<Rightarrow> id \<Rightarrow> id \<Rightarrow> id \<Rightarrow> terminal_manager \<Rightarrow> nat \<times> terminal_manager" where
  "create_terminal uuid memberID workstationID workerID proxyID tm =
     register_terminal uuid (new_terminal_session uuid memberID workstationID workerID proxyID) tm"

definition get_terminal :: "terminal_manager \<Rightarrow> id \<Rightarrow> nat option" where
  "get_terminal tm sessionID = map_of (tm_sessions tm) sessionID"

definition remove_terminal :: "id \<Rightarrow> terminal_manager \<Rightarrow> terminal_manager" where
  "remove_terminal sessionID tm = tm\<lparr>tm_sessions := AList.delete sessionID (tm_sessions tm)\<rparr>"

definition terminal_at :: "terminal_manager \<Rightarrow> nat \<Rightarrow> terminal_session" where
  "terminal_at tm a = tm_objects tm ! a"

definition set_terminal :: "nat \<Rightarrow> terminal_session \<Rightarrow> terminal_manager \<Rightarrow> terminal_manager" where
  "set_terminal a s tm = tm\<lparr>tm_objects := (tm_objects tm)[a := s]\<rparr>"

definition terminal_object :: "terminal_manager \<Rightarrow> nat \<Rightarrow> terminal_session option" where
  "terminal_object tm a = (if a < length (tm_objects tm) then Some (terminal_at tm a) else None)"

interpretation tsr: session_registry get_terminal terminal_object register_terminal remove_terminal
proof
  show "get_terminal m' i = (if i = k then Some a else get_terminal m i)"
    if "register_terminal k s m = (a, m')" for k s m a m' i
    using that by (auto simp: register_terminal_def get_terminal_def update_conv')
  show "terminal_object m a = None \<and> terminal_object m' b = (if b = a then Some s else terminal_object m b)"
    if "register_terminal k s m = (a, m')" for k s m a m' b
    using that by (auto simp: register_terminal_def terminal_object_def terminal_at_def nth_append)
  show "get_terminal (remove_terminal k m) i = (if i = k then None else get_terminal m i)" for k m i
    by (auto simp: remove_terminal_def get_terminal_def delete_conv')
  show "terminal_object (remove_terminal k m) b = terminal_object m b" if "get_terminal m k \<noteq> Some b" for k m b
    by (simp add: remove_terminal_def terminal_object_def terminal_at_def)
qed

section \<open>Attachments\<close>

text \<open>
  \<^verbatim>\<open>select\<close> over the closed channel and the queue: with both ready Go takes either, \<open>pick\<close> says
  which.
\<close>

definition attachment_send :: "bool \<Rightarrow> ws_message \<Rightarrow> attachment \<Rightarrow> (string + unit) \<times> attachment" where
  "attachment_send pick m a =
     (let room = length (at_outbound a) < terminalAttachmentQueueSize
      in if at_done a \<and> (pick \<or> \<not> room) then (Inl ''terminal attachment closed'', a)
         else if room then (Inr (), a\<lparr>at_outbound := at_outbound a @ [m]\<rparr>)
         else (Inl ''terminal attachment buffer is full'', a))"

definition attachment_close :: "nat \<Rightarrow> string \<Rightarrow> attachment \<Rightarrow> attachment" where
  "attachment_close code reason a =
     (if at_done a then a else a\<lparr>at_done := True, at_close := Some (code, reason)\<rparr>)"

record terminal_server_message =
  tsm_type :: string
  tsm_message :: string
  tsm_session_id :: string
  tsm_recovered :: bool

text \<open>\<^verbatim>\<open>json.Marshal\<close> of the message: empty fields but the type are omitted.\<close>

definition marshal_server_message :: "terminal_server_message \<Rightarrow> string" where
  "marshal_server_message m = print_json (JObj ([(''type'', JStr (tsm_type m))] @
     (if tsm_message m = [] then [] else [(''message'', JStr (tsm_message m))]) @
     (if tsm_session_id m = [] then [] else [(''session_id'', JStr (tsm_session_id m))]) @
     (if tsm_recovered m then [(''recovered'', JBool True)] else [])))"

definition send_control :: "bool \<Rightarrow> terminal_server_message \<Rightarrow> attachment \<Rightarrow> (string + unit) \<times> attachment" where
  "send_control pick m a = attachment_send pick (MessageText, marshal_server_message m) a"

section \<open>Sessions\<close>

definition attachment_of :: "terminal_session \<Rightarrow> attachment_ptr \<Rightarrow> attachment" where
  "attachment_of s a = ts_attachments s ! a"

definition set_attachment_object :: "attachment_ptr \<Rightarrow> attachment \<Rightarrow> terminal_session \<Rightarrow> terminal_session" where
  "set_attachment_object a x s = s\<lparr>ts_attachments := (ts_attachments s)[a := x]\<rparr>"

definition newTerminalAttachment :: "conn \<Rightarrow> terminal_session \<Rightarrow> attachment_ptr \<times> terminal_session" where
  "newTerminalAttachment c s = (length (ts_attachments s),
     s\<lparr>ts_attachments := ts_attachments s @
        [\<lparr>at_conn = c, at_outbound = [], at_done = False, at_written = [], at_close = None\<rparr>]\<rparr>)"

definition isClosed :: "terminal_session \<Rightarrow> bool" where
  "isClosed s = ts_closed s"

definition stopIdleTimer :: "terminal_session \<Rightarrow> terminal_session" where
  "stopIdleTimer s = s\<lparr>ts_idle_timer := None\<rparr>"

definition currentAttachment :: "terminal_session \<Rightarrow> attachment_ptr option" where
  "currentAttachment s = ts_attachment s"

definition setAttachment :: "attachment_ptr \<Rightarrow> terminal_session \<Rightarrow> terminal_session" where
  "setAttachment a s = s\<lparr>ts_attachment := Some a\<rparr>"

definition removeAttachment :: "attachment_ptr \<Rightarrow> terminal_session \<Rightarrow> terminal_session" where
  "removeAttachment target s =
     (if ts_attachment s = Some target then s\<lparr>ts_attachment := None\<rparr> else s)"

definition scheduleIdleTimeoutLocked :: "time \<Rightarrow> terminal_session \<Rightarrow> terminal_session" where
  "scheduleIdleTimeoutLocked now s =
     (if ts_closed s then s else s\<lparr>ts_idle_timer := Some (now + terminalIdleTimeout)\<rparr>)"

text \<open>The part of \<^verbatim>\<open>clearAttachment\<close> under the lock.\<close>

definition detach :: "time \<Rightarrow> attachment_ptr \<Rightarrow> terminal_session \<Rightarrow> terminal_session" where
  "detach now target s =
     (if ts_attachment s = Some target
      then scheduleIdleTimeoutLocked now (s\<lparr>ts_attachment := None\<rparr>) else s)"

definition send_to :: "bool \<Rightarrow> ws_message \<Rightarrow> attachment_ptr \<Rightarrow> terminal_session \<Rightarrow> (string + unit) \<times> terminal_session" where
  "send_to pick m a s = (let (res, x) = attachment_send pick m (attachment_of s a)
     in (res, set_attachment_object a x s))"

definition close_attachment :: "nat \<Rightarrow> string \<Rightarrow> attachment_ptr \<Rightarrow> terminal_session \<Rightarrow> terminal_session" where
  "close_attachment code reason a s =
     set_attachment_object a (attachment_close code reason (attachment_of s a)) s"

text \<open>
  One round of the writer of an attachment: whether it stops, and the session.  It stops when a write
  fails; once the attachment or the session is over Go chooses between stopping and another
  message, and \<open>pick\<close> is that choice.  \<open>None\<close>: there is nothing to do yet.
\<close>

definition writer_step :: "bool \<Rightarrow> bool \<Rightarrow> attachment_ptr \<Rightarrow> terminal_session \<Rightarrow> (bool \<times> terminal_session) option" where
  "writer_step pick ok a s =
     (let x = attachment_of s a; over = at_done x \<or> ts_cancelled s
      in case at_outbound x of
           [] \<Rightarrow> if over then Some (True, s) else None
         | m # ms \<Rightarrow>
             if over \<and> pick then Some (True, s)
             else if ok then Some (False, set_attachment_object a (x\<lparr>at_outbound := ms, at_written := at_written x @ [m]\<rparr>) s)
             else Some (True, set_attachment_object a (x\<lparr>at_outbound := ms\<rparr>) s))"

subsection \<open>History\<close>

type_synonym history = "history_frame ring option \<times> nat"

definition history_append :: "history_frame \<Rightarrow> history \<Rightarrow> history" where
  "history_append frame h =
     (let r = (case fst h of None \<Rightarrow> ring_new terminalHistoryFrames | Some r \<Rightarrow> r)
      in (Some (ring_next (ring_store frame r)),
          if snd h < terminalHistoryFrames then snd h + 1 else snd h))"

definition appendFrameLocked :: "history_frame \<Rightarrow> terminal_session \<Rightarrow> terminal_session" where
  "appendFrameLocked frame s =
     (let h = history_append frame (ts_history s, ts_history_len s)
      in s\<lparr>ts_history := fst h, ts_history_len := snd h\<rparr>)"

fun frames_from :: "nat \<Rightarrow> 64 word \<Rightarrow> history_frame ring \<Rightarrow> history_frame list" where
  "frames_from 0 afterSeq r = []"
| "frames_from (Suc n) afterSeq r =
     (case ring_value r of
        Some f \<Rightarrow> if hf_seq f > afterSeq then f # frames_from n afterSeq (ring_next r)
                  else frames_from n afterSeq (ring_next r)
      | None \<Rightarrow> frames_from n afterSeq (ring_next r))"

definition snapshotFramesAfter :: "64 word \<Rightarrow> terminal_session \<Rightarrow> history_frame list \<times> 64 word" where
  "snapshotFramesAfter afterSeq s =
     (case ts_history s of
        None \<Rightarrow> ([], ts_next_seq s)
      | Some h \<Rightarrow> if ts_history_len s = 0 then ([], ts_next_seq s)
                  else (frames_from (ts_history_len s) afterSeq (ring_move (- int (ts_history_len s)) h),
                        ts_next_seq s))"

text \<open>The part of \<^verbatim>\<open>publishBinary\<close> under the lock: the frame and the attachment to send it to.\<close>

definition publish_locked :: "string \<Rightarrow> terminal_session \<Rightarrow> (history_frame \<times> attachment_ptr option) option \<times> terminal_session" where
  "publish_locked payload s =
     (if ts_closed s then (None, s)
      else let q = ts_next_seq s + 1;
               frame = \<lparr>hf_seq = q, hf_message = MessageBinary, hf_payload = payload\<rparr>;
               s' = appendFrameLocked frame (s\<lparr>ts_next_seq := q\<rparr>)
           in (Some (frame, ts_attachment s'), s'))"

text \<open>The part of \<^verbatim>\<open>close\<close> under the lock; \<open>closeOnce\<close> lets one caller through.\<close>

definition close_locked :: "terminal_session \<Rightarrow> attachment_ptr option \<times> terminal_session" where
  "close_locked s = (ts_attachment s,
     s\<lparr>ts_closed := True, ts_attachment := None, ts_idle_timer := None\<rparr>)"

section \<open>The ring is a bounded log\<close>

definition ring_at :: "'a ring \<Rightarrow> int \<Rightarrow> 'a option" where
  "ring_at r k = rg_slots r ! nat ((int (rg_pos r) + k) mod int (ring_len r))"

definition ring_ok :: "nat \<Rightarrow> 'a ring \<Rightarrow> bool" where
  "ring_ok n r = (ring_len r = n \<and> rg_pos r < n)"

lemma ring_value_move: "ring_value (ring_move k r) = ring_at r k"
  by (simp add: ring_value_def ring_move_def ring_at_def)

lemma ring_at_move: "ring_ok n r \<Longrightarrow> ring_at (ring_move k r) j = ring_at r (k + j)"
proof -
  assume "ring_ok n r"
  then have "int (ring_len r) > 0" by (auto simp: ring_ok_def)
  then show ?thesis
    by (simp add: ring_at_def ring_move_def ring_len_def mod_add_left_eq add.assoc)
qed

lemma ring_at_push:
  assumes "ring_ok n r" and "- int n < k" and "k \<le> 0"
  shows "ring_at (ring_next (ring_store x r)) (k - 1) = (if k = 0 then Some x else ring_at r k)"
proof -
  have n: "ring_len r = n" "rg_pos r < n" "length (rg_slots r) = n"
    using assms(1) by (auto simp: ring_ok_def ring_len_def)
  have "ring_at (ring_next (ring_store x r)) (k - 1) = (rg_slots r)[rg_pos r := Some x] ! nat ((int (rg_pos r) + k) mod int n)"
    using n by (simp add: ring_at_def ring_next_def ring_move_def ring_store_def ring_len_def mod_add_left_eq)
  moreover have "nat ((int (rg_pos r) + k) mod int n) = rg_pos r \<longleftrightarrow> k = 0"
  proof
    assume "nat ((int (rg_pos r) + k) mod int n) = rg_pos r"
    then have "(int (rg_pos r) + k) mod int n = int (rg_pos r) mod int n"
      using n by (metis int_nat_eq mod_pos_pos_trivial of_nat_0_le_iff of_nat_less_iff pos_mod_sign not_less_zero neq0_conv of_nat_0_less_iff)
    then have "int n dvd k" by (metis add_diff_cancel_left' mod_eq_dvd_iff)
    then have "int n dvd - k" by simp
    then show "k = 0" using assms(2,3) zdvd_not_zless [of "- k" "int n"] by linarith
  qed (use n in simp)
  moreover have "nat ((int (rg_pos r) + k) mod int n) < n" using n by (simp add: nat_less_iff)
  ultimately show ?thesis using n by (auto simp: ring_at_def)
qed

lemma ring_ok_push: "ring_ok n r \<Longrightarrow> ring_ok n (ring_next (ring_store x r))"
  by (auto simp: ring_ok_def ring_next_def ring_move_def ring_store_def ring_len_def nat_less_iff)

definition history_contents :: "history \<Rightarrow> history_frame list" where
  "history_contents h = (case fst h of
     None \<Rightarrow> []
   | Some r \<Rightarrow> map (\<lambda>i. the (ring_at r (int i - int (snd h)))) [0..<snd h])"

definition history_ok :: "history \<Rightarrow> bool" where
  "history_ok h = (case fst h of
     None \<Rightarrow> snd h = 0
   | Some r \<Rightarrow> ring_ok terminalHistoryFrames r \<and> snd h \<le> terminalHistoryFrames \<and>
       (\<forall>i < snd h. ring_at r (int i - int (snd h)) \<noteq> None))"


lemma ring_new_ok: "0 < n \<Longrightarrow> ring_ok n (ring_new n)"
  by (simp add: ring_ok_def ring_new_def ring_len_def)

lemma history_append_Some:
  assumes "ring_ok terminalHistoryFrames r" and "m \<le> terminalHistoryFrames"
    and "\<forall>i < m. ring_at r (int i - int m) \<noteq> None"
  shows "history_ok (history_append x (Some r, m)) \<and>
    history_contents (history_append x (Some r, m)) =
      last_n terminalHistoryFrames (history_contents (Some r, m) @ [x])"
proof -
  let ?N = terminalHistoryFrames
  let ?r = "ring_next (ring_store x r)"
  define m' where "m' = (if m < ?N then m + 1 else m)"
  have N: "?N = 256" by (simp add: terminalHistoryFrames_def)
  have h: "history_append x (Some r, m) = (Some ?r, m')"
    by (simp add: history_append_def m'_def)
  have m': "0 < m'" "m' \<le> ?N" using assms(2) N by (auto simp: m'_def)
  have at: "ring_at ?r (int i - int m') = (if i = m' - 1 then Some x else ring_at r (int i + 1 - int m'))"
    if "i < m'" for i
    using ring_at_push [OF assms(1), of "int i + 1 - int m'" x] that m' by (auto simp: algebra_simps)
  have old: "ring_at r (int i + 1 - int m') \<noteq> None" if "i < m' - 1" for i
  proof (cases "m < ?N")
    case True
    then show ?thesis using assms(3) that by (simp add: m'_def)
  next
    case False
    then have "Suc i < m" using that by (simp add: m'_def)
    from assms(3) [rule_format, OF this] show ?thesis using False by (simp add: m'_def algebra_simps)
  qed
  have "history_ok (Some ?r, m')"
    using assms(1) m' at old by (auto simp: history_ok_def ring_ok_push)
  moreover have "history_contents (Some ?r, m') = last_n ?N (history_contents (Some r, m) @ [x])"
  proof -
    have "[0..<m'] = [0..<m' - 1] @ [m' - 1]" using m'(1) by (metis Suc_diff_1 upt_Suc_append zero_le)
    then have c: "history_contents (Some ?r, m') = map (\<lambda>i. the (ring_at r (int i + 1 - int m'))) [0..<m' - 1] @ [x]"
      using at m'(1) ring_at_push [OF assms(1), of 0 x] N by (simp add: history_contents_def)
    show ?thesis
    proof (cases "m < ?N")
      case True
      then show ?thesis
        using c by (simp add: m'_def history_contents_def last_n_def)
    next
      case False
      then have m: "m = ?N" "m' = m" using assms(2) by (auto simp: m'_def)
      have "[0..<m] = 0 # map Suc [0..<m - 1]"
        using N m by (metis Suc_diff_1 map_Suc_upt upt_conv_Cons zero_less_numeral)
      then have "history_contents (Some r, m) =
          the (ring_at r (- int m)) # map (\<lambda>i. the (ring_at r (int i + 1 - int m'))) [0..<m' - 1]"
        using m by (simp add: history_contents_def algebra_simps)
      then show ?thesis using c m N by (simp add: last_n_def)
    qed
  qed
  ultimately show ?thesis by (simp add: h)
qed

interpretation hlog: bounded_log "(None, 0)" history_append history_contents history_ok terminalHistoryFrames
proof
  fix l :: history and x
  assume ok: "history_ok l"
  have "history_ok (history_append x l) \<and>
      history_contents (history_append x l) = last_n terminalHistoryFrames (history_contents l @ [x])"
  proof (cases "fst l")
    case None
    then have l: "l = (None, 0)" using ok by (cases l) (simp add: history_ok_def)
    have "history_append x l = history_append x (Some (ring_new terminalHistoryFrames), 0)"
      by (simp add: l history_append_def)
    moreover have "ring_ok terminalHistoryFrames (ring_new terminalHistoryFrames)"
      by (rule ring_new_ok) (simp add: terminalHistoryFrames_def)
    ultimately show ?thesis
      using history_append_Some [of "ring_new terminalHistoryFrames" 0 x]
      by (simp add: history_contents_def l)
  next
    case (Some r)
    then obtain m where "l = (Some r, m)" by (cases l) auto
    with ok history_append_Some show ?thesis by (simp add: history_ok_def)
  qed
  then show "history_ok (history_append x l)"
    and "history_contents (history_append x l) = last_n terminalHistoryFrames (history_contents l @ [x])"
    by blast+
qed (simp_all add: history_ok_def history_contents_def)

lemma frames_from_filter:
  assumes "ring_ok n r" and "\<forall>i < m. ring_at r (int i) \<noteq> None"
  shows "frames_from m afterSeq r = filter (\<lambda>f. hf_seq f > afterSeq) (map (\<lambda>i. the (ring_at r (int i))) [0..<m])"
  using assms
proof (induction m arbitrary: r)
  case (Suc m)
  have at: "ring_at (ring_next r) (int i) = ring_at r (int (Suc i))" for i
    using ring_at_move [OF Suc.prems(1), of 1 "int i"] by (simp add: ring_next_def)
  have ok: "ring_ok n (ring_next r)"
    using Suc.prems(1) by (auto simp: ring_ok_def ring_next_def ring_move_def ring_len_def nat_less_iff)
  have "\<forall>i < m. ring_at (ring_next r) (int i) \<noteq> None" using Suc.prems(2) at by auto
  from Suc.IH [OF ok this] have "frames_from m afterSeq (ring_next r) =
      filter (\<lambda>f. hf_seq f > afterSeq) (map (\<lambda>i. the (ring_at r (int (Suc i)))) [0..<m])"
    by (simp add: at)
  moreover have "ring_value r = ring_at r 0"
    using Suc.prems(1) by (simp add: ring_value_def ring_at_def ring_ok_def)
  moreover have "[0..<Suc m] = 0 # map Suc [0..<m]" by (simp add: upt_conv_Cons map_Suc_upt del: upt_Suc)
  moreover obtain f where "ring_at r 0 = Some f" using Suc.prems(2) by force
  ultimately show ?case by (simp del: upt_Suc add: comp_def)
qed simp

abbreviation history_of :: "terminal_session \<Rightarrow> history" where
  "history_of s \<equiv> (ts_history s, ts_history_len s)"

lemma snapshot_contents:
  assumes "history_ok (history_of s)"
  shows "snapshotFramesAfter afterSeq s =
    (filter (\<lambda>f. hf_seq f > afterSeq) (history_contents (history_of s)), ts_next_seq s)"
proof (cases "ts_history s")
  case None
  then show ?thesis by (simp add: snapshotFramesAfter_def history_contents_def)
next
  case (Some r)
  let ?m = "ts_history_len s"
  have r: "ring_ok terminalHistoryFrames r" "\<forall>i < ?m. ring_at r (int i - int ?m) \<noteq> None"
    using assms Some by (auto simp: history_ok_def)
  have at: "ring_at (ring_move (- int ?m) r) (int i) = ring_at r (int i - int ?m)" for i
    using ring_at_move [OF r(1), of "- int ?m" "int i"] by (simp add: algebra_simps)
  have "ring_ok terminalHistoryFrames (ring_move (- int ?m) r)"
    using r(1) by (auto simp: ring_ok_def ring_move_def ring_len_def nat_less_iff)
  from frames_from_filter [OF this] r(2) show ?thesis
    using Some by (simp add: snapshotFramesAfter_def history_contents_def at)
qed

section \<open>What a snapshot shows\<close>

definition publish_all :: "string list \<Rightarrow> terminal_session \<Rightarrow> terminal_session" where
  "publish_all ps s = fold (\<lambda>p s. snd (publish_locked p s)) ps s"

text \<open>The frames of an output, numbered from one.\<close>

definition numbered :: "string list \<Rightarrow> history_frame list" where
  "numbered ps = map (\<lambda>i. \<lparr>hf_seq = of_nat (Suc i), hf_message = MessageBinary, hf_payload = ps ! i\<rparr>) [0..<length ps]"

lemma length_numbered [simp]: "length (numbered ps) = length ps"
  by (simp add: numbered_def)

lemma numbered_snoc:
  "numbered (ps @ [p]) = numbered ps @ [\<lparr>hf_seq = of_nat (Suc (length ps)), hf_message = MessageBinary, hf_payload = p\<rparr>]"
  by (simp add: numbered_def nth_append)

definition fresh_history :: "terminal_session \<Rightarrow> bool" where
  "fresh_history s = (ts_history s = None \<and> ts_history_len s = 0 \<and> ts_next_seq s = 0 \<and> \<not> ts_closed s)"

lemma publish_locked_open:
  assumes "\<not> ts_closed s"
  shows "history_of (snd (publish_locked p s)) =
      history_append \<lparr>hf_seq = ts_next_seq s + 1, hf_message = MessageBinary, hf_payload = p\<rparr> (history_of s)"
    and "ts_next_seq (snd (publish_locked p s)) = ts_next_seq s + 1"
    and "ts_closed (snd (publish_locked p s)) = ts_closed s"
  using assms by (simp_all add: publish_locked_def appendFrameLocked_def Let_def)

lemma publish_all_state:
  assumes "fresh_history s"
  shows "history_of (publish_all ps s) = fold history_append (numbered ps) (None, 0) \<and>
    ts_next_seq (publish_all ps s) = of_nat (length ps) \<and> \<not> ts_closed (publish_all ps s)"
proof (induction ps rule: rev_induct)
  case Nil
  then show ?case using assms by (simp add: publish_all_def fresh_history_def numbered_def)
next
  case (snoc p ps)
  have "publish_all (ps @ [p]) s = snd (publish_locked p (publish_all ps s))" by (simp add: publish_all_def)
  with snoc publish_locked_open [of "publish_all ps s" p] show ?case by (simp add: numbered_snoc add.commute)
qed

lemma numbered_after:
  assumes "length ps < 2 ^ 64" and "k \<le> length ps"
  shows "filter (\<lambda>f. hf_seq f > of_nat k) (drop j (numbered ps)) = drop (max k j) (numbered ps)"
proof -
  let ?f = "\<lambda>i. \<lparr>hf_seq = of_nat (Suc i), hf_message = MessageBinary, hf_payload = ps ! i\<rparr> :: history_frame"
  have d: "drop i (numbered ps) = map ?f [i..<length ps]" for i
    by (simp add: numbered_def drop_map)
  have le: "hf_seq (?f i) > of_nat k \<longleftrightarrow> k \<le> i" if "i < length ps" for i
    using that assms by (simp add: word_less_nat_alt unat_of_nat take_bit_nat_eq_self less_Suc_eq_le del: of_nat_Suc)
  have "filter (\<lambda>f. hf_seq f > of_nat k) (map ?f [j..<length ps]) = map ?f (filter (\<lambda>i. k \<le> i) [j..<length ps])"
    unfolding filter_map comp_def using le by (intro arg_cong [where f = "map ?f"] filter_cong) auto
  also have "filter (\<lambda>i. k \<le> i) [j..<n] = [max k j..<n]" for n
    by (induction n) (auto simp: max_def)
  finally show ?thesis by (simp add: d)
qed

lemma snapshot_publish_all:
  assumes "fresh_history s" and "length ps < 2 ^ 64" and "k \<le> length ps"
  shows "snapshotFramesAfter (of_nat k) (publish_all ps s) =
    (drop (max k (length ps - 256)) (numbered ps), of_nat (length ps))"
proof -
  let ?s = "publish_all ps s"
  have st: "history_of ?s = fold history_append (numbered ps) (None, 0)" "ts_next_seq ?s = of_nat (length ps)"
    using publish_all_state [OF assms(1), of ps] by auto
  have "history_ok (history_of ?s)" unfolding st using hlog.fold_ok hlog.empty_ok by blast
  moreover have "history_contents (history_of ?s) = drop (length ps - 256) (numbered ps)"
    unfolding st hlog.contents_all by (simp add: last_n_def terminalHistoryFrames_def)
  ultimately show ?thesis using snapshot_contents [of ?s] numbered_after [OF assms(2,3)] st(2) by simp
qed

text \<open>
  C27: A snapshot of the terminal history holds exactly the frames that are newer than the one asked
  for and among the last 256 published, in the order they were published, and the number of the
  newest frame.  The sequence numbers are 64 bit words; the claim holds until they wrap around.
\<close>

theorem snapshot_is_recent_output:
  assumes "fresh_history s" and "length ps < 2 ^ 64" and "k \<le> length ps"
  shows "snapshotFramesAfter (of_nat k) (publish_all ps s) =
    (drop (max k (length ps - 256)) (numbered ps), of_nat (length ps))"
  by (rule snapshot_publish_all [OF assms])

definition sample_terminal :: terminal_session where
  "sample_terminal = new_terminal_session ''t1'' ''m1'' ''k1'' ''w1'' ''p1''"

lemma sample_terminal_fresh: "fresh_history sample_terminal"
  by (simp add: fresh_history_def sample_terminal_def new_terminal_session_def)

theorem snapshot_is_recent_output_witness:
  "snapshotFramesAfter 1 (publish_all [''a'', ''b'', ''c''] sample_terminal) =
    ([\<lparr>hf_seq = 2, hf_message = MessageBinary, hf_payload = ''b''\<rparr>,
      \<lparr>hf_seq = 3, hf_message = MessageBinary, hf_payload = ''c''\<rparr>], 3)"
  using snapshot_is_recent_output [OF sample_terminal_fresh, of "[''a'', ''b'', ''c'']" 1]
  by (simp add: numbered_def upt_rec)

end
