(* ===== verification/Prog.thy ===== *)
theory Prog
  imports Prelude
begin

text \<open>
  Programs that run beside each other.  A program is a tree of atomic actions: one database
  statement or transaction, one critical section of a mutex, one answer of the outside world.
  Between two actions the rest of the server may do anything.  An action reads an \<^emph>\<open>oracle\<close> value,
  which carries what the action cannot compute (clocks, random bytes, identifiers, failures,
  answers of the network), and the shared world; \<open>None\<close> is an action that cannot proceed yet.
\<close>

datatype ('o, 'w, 'r) prog =
    Done 'r
  | Act "'o \<Rightarrow> 'w \<Rightarrow> ('w \<times> ('o, 'w, 'r) prog) option"

definition atomic :: "('o \<Rightarrow> 'w \<Rightarrow> 'w \<times> 'a) \<Rightarrow> ('a \<Rightarrow> ('o, 'w, 'r) prog) \<Rightarrow> ('o, 'w, 'r) prog" where
  "atomic f k = Act (\<lambda>orc w. let (w', x) = f orc w in Some (w', k x))"

definition await ::
  "('o \<Rightarrow> 'w \<Rightarrow> ('w \<times> 'a) option) \<Rightarrow> ('a \<Rightarrow> ('o, 'w, 'r) prog) \<Rightarrow> ('o, 'w, 'r) prog" where
  "await f k = Act (\<lambda>orc w. map_option (\<lambda>(w', x). (w', k x)) (f orc w))"

definition inspect :: "('w \<Rightarrow> 'a) \<Rightarrow> ('a \<Rightarrow> ('o, 'w, 'r) prog) \<Rightarrow> ('o, 'w, 'r) prog" where
  "inspect g = atomic (\<lambda>orc w. (w, g w))"

text \<open>A loop over a list, one program per element.\<close>

fun each :: "('a \<Rightarrow> ('o, 'w, 'r) prog \<Rightarrow> ('o, 'w, 'r) prog) \<Rightarrow> 'a list \<Rightarrow> ('o, 'w, 'r) prog \<Rightarrow> ('o, 'w, 'r) prog" where
  "each body [] k = k"
| "each body (x # xs) k = body x (each body xs k)"

text \<open>Running a program alone: each oracle value drives one attempt at its next action.\<close>

fun exec :: "'o list \<Rightarrow> 'w \<Rightarrow> ('o, 'w, 'r) prog \<Rightarrow> 'w \<times> ('o, 'w, 'r) prog" where
  "exec os w (Done r) = (w, Done r)"
| "exec [] w (Act f) = (w, Act f)"
| "exec (orc # os) w (Act f) = (case f orc w of
     None \<Rightarrow> exec os w (Act f)
   | Some (w', p) \<Rightarrow> exec os w' p)"

lemma exec_Nil [simp]: "exec [] w p = (w, p)"
  by (cases p) simp_all

lemma exec_atomic [simp]:
  "exec (orc # os) w (atomic f k) = exec os (fst (f orc w)) (k (snd (f orc w)))"
  by (simp add: atomic_def case_prod_beta Let_def)

lemma exec_inspect [simp]: "exec (orc # os) w (inspect g k) = exec os w (k (g w))"
  by (simp add: inspect_def)

lemma exec_await [simp]:
  "exec (orc # os) w (await f k) = (case f orc w of None \<Rightarrow> exec os w (await f k) | Some (w', x) \<Rightarrow> exec os w' (k x))"
  by (auto simp: await_def split: option.splits prod.splits)

lemma exec_append: "exec (os @ os') w p = (let (w', p') = exec os w p in exec os' w' p')"
  by (induction os w p rule: exec.induct) (auto split: option.splits prod.splits)

section \<open>What a program guarantees\<close>

text \<open>
  \<open>conforms A G Q p\<close>: in whatever worlds the actions of \<open>p\<close> are run, as long as the assumption \<open>A\<close>
  holds of oracle and world when they are, each changes the world only as \<open>G\<close> allows, and a result
  satisfies \<open>Q\<close>.  The worlds of two successive actions need not be related: other programs run in
  between.
\<close>

inductive conforms ::
  "('o \<Rightarrow> 'w \<Rightarrow> bool) \<Rightarrow> ('o \<Rightarrow> 'w \<Rightarrow> 'w \<Rightarrow> bool) \<Rightarrow> ('r \<Rightarrow> bool) \<Rightarrow> ('o, 'w, 'r) prog \<Rightarrow> bool"
  for A :: "'o \<Rightarrow> 'w \<Rightarrow> bool" and G :: "'o \<Rightarrow> 'w \<Rightarrow> 'w \<Rightarrow> bool" and Q :: "'r \<Rightarrow> bool" where
  conforms_Done [intro]: "Q r \<Longrightarrow> conforms A G Q (Done r)"
| conforms_Act: "(\<And>orc w w' p. A orc w \<Longrightarrow> f orc w = Some (w', p) \<Longrightarrow> G orc w w') \<Longrightarrow>
    (\<And>orc w w' p. A orc w \<Longrightarrow> f orc w = Some (w', p) \<Longrightarrow> conforms A G Q p) \<Longrightarrow>
    conforms A G Q (Act f)"

inductive_cases conforms_DoneE: "conforms A G Q (Done r)"
inductive_cases conforms_ActE: "conforms A G Q (Act f)"

lemma conforms_Done_iff [simp]: "conforms A G Q (Done r) \<longleftrightarrow> Q r"
  by (auto elim: conforms_DoneE)

lemma conforms_step:
  "conforms A G Q (Act f) \<Longrightarrow> A orc w \<Longrightarrow> f orc w = Some (w', p) \<Longrightarrow> G orc w w' \<and> conforms A G Q p"
  by (auto elim: conforms_ActE)

lemma conforms_atomic:
  assumes "\<And>orc w. A orc w \<Longrightarrow> G orc w (fst (f orc w)) \<and> conforms A G Q (k (snd (f orc w)))"
  shows "conforms A G Q (atomic f k)"
  unfolding atomic_def
  by (rule conforms_Act) (use assms in \<open>auto simp: Let_def case_prod_beta\<close>)

lemma conforms_await:
  assumes "\<And>orc w w' x. A orc w \<Longrightarrow> f orc w = Some (w', x) \<Longrightarrow> G orc w w' \<and> conforms A G Q (k x)"
  shows "conforms A G Q (await f k)"
  unfolding await_def
  by (rule conforms_Act) (use assms in auto)

lemma conforms_inspect:
  "(\<And>orc w. A orc w \<Longrightarrow> G orc w w) \<Longrightarrow> (\<And>orc w. A orc w \<Longrightarrow> conforms A G Q (k (g w))) \<Longrightarrow>
   conforms A G Q (inspect g k)"
  unfolding inspect_def by (rule conforms_atomic) simp

lemma conforms_each:
  "(\<And>x p. x \<in> set xs \<Longrightarrow> conforms A G Q p \<Longrightarrow> conforms A G Q (body x p)) \<Longrightarrow> conforms A G Q k \<Longrightarrow>
   conforms A G Q (each body xs k)"
  by (induction xs) auto

lemma conforms_mono:
  assumes "conforms A G Q p" and "\<And>orc w. A' orc w \<Longrightarrow> A orc w"
    and "\<And>orc w w'. A' orc w \<Longrightarrow> G orc w w' \<Longrightarrow> G' orc w w'" and "\<And>r. Q r \<Longrightarrow> Q' r"
  shows "conforms A' G' Q' p"
  using assms(1)
proof (induction rule: conforms.induct)
  case (conforms_Done r)
  then show ?case using assms(4) by simp
next
  case (conforms_Act f)
  show ?case by (rule conforms.conforms_Act) (use conforms_Act assms(2,3) in blast)+
qed

text \<open>What a program guarantees holds in particular when it runs alone.\<close>

lemma conforms_exec:
  assumes "\<And>orc w. ok orc \<Longrightarrow> I w \<Longrightarrow> A orc w"
    and "\<And>orc w w'. ok orc \<Longrightarrow> I w \<Longrightarrow> G orc w w' \<Longrightarrow> I w' \<and> R w w'"
    and "\<And>u. R u u" and "\<And>u v x. R u v \<Longrightarrow> R v x \<Longrightarrow> R u x"
  shows "conforms A G Q p \<Longrightarrow> list_all ok os \<Longrightarrow> I w \<Longrightarrow> exec os w p = (w', p') \<Longrightarrow>
    I w' \<and> R w w' \<and> conforms A G Q p'"
proof (induction os w p rule: exec.induct)
  case (3 orc os w f)
  show ?case
  proof (cases "f orc w")
    case None
    then show ?thesis using 3 by simp
  next
    case (Some wp)
    obtain u q where wp: "wp = (u, q)" by force
    have ok: "ok orc" "list_all ok os" using "3.prems"(2) by simp_all
    have "A orc w" using assms(1) ok "3.prems"(3) by blast
    from conforms_step [OF "3.prems"(1) this] have g: "G orc w u" and q: "conforms A G Q q"
      using Some wp by simp_all
    have u: "I u \<and> R w u" using assms(2) ok "3.prems"(3) g by blast
    have "exec os u q = (w', p')" using "3.prems"(4) Some wp by simp
    then have "I w' \<and> R u w' \<and> conforms A G Q p'"
      using "3.IH"(2) [OF Some wp [symmetric] q ok(2)] u by blast
    with u show ?thesis using assms(4) by blast
  qed
qed (use assms(3) in auto)

lemma conforms_exec_same:
  assumes "conforms A (\<lambda>orc w w'. w' = w) Q p" and "\<And>orc. A orc w" and "exec os w p = (w', Done r)"
  shows "w' = w \<and> Q r"
proof -
  have "w' = w \<and> True \<and> conforms A (\<lambda>orc w w'. w' = w) Q (Done r)"
  proof (rule conforms_exec [where ok = "\<lambda>_. True" and I = "\<lambda>u. u = w" and R = "\<lambda>_ _. True"])
    show "list_all (\<lambda>_. True) os" by (simp add: list_all_iff)
    show "exec os w p = (w', Done r)" by (rule assms(3))
  qed (use assms(1,2) in simp_all)
  then show ?thesis by simp
qed

section \<open>Programs beside each other\<close>

text \<open>
  A system runs any number of programs over one world, an action at a time.  Programs are started at
  any time from a given stock.
\<close>

inductive interleave ::
  "('o \<Rightarrow> bool) \<Rightarrow> (('o, 'w, 'r) prog \<Rightarrow> bool) \<Rightarrow>
   'w \<times> ('o, 'w, 'r) prog list \<Rightarrow> 'w \<times> ('o, 'w, 'r) prog list \<Rightarrow> bool"
  for oracle_ok :: "'o \<Rightarrow> bool" and start :: "('o, 'w, 'r) prog \<Rightarrow> bool" where
  starts: "start p \<Longrightarrow> interleave oracle_ok start (w, ps) (w, ps @ [p])"
| acts: "i < length ps \<Longrightarrow> ps ! i = Act f \<Longrightarrow> oracle_ok orc \<Longrightarrow> f orc w = Some (w', p) \<Longrightarrow>
    interleave oracle_ok start (w, ps) (w', ps[i := p])"

definition idle :: "('w \<Rightarrow> bool) \<Rightarrow> 'w \<times> ('o, 'w, 'r) prog list \<Rightarrow> bool" where
  "idle init s = (init (fst s) \<and> snd s = [])"

definition all_conform ::
  "('o \<Rightarrow> bool) \<Rightarrow> ('w \<Rightarrow> bool) \<Rightarrow> ('o \<Rightarrow> 'w \<Rightarrow> 'w \<Rightarrow> bool) \<Rightarrow> 'w \<times> ('o, 'w, 'r) prog list \<Rightarrow> bool" where
  "all_conform oracle_ok invar guar s = (invar (fst s) \<and>
     (\<forall>p \<in> set (snd s). conforms (\<lambda>orc w. oracle_ok orc \<and> invar w) guar (\<lambda>_. True) p))"

text \<open>
  The contract of such a system: the programs it starts keep to the guarantee, and the guarantee
  keeps the invariant of the world.
\<close>

locale concurrent_system =
  fixes init :: "'w \<Rightarrow> bool" and oracle_ok :: "'o \<Rightarrow> bool" and start :: "('o, 'w, 'r) prog \<Rightarrow> bool"
    and invar :: "'w \<Rightarrow> bool" and guar :: "'o \<Rightarrow> 'w \<Rightarrow> 'w \<Rightarrow> bool"
  assumes init_world: "init w \<Longrightarrow> invar w"
    and start_conforms: "start p \<Longrightarrow> conforms (\<lambda>orc w. oracle_ok orc \<and> invar w) guar (\<lambda>_. True) p"
    and guar_keeps: "oracle_ok orc \<Longrightarrow> invar w \<Longrightarrow> guar orc w w' \<Longrightarrow> invar w'"
begin

lemma interleave_conform:
  assumes "interleave oracle_ok start s s'" and "all_conform oracle_ok invar guar s"
  shows "all_conform oracle_ok invar guar s'"
  using assms
proof (cases rule: interleave.cases)
  case (acts i ps f orc w w' p)
  then have "conforms (\<lambda>orc w. oracle_ok orc \<and> invar w) guar (\<lambda>_. True) (Act f)"
    using assms(2) by (metis all_conform_def nth_mem snd_conv)
  from conforms_step [OF this _ acts(6)] have "guar orc w w'"
    and p: "conforms (\<lambda>orc w. oracle_ok orc \<and> invar w) guar (\<lambda>_. True) p"
    using acts assms(2) by (auto simp: all_conform_def)
  then have "invar w'" using acts assms(2) guar_keeps by (auto simp: all_conform_def)
  with p show ?thesis using acts assms(2) set_update_subset_insert [of ps i p] by (auto simp: all_conform_def)
qed (auto simp: all_conform_def start_conforms)

end

sublocale concurrent_system \<subseteq> sys: invariant_system "idle init" "interleave oracle_ok start"
  "all_conform oracle_ok invar guar"
proof
  show "all_conform oracle_ok invar guar s" if "idle init s" for s :: "'w \<times> ('o, 'w, 'r) prog list"
    using that by (simp add: idle_def all_conform_def init_world)
qed (rule interleave_conform)

context concurrent_system
begin

lemma reachable_invar:
  "reach (idle init) (interleave oracle_ok start) (w, ps) \<Longrightarrow> invar w"
  using sys.reach_invar by (force simp: all_conform_def)

text \<open>Every step of a reachable system starts a program or keeps to the guarantee.\<close>

lemma reachable_step:
  assumes "reach (idle init) (interleave oracle_ok start) (w, ps)"
    and "interleave oracle_ok start (w, ps) (w', ps')"
  shows "w' = w \<or> (\<exists>orc. oracle_ok orc \<and> guar orc w w')"
proof -
  have all: "all_conform oracle_ok invar guar (w, ps)" using assms(1) by (rule sys.reach_invar)
  from assms(2) show ?thesis
  proof (cases rule: interleave.cases)
    case (acts i f orc p)
    then have "conforms (\<lambda>orc w. oracle_ok orc \<and> invar w) guar (\<lambda>_. True) (Act f)"
      using all by (metis all_conform_def nth_mem snd_conv)
    from conforms_step [OF this _ acts(5)] have "guar orc w w'" using acts all by (auto simp: all_conform_def)
    with acts show ?thesis by blast
  qed auto
qed

end

end
