(* ===== verification/World.thy ===== *)
theory World
  imports Host Access ReleasePaths Terminal Prog
begin

text \<open>
  What the handlers share: the database, the two session managers, the cached Access keys and the
  release files; the atomic actions on it; and the guarantee every handler is held to.  A database
  call fails before it takes effect, or after it (a lost acknowledgement), or not at all, as the
  oracle says.
\<close>

section \<open>The shared world\<close>

datatype fault = NoFault | FaultBefore | FaultAfter

text \<open>An answer of the key server: no connection, or a status and the body (none: it broke off).\<close>

datatype fetch_result = FetchFails | FetchReply nat "string option"

text \<open>
  The oracle values of the server.  \<open>or_now\<close> is the clock of the server, \<open>or_db_now\<close> that of the database; \<open>or_choice\<close> decides a
  \<^verbatim>\<open>select\<close> with several ready cases, \<open>or_ok\<close> whether a call to the outside succeeds, \<open>or_data\<close> is what
  such a call delivers, \<open>or_conn\<close> a new connection.
\<close>

record env =
  or_now :: time
  or_db_now :: time
  or_uuid :: id
  or_rnd :: string
  or_rnd_ok :: bool
  or_collate :: "string \<Rightarrow> string"
  or_fault :: fault
  or_fetch :: fetch_result
  or_choice :: bool
  or_ok :: bool
  or_data :: string
  or_conn :: conn

record world =
  wd_db :: db
  wd_proxy :: session_manager
  wd_terminals :: terminal_manager
  wd_keys :: key_set
  wd_fetched_at :: "time option"
  wd_files :: "(string \<times> string) list"

type_synonym server_prog = "(env, world, response) prog"

record handler =
  h_config :: handler_config
  h_lib :: lib
  h_macho :: macho_lib
  h_cwd :: string
  h_install_script :: string
  h_access :: "access_verifier option"
  h_releases :: "store option"

definition newHandler ::
  "lib \<Rightarrow> macho_lib \<Rightarrow> string \<Rightarrow> string \<Rightarrow> store option \<Rightarrow> handler_config \<Rightarrow> string + handler" where
  "newHandler lb ml cwd installScript releases cfg =
     (case newAccessVerifier lb cfg of
        Inl e \<Rightarrow> Inl e
      | Inr access \<Rightarrow> Inr \<lparr>h_config = cfg, h_lib = lb, h_macho = ml, h_cwd = cwd,
          h_install_script = installScript, h_access = access, h_releases = releases\<rparr>)"

section \<open>Actions\<close>

definition db_tx_fun :: "(env \<Rightarrow> db \<Rightarrow> db_error + 'a \<times> db) \<Rightarrow> env \<Rightarrow> world \<Rightarrow> world \<times> (db_error + 'a)" where
  "db_tx_fun f orc w = (case or_fault orc of
     FaultBefore \<Rightarrow> (w, Inl ErrDriver)
   | NoFault \<Rightarrow> (case f orc (wd_db w) of Inl e \<Rightarrow> (w, Inl e) | Inr (x, d) \<Rightarrow> (w\<lparr>wd_db := d\<rparr>, Inr x))
   | FaultAfter \<Rightarrow> (case f orc (wd_db w) of Inl e \<Rightarrow> (w, Inl e) | Inr (x, d) \<Rightarrow> (w\<lparr>wd_db := d\<rparr>, Inl ErrDriver)))"

definition db_tx :: "(env \<Rightarrow> db \<Rightarrow> db_error + 'a \<times> db) \<Rightarrow> (db_error + 'a \<Rightarrow> server_prog) \<Rightarrow> server_prog" where
  "db_tx f k = atomic (db_tx_fun f) k"

definition db_exec :: "(env \<Rightarrow> db \<Rightarrow> db_error + db) \<Rightarrow> (db_error option \<Rightarrow> server_prog) \<Rightarrow> server_prog" where
  "db_exec f k = db_tx (\<lambda>orc d. case f orc d of Inl e \<Rightarrow> Inl e | Inr d' \<Rightarrow> Inr ((), d'))
     (\<lambda>res. k (case res of Inl e \<Rightarrow> Some e | Inr _ \<Rightarrow> None))"

definition db_query :: "(env \<Rightarrow> db \<Rightarrow> db_error + 'a) \<Rightarrow> (db_error + 'a \<Rightarrow> server_prog) \<Rightarrow> server_prog" where
  "db_query f k = atomic (\<lambda>orc w. (w, if or_fault orc = NoFault then f orc (wd_db w) else Inl ErrDriver)) k"

definition on_proxy :: "(env \<Rightarrow> session_manager \<Rightarrow> session_manager \<times> 'a) \<Rightarrow> ('a \<Rightarrow> server_prog) \<Rightarrow> server_prog" where
  "on_proxy f k = atomic (\<lambda>orc w. let (sm, x) = f orc (wd_proxy w) in (w\<lparr>wd_proxy := sm\<rparr>, x)) k"

definition on_terminals ::
  "(env \<Rightarrow> terminal_manager \<Rightarrow> terminal_manager \<times> 'a) \<Rightarrow> ('a \<Rightarrow> server_prog) \<Rightarrow> server_prog" where
  "on_terminals f k = atomic (\<lambda>orc w. let (tm, x) = f orc (wd_terminals w) in (w\<lparr>wd_terminals := tm\<rparr>, x)) k"

definition on_files ::
  "(env \<Rightarrow> (string \<times> string) list \<Rightarrow> (string \<times> string) list \<times> 'a) \<Rightarrow> ('a \<Rightarrow> server_prog) \<Rightarrow> server_prog" where
  "on_files f k = atomic (\<lambda>orc w. let (fs, x) = f orc (wd_files w) in (w\<lparr>wd_files := fs\<rparr>, x)) k"

text \<open>A call to the outside that changes nothing here: what the oracle answers.\<close>

definition external :: "(env \<Rightarrow> 'a) \<Rightarrow> ('a \<Rightarrow> server_prog) \<Rightarrow> server_prog" where
  "external f k = atomic (\<lambda>orc w. (w, f orc)) k"

subsection \<open>Proxy sessions\<close>

definition proxy_create :: "proxy_target \<Rightarrow> id \<Rightarrow> id \<Rightarrow> int \<Rightarrow> (proxy_session \<Rightarrow> server_prog) \<Rightarrow> server_prog" where
  "proxy_create target vmID workerID port k = on_proxy (\<lambda>orc sm.
     let (a, sm') = create_session (or_rnd orc) (or_uuid orc) (or_now orc) target vmID workerID port sm
     in (sm', session_at sm' a)) k"

text \<open>\<^verbatim>\<open>Close\<close>: two critical sections.\<close>

definition proxy_close :: "id \<Rightarrow> server_prog \<Rightarrow> server_prog" where
  "proxy_close sessionID k =
     on_proxy (\<lambda>orc sm. case get_session sm sessionID of
         None \<Rightarrow> (sm, None)
       | Some a \<Rightarrow> (unregister sessionID sm, Some a))
     (\<lambda>p. case p of None \<Rightarrow> k | Some a \<Rightarrow> on_proxy (\<lambda>orc sm. (end_session a sm, ())) (\<lambda>_. k))"

definition proxy_close_where :: "(proxy_session \<Rightarrow> bool) \<Rightarrow> server_prog \<Rightarrow> server_prog" where
  "proxy_close_where P k =
     inspect (\<lambda>w. ids_where P (wd_proxy w)) (\<lambda>ids. each proxy_close ids k)"

text \<open>\<^verbatim>\<open>SetConn\<close>: the lookup, then the critical section of the session.\<close>

definition proxy_set_conn :: "id \<Rightarrow> string \<Rightarrow> conn \<Rightarrow> (bool \<Rightarrow> server_prog) \<Rightarrow> server_prog" where
  "proxy_set_conn sessionID role c k =
     inspect (\<lambda>w. get_session (wd_proxy w) sessionID)
     (\<lambda>p. case p of None \<Rightarrow> k False
        | Some a \<Rightarrow> on_proxy (\<lambda>orc sm. let (ready, sm') = set_conn_at role c a sm in (sm', ready)) k)"

subsection \<open>Running the actions alone\<close>

lemma exec_db_query [simp]:
  "exec (e # os) w (db_query f k) = exec os w (k (if or_fault e = NoFault then f e (wd_db w) else Inl ErrDriver))"
  by (simp add: db_query_def)

lemma exec_db_tx:
  "exec (e # os) w (db_tx f k) = exec os (fst (db_tx_fun f e w)) (k (snd (db_tx_fun f e w)))"
  by (simp add: db_tx_def)

lemma exec_db_tx_ok [simp]:
  "or_fault e = NoFault \<Longrightarrow> exec (e # os) w (db_tx f k) = (case f e (wd_db w) of
     Inl err \<Rightarrow> exec os w (k (Inl err)) | Inr (x, d) \<Rightarrow> exec os (w\<lparr>wd_db := d\<rparr>) (k (Inr x)))"
  by (auto simp: exec_db_tx db_tx_fun_def split: sum.splits)

lemma exec_db_exec_ok [simp]:
  "or_fault e = NoFault \<Longrightarrow> exec (e # os) w (db_exec f k) = (case f e (wd_db w) of
     Inl err \<Rightarrow> exec os w (k (Some err)) | Inr d \<Rightarrow> exec os (w\<lparr>wd_db := d\<rparr>) (k None))"
  by (auto simp: db_exec_def split: sum.splits)

lemma exec_parts [simp]:
  "exec (e # os) w (on_proxy f p) = exec os (w\<lparr>wd_proxy := fst (f e (wd_proxy w))\<rparr>) (p (snd (f e (wd_proxy w))))"
  "exec (e # os) w (on_terminals g q) = exec os (w\<lparr>wd_terminals := fst (g e (wd_terminals w))\<rparr>) (q (snd (g e (wd_terminals w))))"
  "exec (e # os) w (on_files i r) = exec os (w\<lparr>wd_files := fst (i e (wd_files w))\<rparr>) (r (snd (i e (wd_files w))))"
  "exec (e # os) w (external j s) = exec os w (s (j e))"
  by (simp_all add: on_proxy_def on_terminals_def on_files_def external_def Let_def case_prod_beta)

section \<open>Who may change what in the database\<close>

text \<open>
  The principals a request can be authenticated as, and the database steps each may take.
\<close>

datatype principal =
    AsMember id
  | AsSubject string string
  | AsWorker id
  | AsHardware string
  | AsEnrollment
  | AsAdmin

inductive db_act :: "principal \<Rightarrow> db \<Rightarrow> db \<Rightarrow> bool" where
  act_sign_in: "upsertMemberFromAccess now uuid sub email d = Inr (m, d') \<Longrightarrow> db_act (AsSubject sub email) d d'"
| act_claim: "claimWorkstation collate server_now now uuid m p d = Inr (r, d') \<Longrightarrow> db_act (AsMember m) d d'"
| act_ensure: "ensureWorkstationRunningByIDForMember now m k d = Inr (x, d') \<Longrightarrow> db_act (AsMember m) d d'"
| act_desire: "updateWorkstationDesiredPowerStateByID now m k des d = Inr (x, d') \<Longrightarrow> db_act (AsMember m) d d'"
| act_touch: "db_act (AsWorker k) d (touchWorkerTokenUsage now k d)"
| act_heartbeat: "db_act (AsWorker k) d (updateHeartbeat now k d)"
| act_report: "updateWorkstationStatus now k r d = Inr d' \<Longrightarrow> db_act (AsWorker k) d d'"
| act_register: "wk_id row = generateWorkerID u \<Longrightarrow> wk_hardware_uuid row = u \<Longrightarrow>
    upsertWorker now row d = Inr d' \<Longrightarrow> db_act (AsHardware u) d d'"
| act_issue: "issueWorkerToken now rnd (generateWorkerID u) d = Inr (tok, d') \<Longrightarrow> db_act (AsHardware u) d d'"
| act_hostname: "assignHostname now u d = Inr (h, d') \<Longrightarrow> db_act AsEnrollment d d'"
| act_publish: "insertRelease now uuid r d = Inr (r', d') \<Longrightarrow> db_act AsAdmin d d'"

lemma db_act_step: "db_act p d d' \<Longrightarrow> db_step d d'"
proof (induction rule: db_act.induct)
  case (act_ensure now m k d x d')
  then have "d' = ws_apply now (Ensure m k) d" by simp
  then show ?case by (simp only: db_step.power)
next
  case (act_desire now m k des d x d')
  then have "d' = ws_apply now (Desire m k des) d" by simp
  then show ?case by (simp only: db_step.power)
next
  case (act_report now k r d d')
  then have "d' = ws_apply now (Report k r) d" by simp
  then show ?case by (simp only: db_step.power)
qed (auto intro: db_step.intros)

section \<open>The guarantee of a handler\<close>

text \<open>
  Each action leaves the database alone or takes a step one of the given principals may take, and
  leaves the cached keys alone or replaces them by trusted ones.
\<close>

definition trusted_keys :: "(rsa_public_key \<Rightarrow> bool) \<Rightarrow> key_set \<Rightarrow> bool" where
  "trusted_keys T ks = list_all (\<lambda>(_, key). T key) ks"

definition guar :: "(principal \<Rightarrow> bool) \<Rightarrow> (rsa_public_key \<Rightarrow> bool) \<Rightarrow> env \<Rightarrow> world \<Rightarrow> world \<Rightarrow> bool" where
  "guar P T orc w w' =
     ((wd_db w' = wd_db w \<or> (\<exists>p. P p \<and> db_act p (wd_db w) (wd_db w'))) \<and>
      (wd_keys w' = wd_keys w \<or> trusted_keys T (wd_keys w')))"

lemma guar_refl [simp]: "guar P T orc w w"
  by (simp add: guar_def)

lemma guar_same: "wd_db w' = wd_db w \<Longrightarrow> wd_keys w' = wd_keys w \<Longrightarrow> guar P T orc w w'"
  by (simp add: guar_def)

lemma guar_mono: "guar P T orc w w' \<Longrightarrow> (\<And>p. P p \<Longrightarrow> P' p) \<Longrightarrow> guar P' T orc w w'"
  by (auto simp: guar_def)

lemma db_tx_fun_NoFault:
  "or_fault orc = NoFault \<Longrightarrow> f orc (wd_db w) = Inr (x, d) \<Longrightarrow> db_tx_fun f orc w = (w\<lparr>wd_db := d\<rparr>, Inr x)"
  "or_fault orc = NoFault \<Longrightarrow> f orc (wd_db w) = Inl e \<Longrightarrow> db_tx_fun f orc w = (w, Inl e)"
  by (simp_all add: db_tx_fun_def)

named_theorems conform \<open>programs keep to a guarantee if their parts do\<close>

lemma conforms_db_tx [conform]:
  assumes "\<And>orc w x d. A orc w \<Longrightarrow> f orc (wd_db w) = Inr (x, d) \<Longrightarrow> \<exists>p. P p \<and> db_act p (wd_db w) d"
    and "\<And>orc w x d. A orc w \<Longrightarrow> f orc (wd_db w) = Inr (x, d) \<Longrightarrow> conforms A (guar P T) Q (k (Inr x))"
    and "\<And>e. conforms A (guar P T) Q (k (Inl e))"
  shows "conforms A (guar P T) Q (db_tx f k)"
  unfolding db_tx_def
  by (rule conforms_atomic)
    (use assms in \<open>auto simp: db_tx_fun_def guar_def split: fault.splits sum.splits\<close>)

lemma conforms_db_exec [conform]:
  assumes "\<And>orc w d. A orc w \<Longrightarrow> f orc (wd_db w) = Inr d \<Longrightarrow> \<exists>p. P p \<and> db_act p (wd_db w) d"
    and "\<And>e. conforms A (guar P T) Q (k e)"
  shows "conforms A (guar P T) Q (db_exec f k)"
  unfolding db_exec_def
  by (rule conforms_db_tx) (use assms in \<open>auto split: sum.splits\<close>)

lemma conforms_db_query [conform]:
  assumes "\<And>orc w x. A orc w \<Longrightarrow> f orc (wd_db w) = Inr x \<Longrightarrow> conforms A (guar P T) Q (k (Inr x))"
    and "\<And>e orc w. A orc w \<Longrightarrow> e = ErrDriver \<or> f orc (wd_db w) = Inl e \<Longrightarrow> conforms A (guar P T) Q (k (Inl e))"
  shows "conforms A (guar P T) Q (db_query f k)"
  unfolding db_query_def
proof (rule conforms_atomic)
  fix orc w
  assume "A orc w"
  then show "guar P T orc w (fst (w, if or_fault orc = NoFault then f orc (wd_db w) else Inl ErrDriver)) \<and>
    conforms A (guar P T) Q (k (snd (w, if or_fault orc = NoFault then f orc (wd_db w) else Inl ErrDriver)))"
    using assms by (cases "f orc (wd_db w)") auto
qed

lemma conforms_on_proxy [conform]:
  assumes "\<And>x. conforms A (guar P T) Q (k x)"
  shows "conforms A (guar P T) Q (on_proxy f k)"
  unfolding on_proxy_def
  by (rule conforms_atomic) (use assms in \<open>auto simp: Let_def case_prod_beta guar_same\<close>)

lemma conforms_on_terminals [conform]:
  assumes "\<And>x. conforms A (guar P T) Q (k x)"
  shows "conforms A (guar P T) Q (on_terminals f k)"
  unfolding on_terminals_def
  by (rule conforms_atomic) (use assms in \<open>auto simp: Let_def case_prod_beta guar_same\<close>)

lemma conforms_on_files [conform]:
  assumes "\<And>x. conforms A (guar P T) Q (k x)"
  shows "conforms A (guar P T) Q (on_files f k)"
  unfolding on_files_def
  by (rule conforms_atomic) (use assms in \<open>auto simp: Let_def case_prod_beta guar_same\<close>)

lemma conforms_external [conform]:
  assumes "\<And>orc w. A orc w \<Longrightarrow> conforms A (guar P T) Q (k (f orc))"
  shows "conforms A (guar P T) Q (external f k)"
  unfolding external_def by (rule conforms_atomic) (use assms in auto)

lemma conforms_inspect_db [conform]:
  assumes "\<And>orc w. A orc w \<Longrightarrow> conforms A (guar P T) Q (k (g w))"
  shows "conforms A (guar P T) Q (inspect g k)"
  by (rule conforms_inspect) (use assms in auto)

lemma conforms_await_db [conform]:
  assumes "\<And>orc w w' x. f orc w = Some (w', x) \<Longrightarrow> wd_db w' = wd_db w \<and> wd_keys w' = wd_keys w"
    and "\<And>x. conforms A (guar P T) Q (k x)"
  shows "conforms A (guar P T) Q (await f k)"
  by (rule conforms_await) (use assms in \<open>auto simp: guar_same\<close>)

lemma conforms_proxy_create [conform]:
  "(\<And>s. conforms A (guar P T) Q (k s)) \<Longrightarrow> conforms A (guar P T) Q (proxy_create t v wk p k)"
  unfolding proxy_create_def by (rule conforms_on_proxy)

lemma conforms_proxy_close [conform]:
  "conforms A (guar P T) Q k \<Longrightarrow> conforms A (guar P T) Q (proxy_close sid k)"
  unfolding proxy_close_def by (intro conforms_on_proxy) (auto intro: conforms_on_proxy split: option.splits)

lemma conforms_proxy_close_where [conform]:
  "conforms A (guar P T) Q k \<Longrightarrow> conforms A (guar P T) Q (proxy_close_where S k)"
  unfolding proxy_close_where_def
  by (intro conforms_inspect_db conforms_each conforms_proxy_close)

lemma conforms_proxy_set_conn [conform]:
  "(\<And>b. conforms A (guar P T) Q (k b)) \<Longrightarrow> conforms A (guar P T) Q (proxy_set_conn sid role c k)"
  unfolding proxy_set_conn_def
  by (intro conforms_inspect_db) (auto intro: conforms_on_proxy split: option.splits)

section \<open>A small server\<close>

definition sample_env :: env where
  "sample_env = \<lparr>or_now = 100, or_db_now = 100, or_uuid = ''u1'', or_rnd = ''r'', or_rnd_ok = True,
     or_collate = (\<lambda>s. s), or_fault = NoFault, or_fetch = FetchFails, or_choice = False, or_ok = True,
     or_data = [], or_conn = 7\<rparr>"

definition sample_world :: world where
  "sample_world = \<lparr>wd_db = sample_db, wd_proxy = newSessionManager, wd_terminals = newTerminalSessionManager,
     wd_keys = [], wd_fetched_at = None, wd_files = []\<rparr>"

definition sample_handler :: handler where
  "sample_handler = \<lparr>h_config = sample_config, h_lib = sample_lib,
     h_macho = \<lparr>macho_open = (\<lambda>_. None), macho_open_fat = (\<lambda>_. None), cms_certificates = (\<lambda>_. None)\<rparr>,
     h_cwd = ''/'', h_install_script = [], h_access = None, h_releases = Some sample_store\<rparr>"

end
