(* ===== verification/Auth.thy ===== *)
theory Auth
  imports World
begin

text \<open>
  Authentication: the four middlewares of \<^verbatim>\<open>api/rest/auth.go\<close>, the key cache of \<^verbatim>\<open>access.go\<close> and the
  host checks of \<^verbatim>\<open>host.go\<close>, as programs over the shared world, and the credentials of a
  registration.  Then what it means that a request is entitled to act as a principal, and that
  every middleware passes on only such requests.
\<close>

section \<open>Access tokens\<close>

definition refreshKeys :: "lib \<Rightarrow> (access_error option \<Rightarrow> server_prog) \<Rightarrow> server_prog" where
  "refreshKeys lb k = external or_fetch (\<lambda>f. case f of
     FetchFails \<Rightarrow> k (Some FetchCerts)
   | FetchReply status body \<Rightarrow>
      if status \<noteq> 200 then k (Some FetchCerts)
      else (case body of
          None \<Rightarrow> k (Some FetchCerts)
        | Some b \<Rightarrow> (case parseAccessCerts lb (take (2 ^ 20) b) of
            Inl e \<Rightarrow> k (Some e)
          | Inr ks \<Rightarrow> atomic (\<lambda>orc w. (w\<lparr>wd_keys := ks, wd_fetched_at := Some (or_now orc)\<rparr>, ()))
              (\<lambda>_. k None))))"

definition keys_stale :: "time \<Rightarrow> time option \<Rightarrow> bool" where
  "keys_stale now fetched = (case fetched of None \<Rightarrow> True | Some t \<Rightarrow> now - t > 5 * 60 * second)"

definition lookupKey :: "lib \<Rightarrow> string \<Rightarrow> (access_error + rsa_public_key \<Rightarrow> server_prog) \<Rightarrow> server_prog" where
  "lookupKey lb kid k =
     atomic (\<lambda>orc w. (w, (map_of (wd_keys w) kid, keys_stale (or_now orc) (wd_fetched_at w))))
     (\<lambda>(cached, stale). case (cached, stale) of
        (Some key, False) \<Rightarrow> k (Inr key)
      | _ \<Rightarrow> refreshKeys lb (\<lambda>err. case err of
          Some e \<Rightarrow> k (Inl e)
        | None \<Rightarrow> inspect (\<lambda>w. map_of (wd_keys w) kid) (\<lambda>found. case found of
            None \<Rightarrow> k (Inl UnknownKeyID)
          | Some key \<Rightarrow> k (Inr key))))"

definition verify :: "lib \<Rightarrow> access_verifier \<Rightarrow> string \<Rightarrow> (access_error + access_claims \<Rightarrow> server_prog) \<Rightarrow> server_prog" where
  "verify lb v token k = external or_now (\<lambda>clock. case parse_token v clock token of
     Inl e \<Rightarrow> k (Inl e)
   | Inr (kid, claims) \<Rightarrow> lookupKey lb kid (\<lambda>found. case found of
       Inl e \<Rightarrow> k (Inl e)
     | Inr key \<Rightarrow> (case check_signature key token of
         Some e \<Rightarrow> k (Inl e)
       | None \<Rightarrow> k (Inr claims))))"

section \<open>Middlewares\<close>

definition access_token :: "request \<Rightarrow> string" where
  "access_token r = (let token = trimSpace (rq_access_jwt r)
     in if token = [] then (case rq_access_cookie r of None \<Rightarrow> [] | Some c \<Rightarrow> trimSpace c) else token)"

definition requireAccessAuth :: "handler \<Rightarrow> (request \<Rightarrow> server_prog) \<Rightarrow> request \<Rightarrow> server_prog" where
  "requireAccessAuth h next r = (case h_access h of
     None \<Rightarrow> Done (writeError 503 ''access auth not configured'')
   | Some v \<Rightarrow>
      if access_token r = [] then Done (writeError 401 ''missing access token'')
      else verify (h_lib h) v (access_token r) (\<lambda>res. case res of
          Inl e \<Rightarrow> Done (writeError 401 ''invalid access token'')
        | Inr claims \<Rightarrow>
            db_tx (\<lambda>orc. upsertMemberFromAccess (or_db_now orc) (or_uuid orc) (cl_subject claims) (cl_email claims))
            (\<lambda>res. case res of
               Inl e \<Rightarrow> Done (writeError 500 ''failed to load member'')
             | Inr m \<Rightarrow> next (r\<lparr>rq_member := Some m\<rparr>))))"

definition requireAdminAuth :: "handler \<Rightarrow> (request \<Rightarrow> server_prog) \<Rightarrow> request \<Rightarrow> server_prog" where
  "requireAdminAuth h next r =
     (if \<not> tokensMatch (adminToken (h_config h)) (bearerToken (rq_authorization r))
      then Done (writeError 401 ''unauthorized'') else next r)"

definition requireEnrollmentAuth :: "handler \<Rightarrow> (request \<Rightarrow> server_prog) \<Rightarrow> request \<Rightarrow> server_prog" where
  "requireEnrollmentAuth h next r =
     (if \<not> tokensMatch (enrollmentToken (h_config h)) (bearerToken (rq_authorization r))
      then Done (writeError 401 ''unauthorized'') else next r)"

definition requireWorkerAuth :: "handler \<Rightarrow> (request \<Rightarrow> server_prog) \<Rightarrow> request \<Rightarrow> server_prog" where
  "requireWorkerAuth h next r =
     db_query (\<lambda>orc. authenticateWorkerToken (bearerToken (rq_authorization r)))
     (\<lambda>res. case res of
        Inl e \<Rightarrow> Done (writeError 401 ''unauthorized'')
      | Inr worker \<Rightarrow>
          db_exec (\<lambda>orc d. Inr (touchWorkerTokenUsage (or_db_now orc) (wk_id worker) d))
          (\<lambda>_. next (r\<lparr>rq_worker := Some \<lparr>aw_id = wk_id worker, aw_hardware_uuid = wk_hardware_uuid worker\<rparr>\<rparr>)))"

definition requireBrowserHost :: "handler \<Rightarrow> (request \<Rightarrow> server_prog) \<Rightarrow> request \<Rightarrow> server_prog" where
  "requireBrowserHost h next r =
     (if \<not> matchesBrowserHost (h_lib h) (h_config h) r then Done httpNotFound else next r)"

definition requireWorkerHost :: "handler \<Rightarrow> (request \<Rightarrow> server_prog) \<Rightarrow> request \<Rightarrow> server_prog" where
  "requireWorkerHost h next r =
     (if \<not> matchesWorkerHost (h_lib h) (h_config h) r then Done httpNotFound else next r)"

definition requireCurrentWorker :: "request \<Rightarrow> (authenticated_worker \<Rightarrow> server_prog) \<Rightarrow> server_prog" where
  "requireCurrentWorker r k = (case currentWorker r of
     Some worker \<Rightarrow> k worker
   | None \<Rightarrow> Done (writeError 401 ''unauthorized''))"

definition requireWorkerPathMatch :: "request \<Rightarrow> (authenticated_worker \<Rightarrow> server_prog) \<Rightarrow> server_prog" where
  "requireWorkerPathMatch r k = requireCurrentWorker r (\<lambda>worker.
     if rq_path_id r = aw_id worker then k worker
     else Done (writeError 403 ''worker_id mismatch''))"

section \<open>The credentials of a registration\<close>

record worker_register_request =
  wr_hostname :: string
  wr_hardware_uuid :: string
  wr_cpu_cores :: int
  wr_memory_bytes :: int
  wr_tart_version :: string
  wr_worker_version :: string
  wr_worker_token :: string

definition register_fields :: "worker_register_request field list" where
  "register_fields =
     [(''hostname'', str_field (\<lambda>v q. q\<lparr>wr_hostname := v\<rparr>)),
      (''hardware_uuid'', str_field (\<lambda>v q. q\<lparr>wr_hardware_uuid := v\<rparr>)),
      (''cpu_cores'', int_field (\<lambda>v q. q\<lparr>wr_cpu_cores := v\<rparr>)),
      (''memory_bytes'', int_field (\<lambda>v q. q\<lparr>wr_memory_bytes := v\<rparr>)),
      (''tart_version'', str_field (\<lambda>v q. q\<lparr>wr_tart_version := v\<rparr>)),
      (''worker_version'', str_field (\<lambda>v q. q\<lparr>wr_worker_version := v\<rparr>)),
      (''worker_token'', str_field (\<lambda>v q. q\<lparr>wr_worker_token := v\<rparr>))]"

definition zero_register :: worker_register_request where
  "zero_register = \<lparr>wr_hostname = [], wr_hardware_uuid = [], wr_cpu_cores = 0, wr_memory_bytes = 0,
     wr_tart_version = [], wr_worker_version = [], wr_worker_token = []\<rparr>"

section \<open>Entitlement\<close>

text \<open>
  What the authentication rests on, named: \<open>tr_key\<close> are the keys of the Access issuer,
  \<open>tr_member\<close> relates a subject to the member it signed in as, \<open>tr_worker\<close> a bearer token to the
  worker it was issued to.  \<open>relies\<close> says that the key server, the member rows and the token digests
  in the world are so.
\<close>

record trust =
  tr_key :: "rsa_public_key \<Rightarrow> bool"
  tr_member :: "string \<Rightarrow> id \<Rightarrow> bool"
  tr_worker :: "string \<Rightarrow> id \<Rightarrow> bool"

definition relies :: "lib \<Rightarrow> trust \<Rightarrow> env \<Rightarrow> world \<Rightarrow> bool" where
  "relies lb t orc w = (db_ok (wd_db w) \<and> trusted_keys (tr_key t) (wd_keys w) \<and>
     (\<forall>b ks. or_fetch orc = FetchReply 200 (Some b) \<longrightarrow> parseAccessCerts lb (take (2 ^ 20) b) = Inr ks \<longrightarrow>
        trusted_keys (tr_key t) ks) \<and>
     (\<forall>sub email m d. upsertMemberFromAccess (or_db_now orc) (or_uuid orc) sub email (wd_db w) = Inr (m, d) \<longrightarrow>
        tr_member t sub (mb_id m)) \<and>
     (\<forall>tok. \<forall>row \<in> set (db_workers (wd_db w)). wk_auth_token_hash row = Some (hashWorkerToken tok) \<and>
        wk_auth_token_revoked_at row = None \<longrightarrow> tr_worker t tok (wk_id row)))"

lemma relies_db_ok: "relies lb t orc w \<Longrightarrow> db_ok (wd_db w)"
  by (simp add: relies_def)

lemma relies_worker:
  "relies lb t orc w \<Longrightarrow> row \<in> set (db_workers (wd_db w)) \<Longrightarrow> wk_auth_token_hash row = Some (hashWorkerToken tok) \<Longrightarrow>
   wk_auth_token_revoked_at row = None \<Longrightarrow> tr_worker t tok (wk_id row)"
  unfolding relies_def by blast

definition access_valid :: "handler \<Rightarrow> trust \<Rightarrow> request \<Rightarrow> string \<Rightarrow> string \<Rightarrow> bool" where
  "access_valid h t r sub email = (\<exists>v clock kid claims key. h_access h = Some v \<and>
     parse_token v clock (access_token r) = Inr (kid, claims) \<and> tr_key t key \<and>
     check_signature key (access_token r) = None \<and> cl_subject claims = sub \<and> cl_email claims = email)"

fun authentic :: "handler \<Rightarrow> trust \<Rightarrow> request \<Rightarrow> principal \<Rightarrow> bool" where
  "authentic h t r (AsSubject sub email) = access_valid h t r sub email"
| "authentic h t r (AsMember i) = (\<exists>sub email. access_valid h t r sub email \<and> tr_member t sub i)"
| "authentic h t r (AsWorker k) = tr_worker t (bearerToken (rq_authorization r)) k"
| "authentic h t r (AsHardware u) = (\<exists>q. decodeJSONBody register_fields zero_register r = Some q \<and>
     wr_hardware_uuid q = u \<and> (tokensMatch (enrollmentToken (h_config h)) (wr_worker_token q) \<or>
       tr_worker t (wr_worker_token q) (generateWorkerID u)))"
| "authentic h t r AsEnrollment = tokensMatch (enrollmentToken (h_config h)) (bearerToken (rq_authorization r))"
| "authentic h t r AsAdmin = tokensMatch (adminToken (h_config h)) (bearerToken (rq_authorization r))"

lemma access_token_context [simp]:
  "access_token (r\<lparr>rq_member := x\<rparr>) = access_token r" "access_token (r\<lparr>rq_worker := y\<rparr>) = access_token r"
  by (simp_all add: access_token_def Let_def)

lemma access_valid_context [simp]:
  "access_valid h t (r\<lparr>rq_member := x\<rparr>) = access_valid h t r"
  "access_valid h t (r\<lparr>rq_worker := y\<rparr>) = access_valid h t r"
  by (simp_all add: access_valid_def fun_eq_iff)

lemma decodeJSONBody_context [simp]:
  "decodeJSONBody fs z (r\<lparr>rq_member := x\<rparr>) = decodeJSONBody fs z r"
  "decodeJSONBody fs z (r\<lparr>rq_worker := y\<rparr>) = decodeJSONBody fs z r"
  by (simp_all add: decodeJSONBody_def)

lemma authentic_context [simp]:
  "authentic h t (r\<lparr>rq_member := x\<rparr>) p = authentic h t r p"
  "authentic h t (r\<lparr>rq_worker := y\<rparr>) p = authentic h t r p"
  by (cases p; simp)+

text \<open>What a handler of this server is held to, for the credentials of request \<open>r\<close>.\<close>

abbreviation entitled :: "handler \<Rightarrow> trust \<Rightarrow> request \<Rightarrow> server_prog \<Rightarrow> bool" where
  "entitled h t r p \<equiv> conforms (relies (h_lib h) t) (guar (authentic h t r) (tr_key t)) (\<lambda>_. True) p"

text \<open>The identity a middleware puts into the request is one the credentials entitle to.\<close>

definition context_ok :: "handler \<Rightarrow> trust \<Rightarrow> request \<Rightarrow> request \<Rightarrow> bool" where
  "context_ok h t r r' =
     ((\<forall>m. rq_member r' = Some m \<longrightarrow> authentic h t r (AsMember (mb_id m))) \<and>
      (\<forall>k. rq_worker r' = Some k \<longrightarrow> authentic h t r (AsWorker (aw_id k))) \<and>
      rq_body r' = rq_body r)"

lemma trusted_lookup: "trusted_keys T ks \<Longrightarrow> map_of ks kid = Some key \<Longrightarrow> T key"
  by (auto simp: trusted_keys_def list_all_iff dest: map_of_SomeD)

section \<open>The middlewares pass on only entitled requests\<close>

lemma conforms_refreshKeys:
  assumes "\<And>orc w. A orc w \<Longrightarrow> relies lb t orc w" and "\<And>e. conforms A (guar P (tr_key t)) Q (k e)"
  shows "conforms A (guar P (tr_key t)) Q (refreshKeys lb k)"
  unfolding refreshKeys_def
proof (rule conforms_external)
  fix orc w
  assume "A orc w"
  then have rel: "relies lb t orc w" by (rule assms(1))
  have "conforms A (guar P (tr_key t)) Q
      (atomic (\<lambda>orc w. (w\<lparr>wd_keys := ks, wd_fetched_at := Some (or_now orc)\<rparr>, ())) (\<lambda>_. k None))"
    if "trusted_keys (tr_key t) ks" for ks
    by (rule conforms_atomic) (use that assms(2) in \<open>simp add: guar_def\<close>)
  with rel assms(2) show "conforms A (guar P (tr_key t)) Q (case or_fetch orc of
     FetchFails \<Rightarrow> k (Some FetchCerts)
   | FetchReply status body \<Rightarrow>
      if status \<noteq> 200 then k (Some FetchCerts)
      else (case body of
          None \<Rightarrow> k (Some FetchCerts)
        | Some b \<Rightarrow> (case parseAccessCerts lb (take (2 ^ 20) b) of
            Inl e \<Rightarrow> k (Some e)
          | Inr ks \<Rightarrow> atomic (\<lambda>orc w. (w\<lparr>wd_keys := ks, wd_fetched_at := Some (or_now orc)\<rparr>, ()))
              (\<lambda>_. k None))))"
    by (auto simp: relies_def split: fetch_result.splits option.splits sum.splits)
qed

lemma conforms_lookupKey:
  assumes "\<And>orc w. A orc w \<Longrightarrow> relies lb t orc w" and "\<And>e. conforms A (guar P (tr_key t)) Q (k (Inl e))"
    and "\<And>key. tr_key t key \<Longrightarrow> conforms A (guar P (tr_key t)) Q (k (Inr key))"
  shows "conforms A (guar P (tr_key t)) Q (lookupKey lb kid k)"
proof -
  have trusted: "tr_key t key" if "A orc w" "map_of (wd_keys w) kid = Some key" for orc w key
    using assms(1) [OF that(1)] that(2) trusted_lookup by (auto simp: relies_def)
  let ?refresh = "refreshKeys lb (\<lambda>err. case err of
          Some e \<Rightarrow> k (Inl e)
        | None \<Rightarrow> inspect (\<lambda>w. map_of (wd_keys w) kid) (\<lambda>found. case found of
            None \<Rightarrow> k (Inl UnknownKeyID)
          | Some key \<Rightarrow> k (Inr key)))"
  have refresh: "conforms A (guar P (tr_key t)) Q ?refresh"
  proof (rule conforms_refreshKeys [OF assms(1)], assumption)
    fix err
    show "conforms A (guar P (tr_key t)) Q (case err of
          Some e \<Rightarrow> k (Inl e)
        | None \<Rightarrow> inspect (\<lambda>w. map_of (wd_keys w) kid) (\<lambda>found. case found of
            None \<Rightarrow> k (Inl UnknownKeyID)
          | Some key \<Rightarrow> k (Inr key)))"
      by (cases err) (auto intro!: conforms_inspect_db assms(2,3) dest: trusted split: option.splits)
  qed
  show ?thesis
    unfolding lookupKey_def
    by (rule conforms_atomic) (use refresh trusted assms(3) in \<open>auto split: option.splits bool.splits\<close>)
qed

lemma conforms_verify:
  assumes "\<And>e. conforms (relies lb t) (guar P (tr_key t)) Q (k (Inl e))"
    and "\<And>clock kid claims key. parse_token v clock token = Inr (kid, claims) \<Longrightarrow> tr_key t key \<Longrightarrow>
      check_signature key token = None \<Longrightarrow> conforms (relies lb t) (guar P (tr_key t)) Q (k (Inr claims))"
  shows "conforms (relies lb t) (guar P (tr_key t)) Q (verify lb v token k)"
  unfolding verify_def
proof (rule conforms_external)
  fix orc w
  show "conforms (relies lb t) (guar P (tr_key t)) Q (case parse_token v (or_now orc) token of
     Inl e \<Rightarrow> k (Inl e)
   | Inr (kid, claims) \<Rightarrow> lookupKey lb kid (\<lambda>found. case found of
       Inl e \<Rightarrow> k (Inl e)
     | Inr key \<Rightarrow> (case check_signature key token of Some e \<Rightarrow> k (Inl e) | None \<Rightarrow> k (Inr claims))))"
  proof (cases "parse_token v (or_now orc) token")
    case (Inr kc)
    obtain kid claims where kc: "kc = (kid, claims)" by force
    have "conforms (relies lb t) (guar P (tr_key t)) Q (lookupKey lb kid (\<lambda>found. case found of
       Inl e \<Rightarrow> k (Inl e)
     | Inr key \<Rightarrow> (case check_signature key token of Some e \<Rightarrow> k (Inl e) | None \<Rightarrow> k (Inr claims))))"
      by (rule conforms_lookupKey, assumption)
        (use assms Inr kc in \<open>auto split: option.splits\<close>)
    then show ?thesis using Inr kc by simp
  qed (simp add: assms(1))
qed

lemma upsertMember_sub: "upsertMemberFromAccess now uuid sub email d = Inr (m, d') \<Longrightarrow> mb_access_sub m = sub"
  by (auto simp: upsertMemberFromAccess_def Let_def split: option.splits if_splits dest: mbt.lookup_SomeD)

lemma conforms_requireAccessAuth:
  assumes "\<And>resp. status_of resp \<in> {401, 500, 503} \<Longrightarrow> Q resp"
    and "\<And>m email. access_valid h t r (mb_access_sub m) email \<Longrightarrow> tr_member t (mb_access_sub m) (mb_id m) \<Longrightarrow>
      conforms (relies (h_lib h) t) (guar (authentic h t r) (tr_key t)) Q (next (r\<lparr>rq_member := Some m\<rparr>))"
  shows "conforms (relies (h_lib h) t) (guar (authentic h t r) (tr_key t)) Q (requireAccessAuth h next r)"
proof (cases "h_access h")
  case (Some v)
  have "conforms (relies (h_lib h) t) (guar (authentic h t r) (tr_key t)) Q
      (verify (h_lib h) v (access_token r) (\<lambda>res. case res of
          Inl e \<Rightarrow> Done (writeError 401 ''invalid access token'')
        | Inr claims \<Rightarrow>
            db_tx (\<lambda>orc. upsertMemberFromAccess (or_db_now orc) (or_uuid orc) (cl_subject claims) (cl_email claims))
            (\<lambda>res. case res of
               Inl e \<Rightarrow> Done (writeError 500 ''failed to load member'')
             | Inr m \<Rightarrow> next (r\<lparr>rq_member := Some m\<rparr>))))"
    (is "conforms ?A ?G Q _")
  proof (rule conforms_verify)
    fix clock kid claims key
    assume "parse_token v clock (access_token r) = Inr (kid, claims)" "tr_key t key"
      "check_signature key (access_token r) = None"
    with Some have valid: "access_valid h t r (cl_subject claims) (cl_email claims)"
      by (auto simp: access_valid_def)
    have "conforms ?A ?G Q (db_tx (\<lambda>orc. upsertMemberFromAccess (or_db_now orc) (or_uuid orc) (cl_subject claims) (cl_email claims))
            (\<lambda>res. case res of
               Inl e \<Rightarrow> Done (writeError 500 ''failed to load member'')
             | Inr m \<Rightarrow> next (r\<lparr>rq_member := Some m\<rparr>)))"
    proof (rule conforms_db_tx)
      fix orc w m d
      assume rel: "relies (h_lib h) t orc w"
        and up: "upsertMemberFromAccess (or_db_now orc) (or_uuid orc) (cl_subject claims) (cl_email claims) (wd_db w) = Inr (m, d)"
      show "\<exists>p. authentic h t r p \<and> db_act p (wd_db w) d" using valid act_sign_in [OF up] authentic.simps(1) by blast
      have "mb_access_sub m = cl_subject claims" using up by (rule upsertMember_sub)
      moreover have "tr_member t (cl_subject claims) (mb_id m)" using rel up unfolding relies_def by blast
      ultimately show "conforms ?A ?G Q (case Inr m of
               Inl e \<Rightarrow> Done (writeError 500 ''failed to load member'')
             | Inr m \<Rightarrow> next (r\<lparr>rq_member := Some m\<rparr>))" using assms(2) valid by simp
    qed (simp add: assms(1))
    then show "conforms ?A ?G Q (case Inr claims of
          Inl e \<Rightarrow> Done (writeError 401 ''invalid access token'')
        | Inr claims \<Rightarrow>
            db_tx (\<lambda>orc. upsertMemberFromAccess (or_db_now orc) (or_uuid orc) (cl_subject claims) (cl_email claims))
            (\<lambda>res. case res of
               Inl e \<Rightarrow> Done (writeError 500 ''failed to load member'')
             | Inr m \<Rightarrow> next (r\<lparr>rq_member := Some m\<rparr>)))" by simp
  qed (simp add: assms(1))
  then show ?thesis by (simp add: requireAccessAuth_def Some assms(1))
qed (simp add: requireAccessAuth_def assms(1))

lemma entitled_requireAccessAuth:
  assumes "\<And>m. authentic h t r (AsMember (mb_id m)) \<Longrightarrow> entitled h t r (next (r\<lparr>rq_member := Some m\<rparr>))"
  shows "entitled h t r (requireAccessAuth h next r)"
  by (rule conforms_requireAccessAuth) (use assms in auto)

lemma entitled_requireAdminAuth:
  assumes "authentic h t r AsAdmin \<Longrightarrow> entitled h t r (next r)"
  shows "entitled h t r (requireAdminAuth h next r)"
  using assms by (simp add: requireAdminAuth_def)

lemma entitled_requireEnrollmentAuth:
  assumes "authentic h t r AsEnrollment \<Longrightarrow> entitled h t r (next r)"
  shows "entitled h t r (requireEnrollmentAuth h next r)"
  using assms by (simp add: requireEnrollmentAuth_def)

lemma authenticateWorkerToken_Inr:
  "authenticateWorkerToken tok d = Inr row \<Longrightarrow> row \<in> set (db_workers d) \<and>
    wk_auth_token_hash row = Some (hashWorkerToken tok) \<and> wk_auth_token_revoked_at row = None"
  by (auto simp: authenticateWorkerToken_def split: option.splits dest: query_row_SomeD)

lemma entitled_requireWorkerAuth:
  assumes "\<And>k. authentic h t r (AsWorker (aw_id k)) \<Longrightarrow> entitled h t r (next (r\<lparr>rq_worker := Some k\<rparr>))"
  shows "entitled h t r (requireWorkerAuth h next r)"
  unfolding requireWorkerAuth_def
proof (rule conforms_db_query)
  fix orc w row
  assume "relies (h_lib h) t orc w" and "authenticateWorkerToken (bearerToken (rq_authorization r)) (wd_db w) = Inr row"
  then have auth: "authentic h t r (AsWorker (wk_id row))"
    using authenticateWorkerToken_Inr by (auto simp: relies_def)
  have "entitled h t r (db_exec (\<lambda>orc d. Inr (touchWorkerTokenUsage (or_db_now orc) (wk_id row) d))
      (\<lambda>_. next (r\<lparr>rq_worker := Some \<lparr>aw_id = wk_id row, aw_hardware_uuid = wk_hardware_uuid row\<rparr>\<rparr>)))"
    by (rule conforms_db_exec) (use auth assms act_touch in \<open>auto simp del: authentic.simps\<close>)
  then show "entitled h t r (case Inr row of Inl e \<Rightarrow> Done (writeError 401 ''unauthorized'')
      | Inr worker \<Rightarrow> db_exec (\<lambda>orc d. Inr (touchWorkerTokenUsage (or_db_now orc) (wk_id worker) d))
          (\<lambda>_. next (r\<lparr>rq_worker := Some \<lparr>aw_id = wk_id worker, aw_hardware_uuid = wk_hardware_uuid worker\<rparr>\<rparr>)))"
    by simp
qed simp

lemma entitled_hosts:
  "entitled h t r (next r) \<Longrightarrow> entitled h t r (requireBrowserHost h next r)"
  "entitled h t r (next r) \<Longrightarrow> entitled h t r (requireWorkerHost h next r)"
  by (simp_all add: requireBrowserHost_def requireWorkerHost_def)

lemma entitled_current:
  "(\<And>k. rq_worker r' = Some k \<Longrightarrow> entitled h t r (f k)) \<Longrightarrow> entitled h t r (requireCurrentWorker r' f)"
  "(\<And>k. rq_worker r' = Some k \<Longrightarrow> rq_path_id r' = aw_id k \<Longrightarrow> entitled h t r (f k)) \<Longrightarrow>
   entitled h t r (requireWorkerPathMatch r' f)"
  by (auto simp: requireCurrentWorker_def requireWorkerPathMatch_def currentWorker_def split: option.splits)

end
