(* ===== verification/ReleaseHandlers.thy ===== *)
theory ReleaseHandlers
  imports Auth
begin

text \<open>
  Uploading and serving releases: \<^verbatim>\<open>Store.Upload\<close> of \<^verbatim>\<open>release/store.go\<close> as a program over database and
  files, and the handlers of \<^verbatim>\<open>api/rest/releases.go\<close>.  Each call on the file system is an action of
  its own, which fails when the oracle says so.
\<close>

section \<open>Uploading\<close>

datatype upload_error = UploadVersionExists | UploadFailed string

definition remove_file :: "string \<Rightarrow> server_prog \<Rightarrow> server_prog" where
  "remove_file path k = on_files (\<lambda>orc fs. (AList.delete path fs, ())) (\<lambda>_. k)"

definition temp_path :: "store \<Rightarrow> string \<Rightarrow> string" where
  "temp_path st rnd = path_join (st_root st) (''upload-'' @ rnd @ ''.tmp'')"

text \<open>The last part of \<^verbatim>\<open>Upload\<close>: the binary is checked and lies under its temporary name.\<close>

definition publish_binary ::
  "string \<Rightarrow> string \<Rightarrow> release \<Rightarrow> (upload_error + release \<Rightarrow> server_prog) \<Rightarrow> server_prog" where
  "publish_binary tmpPath finalPath rel k =
     external or_ok (\<lambda>mkdir_ok.
       if \<not> mkdir_ok then remove_file tmpPath (k (Inl (UploadFailed ''create version dir'')))
       else on_files (\<lambda>orc fs. if or_ok orc
            then (AList.update finalPath (the (map_of fs tmpPath)) (AList.delete tmpPath fs), True)
            else (fs, False)) (\<lambda>renamed.
         if \<not> renamed then remove_file tmpPath (k (Inl (UploadFailed ''move binary to final location'')))
         else external or_ok (\<lambda>chmod_ok.
           if \<not> chmod_ok then remove_file tmpPath (k (Inl (UploadFailed ''chmod binary'')))
           else db_tx (\<lambda>orc. insertRelease (or_db_now orc) (or_uuid orc) rel) (\<lambda>res. case res of
               Inl e \<Rightarrow> remove_file finalPath (remove_file tmpPath
                 (k (Inl (if e = ErrReleaseVersionExists then UploadVersionExists else UploadFailed ''insert release record''))))
             | Inr rel' \<Rightarrow> remove_file tmpPath (k (Inr rel'))))))"

definition release_row :: "string \<Rightarrow> string \<Rightarrow> string \<Rightarrow> string \<Rightarrow> release" where
  "release_row version binary identity path = \<lparr>rel_id = [], rel_version = version,
     rel_sha256 = hexEncode (sha256 binary), rel_size_bytes = int (length binary),
     rel_signing_identity = identity, rel_file_path = path, rel_uploaded_at = 0\<rparr>"

definition upload ::
  "macho_lib \<Rightarrow> store \<Rightarrow> string \<Rightarrow> string \<Rightarrow> (upload_error + release \<Rightarrow> server_prog) \<Rightarrow> server_prog" where
  "upload ml st version binary k = (case releasePaths st version of
     Inl e \<Rightarrow> k (Inl (UploadFailed e))
   | Inr (versionDir, finalPath) \<Rightarrow>
      db_query (\<lambda>orc. getReleaseByVersion version) (\<lambda>res. case res of
        Inr _ \<Rightarrow> k (Inl UploadVersionExists)
      | Inl e \<Rightarrow>
          if \<not> isNotFound e then k (Inl (UploadFailed ''check existing release''))
          else on_files (\<lambda>orc fs. let tmpPath = temp_path st (or_data orc)
                in if or_ok orc \<and> map_of fs tmpPath = None then (AList.update tmpPath [] fs, Some tmpPath) else (fs, None))
            (\<lambda>created. case created of
               None \<Rightarrow> k (Inl (UploadFailed ''create temp file''))
             | Some tmpPath \<Rightarrow>
                on_files (\<lambda>orc fs. if or_ok orc then (AList.update tmpPath binary fs, True) else (fs, False)) (\<lambda>written.
                  if \<not> written then remove_file tmpPath (k (Inl (UploadFailed ''write binary'')))
                  else inspect (\<lambda>w. the (map_of (wd_files w) tmpPath)) (\<lambda>content.
                    if st_required_signing_id st \<noteq> [] \<and> \<not> validateSigningIdentity ml content (st_required_signing_id st)
                    then remove_file tmpPath (k (Inl (UploadFailed ''signature validation failed'')))
                    else (case extractSigningInfo ml content of
                        None \<Rightarrow> if st_required_signing_id st \<noteq> []
                          then remove_file tmpPath (k (Inl (UploadFailed ''extract signing info'')))
                          else publish_binary tmpPath finalPath (release_row version binary [] finalPath) k
                      | Some info \<Rightarrow>
                          publish_binary tmpPath finalPath (release_row version binary (si_common_name info) finalPath) k))))))"

section \<open>Handlers\<close>

definition maxReleaseUploadBytes :: nat where
  "maxReleaseUploadBytes = 256 * 2 ^ 20"

definition upload_response :: "upload_error + release \<Rightarrow> server_prog" where
  "upload_response res = (case res of
     Inl UploadVersionExists \<Rightarrow> Done (writeError 409 ''release version already exists'')
   | Inl (UploadFailed e) \<Rightarrow> Done (writeError 400 e)
   | Inr rel \<Rightarrow> Done (writeJSON 201 (PRelease rel)))"

definition handleReleaseUpload :: "handler \<Rightarrow> request \<Rightarrow> server_prog" where
  "handleReleaseUpload h r = (case h_releases h of
     None \<Rightarrow> Done (writeError 503 ''release management not configured'')
   | Some st \<Rightarrow> (case rq_form r of
       None \<Rightarrow> Done (writeError 400 ''invalid multipart form'')
     | Some (version, binary) \<Rightarrow>
         if version = [] then Done (writeError 400 ''version is required'')
         else if \<not> validateVersion version then Done (writeError 400 ''invalid version'')
         else (case binary of
             None \<Rightarrow> Done (writeError 400 ''binary file is required'')
           | Some content \<Rightarrow> upload (h_macho h) st version content upload_response)))"

definition handleReleaseUploadBinary :: "handler \<Rightarrow> request \<Rightarrow> server_prog" where
  "handleReleaseUploadBinary h r = (case h_releases h of
     None \<Rightarrow> Done (writeError 503 ''release management not configured'')
   | Some st \<Rightarrow>
      if \<not> validateVersion (rq_path_version r) then Done (writeError 400 ''invalid version'')
      else upload (h_macho h) st (rq_path_version r) (rq_body r) upload_response)"

definition handleReleaseLatest :: "handler \<Rightarrow> request \<Rightarrow> server_prog" where
  "handleReleaseLatest h r = (case h_releases h of
     None \<Rightarrow> Done (writeHeader 404)
   | Some st \<Rightarrow> db_query (\<lambda>orc. getLatestRelease) (\<lambda>res. case res of
       Inl e \<Rightarrow> Done (writeError 404 ''no releases available'')
     | Inr latest \<Rightarrow> Done (writeJSON 200 (PRelease latest))))"

definition handleReleaseDownload :: "handler \<Rightarrow> request \<Rightarrow> server_prog" where
  "handleReleaseDownload h r = (case h_releases h of
     None \<Rightarrow> Done (writeHeader 404)
   | Some st \<Rightarrow>
      if \<not> validateVersion (rq_path_version r) then Done (writeError 400 ''invalid version'')
      else db_query (\<lambda>orc. getReleaseByVersion (rq_path_version r)) (\<lambda>res. case res of
          Inl e \<Rightarrow> Done (writeError 404 ''version not found'')
        | Inr rel \<Rightarrow> (case binaryPath (h_cwd h) st rel of
            Inl e \<Rightarrow> Done (writeError 500 ''release unavailable'')
          | Inr path \<Rightarrow> Done (RFile [(''Content-Type'', ''application/octet-stream''),
              (''Content-Disposition'', ''attachment; filename=minicontrol-worker''),
              (''X-Release-SHA256'', rel_sha256 rel), (''X-Release-Version'', rel_version rel)] path))))"

section \<open>Entitlement\<close>

lemma conforms_remove_file: "conforms A (guar P T) Q k \<Longrightarrow> conforms A (guar P T) Q (remove_file path k)"
  unfolding remove_file_def by (rule conforms_on_files)

lemma entitled_publish_binary:
  assumes "authentic h t r AsAdmin" and "\<And>res. entitled h t r (k res)"
  shows "entitled h t r (publish_binary tmp final rel k)"
  unfolding publish_binary_def
  using assms(1) by (auto intro!: conforms_external conforms_on_files conforms_db_tx conforms_remove_file assms(2)
      simp del: authentic.simps) (blast intro: act_publish)

lemma entitled_upload:
  assumes "authentic h t r AsAdmin" and "\<And>res. entitled h t r (k res)"
  shows "entitled h t r (upload ml st v b k)"
  unfolding upload_def
  by (auto intro!: conforms_db_query conforms_on_files conforms_inspect_db conforms_remove_file
      entitled_publish_binary [OF assms(1)] assms(2) split: sum.splits option.splits)

lemma entitled_upload_handlers:
  assumes "authentic h t r AsAdmin"
  shows "entitled h t r (handleReleaseUpload h r')" "entitled h t r (handleReleaseUploadBinary h r')"
proof -
  have "entitled h t r (upload_response res)" for res
    by (auto simp: upload_response_def split: sum.splits upload_error.splits)
  with assms show "entitled h t r (handleReleaseUpload h r')" "entitled h t r (handleReleaseUploadBinary h r')"
    by (auto simp: handleReleaseUpload_def handleReleaseUploadBinary_def simp del: authentic.simps
        intro!: entitled_upload split: option.splits)
qed

lemma entitled_release_readers:
  "entitled h t r (handleReleaseLatest h r')" "entitled h t r (handleReleaseDownload h r')"
  by (auto simp: handleReleaseLatest_def handleReleaseDownload_def intro!: conforms_db_query
      split: option.splits sum.splits)

section \<open>A successful upload\<close>

text \<open>Oracles under which nothing fails and names are new.\<close>

definition upload_env :: "store \<Rightarrow> world \<Rightarrow> env \<Rightarrow> bool" where
  "upload_env st w e = (or_ok e \<and> or_fault e = NoFault \<and> CHR ''/'' \<notin> set (or_data e) \<and>
     map_of (wd_files w) (temp_path st (or_data e)) = None \<and> or_uuid e \<notin> rel_id ` set (db_releases (wd_db w)))"

lemma temp_path_components:
  "CHR ''/'' \<notin> set x \<Longrightarrow> components (temp_path st x) = components (st_root st) @ [''upload-'' @ x @ ''.tmp'']"
  unfolding temp_path_def by (rule components_join) (simp add: plain_component_def)

lemma release_path:
  assumes "validateVersion v"
  obtains dir path where "releasePaths st v = Inr (dir, path)" and "path = clean_abs path"
    and "components path = components (st_root st) @ [v, ''minicontrol-worker'']"
proof -
  let ?dir = "path_join (st_root st) v"
  let ?path = "path_join ?dir ''minicontrol-worker''"
  have dir: "components ?dir = components (st_root st) @ [v]"
    using assms by (simp add: components_join validateVersion_plain)
  then have fin: "components ?path = components (st_root st) @ [v, ''minicontrol-worker'']"
    by (simp add: components_join worker_component)
  have "releasePaths st v = Inr (?dir, ?path)"
    using assms dir fin by (simp add: releasePaths_def Let_def isWithinStorage_iff)
  moreover have "?path = clean_abs ?path"
    unfolding path_join_def clean_abs_def [of "clean_abs _"] components_clean by (simp only: clean_abs_def)
  ultimately show thesis using fin that by blast
qed

lemma exec_publish_binary:
  assumes "list_all or_ok [e5, e6, e7]" and "or_fault e8 = NoFault"
    and "insertRelease (or_db_now e8) (or_uuid e8) rel (wd_db w) = Inr (rel', d)" and "map_of (wd_files w) tmp = Some b"
  shows "exec [e5, e6, e7, e8, e9] w (publish_binary tmp path rel upload_response) =
    (w\<lparr>wd_db := d, wd_files := AList.delete tmp (AList.update path b (AList.delete tmp (wd_files w)))\<rparr>,
     Done (writeJSON 201 (PRelease rel')))"
  using assms by (simp add: publish_binary_def remove_file_def upload_response_def)

lemma upload_ok:
  assumes "h_releases h = Some st" and "validateVersion (rq_path_version r)"
    and "find_release (rq_path_version r) (db_releases (wd_db w)) = None"
    and "st_required_signing_id st = [] \<or> validateSigningIdentity (h_macho h) (rq_body r) (st_required_signing_id st)"
    and "length os = 9" and "list_all (upload_env st w) os"
  shows "\<exists>w' rel. exec os w (handleReleaseUploadBinary h r) = (w', Done (writeJSON 201 (PRelease rel))) \<and>
    rel_version rel = rq_path_version r \<and> rel_sha256 rel = hexEncode (sha256 (rq_body r)) \<and>
    rel_size_bytes rel = int (length (rq_body r)) \<and>
    getReleaseByVersion (rq_path_version r) (wd_db w') = Inr rel \<and>
    map_of (wd_files w') (rel_file_path rel) = Some (rq_body r) \<and>
    binaryPath (h_cwd h) st rel = Inr (rel_file_path rel) \<and>
    (\<exists>dir. releasePaths st (rq_path_version r) = Inr (dir, rel_file_path rel)) \<and>
    (\<forall>e \<in> set os. map_of (wd_files w') (temp_path st (or_data e)) = None)"
proof -
  let ?v = "rq_path_version r" and ?b = "rq_body r"
  obtain dir path where paths: "releasePaths st ?v = Inr (dir, path)" and clean: "path = clean_abs path"
    and comps: "components path = components (st_root st) @ [?v, ''minicontrol-worker'']"
    by (rule release_path [OF assms(2)])
  obtain e1 e2 e3 e4 e5 e6 e7 e8 e9 where os: "os = [e1, e2, e3, e4, e5, e6, e7, e8, e9]"
    using assms(5) by (auto simp: length_Suc_conv numeral_eq_Suc)
  have env: "upload_env st w e" if "e \<in> {e1, e2, e3, e4, e5, e6, e7, e8, e9}" for e
    using assms(6) that by (auto simp: os)
  let ?tmp = "temp_path st (or_data e2)"
  have tmp: "path \<noteq> ?tmp" using env [of e2] comps temp_path_components by (fastforce simp: upload_env_def)
  define identity where "identity = (case extractSigningInfo (h_macho h) ?b of None \<Rightarrow> [] | Some i \<Rightarrow> si_common_name i)"
  let ?rel = "(release_row ?v ?b identity path)\<lparr>rel_id := or_uuid e8, rel_uploaded_at := or_db_now e8\<rparr>"
  let ?w = "w\<lparr>wd_db := wd_db w\<lparr>db_releases := db_releases (wd_db w) @ [?rel]\<rparr>,
    wd_files := AList.delete ?tmp (AList.update path ?b (AList.delete ?tmp
      (AList.update ?tmp ?b (AList.update ?tmp [] (wd_files w)))))\<rparr>"
  have ins: "insertRelease (or_db_now e8) (or_uuid e8) (release_row ?v ?b identity path) (wd_db w) =
      Inr (?rel, wd_db w\<lparr>db_releases := db_releases (wd_db w) @ [?rel]\<rparr>)"
    using env [of e8] assms(3) relt.lookup_None [of ?v]
    by (auto simp: insertRelease_def Let_def upload_env_def release_row_def)
  have ok: "or_ok e \<and> or_fault e = NoFault" if "e \<in> {e1, e2, e3, e4, e5, e6, e7, e8, e9}" for e
    using env [OF that] by (simp add: upload_env_def)
  have fresh: "map_of (wd_files w) ?tmp = None" using env [of e2] by (simp add: upload_env_def)
  let ?w3 = "w\<lparr>wd_files := AList.update ?tmp ?b (AList.update ?tmp [] (wd_files w))\<rparr>"
  have publish: "exec [e5, e6, e7, e8, e9] ?w3 (publish_binary ?tmp path (release_row ?v ?b identity path) upload_response) =
      (?w, Done (writeJSON 201 (PRelease ?rel)))"
    using ok ins by (subst exec_publish_binary [where b = ?b]) (auto simp: update_conv')
  have "getReleaseByVersion ?v (wd_db w) = Inl ErrNoRows"
    using assms(3) by (simp add: getReleaseByVersion_def)
  then have "exec os w (handleReleaseUploadBinary h r) = exec [e5, e6, e7, e8, e9] ?w3
      (publish_binary ?tmp path (release_row ?v ?b identity path) upload_response)"
    using ok fresh assms(1,2,4) by (auto simp: handleReleaseUploadBinary_def upload_def paths os isNotFound_def
        Let_def update_conv' identity_def validateSigningIdentity_def split: option.splits)
  with publish have "exec os w (handleReleaseUploadBinary h r) = (?w, Done (writeJSON 201 (PRelease ?rel)))" by simp
  moreover have "find_release ?v (db_releases (wd_db w) @ [?rel]) = Some ?rel"
    using relt.lookup_insert [of ?rel "db_releases (wd_db w)" ?v] assms(3) relt.lookup_None [of ?v]
    by (simp add: release_row_def)
  moreover have "map_of (wd_files ?w) path = Some ?b" using tmp by (simp add: update_conv' delete_conv')
  moreover have "binaryPath (h_cwd h) st ?rel = Inr path"
  proof -
    have "isAbs path" by (subst clean) (simp add: isAbs_def clean_abs_def hasPrefix_def)
    then show ?thesis using comps clean
      by (auto simp: binaryPath_def release_row_def path_abs_def isWithinStorage_iff clean_abs_def Let_def)
  qed
  moreover have "map_of (wd_files ?w) (temp_path st (or_data e)) = None" if "e \<in> set os" for e
  proof -
    have "path \<noteq> temp_path st (or_data e)" "map_of (wd_files w) (temp_path st (or_data e)) = None"
      using env [of e] that comps temp_path_components by (fastforce simp: upload_env_def os)+
    then show ?thesis by (auto simp: update_conv' delete_conv')
  qed
  ultimately show ?thesis using paths
    by (intro exI [of _ ?w] exI [of _ ?rel]) (simp add: release_row_def getReleaseByVersion_def)
qed

text \<open>
  C30: An upload that meets no failure stores the bytes it was sent under the version's path and
  publishes a release with their SHA-256 digest and length; the release is found under its version
  and its path is one the download handler serves.
\<close>

theorem upload_publishes:
  assumes "h_releases h = Some st" and "validateVersion (rq_path_version r)"
    and "find_release (rq_path_version r) (db_releases (wd_db w)) = None"
    and "st_required_signing_id st = [] \<or> validateSigningIdentity (h_macho h) (rq_body r) (st_required_signing_id st)"
    and "length os = 9" and "list_all (upload_env st w) os"
  shows "\<exists>w' rel. exec os w (handleReleaseUploadBinary h r) = (w', Done (writeJSON 201 (PRelease rel))) \<and>
    rel_version rel = rq_path_version r \<and> rel_sha256 rel = hexEncode (sha256 (rq_body r)) \<and>
    rel_size_bytes rel = int (length (rq_body r)) \<and>
    getReleaseByVersion (rq_path_version r) (wd_db w') = Inr rel \<and>
    map_of (wd_files w') (rel_file_path rel) = Some (rq_body r) \<and>
    binaryPath (h_cwd h) st rel = Inr (rel_file_path rel)"
  using upload_ok [OF assms] by blast

theorem upload_publishes_witness:
  "\<exists>w' rel. exec (replicate 9 (sample_env\<lparr>or_data := ''1''\<rparr>)) sample_world (handleReleaseUploadBinary sample_handler
       (sample_request\<lparr>rq_path_version := ''1.0'', rq_body := ''BIN''\<rparr>)) = (w', Done (writeJSON 201 (PRelease rel))) \<and>
     rel_size_bytes rel = 3 \<and> map_of (wd_files w') (rel_file_path rel) = Some ''BIN''"
proof -
  let ?r = "sample_request\<lparr>rq_path_version := ''1.0'', rq_body := ''BIN''\<rparr>"
  have "h_releases sample_handler = Some sample_store" by (simp add: sample_handler_def)
  moreover have "validateVersion (rq_path_version ?r)" by (simp, code_simp)
  moreover have "find_release (rq_path_version ?r) (db_releases (wd_db sample_world)) = None"
    by (simp add: sample_world_def sample_db_def find_release_def)
  moreover have "st_required_signing_id sample_store = []" by (simp add: sample_store_def)
  moreover have "list_all (upload_env sample_store sample_world) (replicate 9 (sample_env\<lparr>or_data := ''1''\<rparr>))"
    by (simp add: list_all_iff upload_env_def sample_env_def sample_world_def sample_db_def)
  ultimately show ?thesis
    using upload_publishes [of sample_handler sample_store ?r sample_world "replicate 9 (sample_env\<lparr>or_data := ''1''\<rparr>)"]
    by force
qed

section \<open>Two uploads of one version\<close>

text \<open>
  C31: Of two uploads of the same version that overlap, the loser destroys the winner's binary: it
  overwrites the file, fails on the unique version, and removes the file although the published
  release points to it.
\<close>

theorem upload_race_loses_binary:
  assumes "h_releases h = Some st" and "validateVersion (rq_path_version r)"
    and "rq_path_version r' = rq_path_version r" and "st_required_signing_id st = []"
    and "find_release (rq_path_version r) (db_releases (wd_db w)) = None" and "upload_env st w e"
  shows "\<exists>p w1 rel w2. exec [e] w (handleReleaseUploadBinary h r) = (w, p) \<and>
    exec (replicate 9 e) w (handleReleaseUploadBinary h r') = (w1, Done (writeJSON 201 (PRelease rel))) \<and>
    exec (replicate 9 e) w1 p = (w2, Done (writeError 409 ''release version already exists'')) \<and>
    getReleaseByVersion (rq_path_version r) (wd_db w2) = Inr rel \<and>
    map_of (wd_files w2) (rel_file_path rel) = None"
proof -
  let ?v = "rq_path_version r"
  let ?os = "replicate 9 e"
  have "list_all (upload_env st w) ?os" using assms(6) by (simp add: list_all_iff)
  from upload_ok [OF assms(1), of r' w ?os] this assms obtain w1 rel dir where
    b: "exec ?os w (handleReleaseUploadBinary h r') = (w1, Done (writeJSON 201 (PRelease rel)))"
    and row: "getReleaseByVersion ?v (wd_db w1) = Inr rel"
    and path: "releasePaths st ?v = Inr (dir, rel_file_path rel)"
    and tmp: "map_of (wd_files w1) (temp_path st (or_data e)) = None"
    by (auto simp: numeral_eq_Suc)
  have e: "or_ok e" "or_fault e = NoFault" using assms(6) by (simp_all add: upload_env_def)
  have none: "getReleaseByVersion ?v (wd_db w) = Inl ErrNoRows" using assms(5) by (simp add: getReleaseByVersion_def)
  have "?v \<in> rel_version ` set (db_releases (wd_db w1))"
    using row relt.lookup_None [of ?v "db_releases (wd_db w1)"]
    by (cases "find_release ?v (db_releases (wd_db w1))") (simp_all add: getReleaseByVersion_def)
  then have ins: "insertRelease now uuid (release_row ?v body i fp) (wd_db w1) = Inl ErrReleaseVersionExists" for now uuid body i fp
    by (simp add: insertRelease_def release_row_def)
  define p where "p = snd (exec [e] w (handleReleaseUploadBinary h r))"
  have a: "exec [e] w (handleReleaseUploadBinary h r) = (w, p)"
    unfolding p_def using assms(1,2) e path by (simp add: handleReleaseUploadBinary_def upload_def)
  obtain w2 where "exec ?os w1 p = (w2, Done (writeError 409 ''release version already exists''))"
    and "wd_db w2 = wd_db w1" and "map_of (wd_files w2) (rel_file_path rel) = None"
  proof -
    have "\<exists>w2. exec ?os w1 p = (w2, Done (writeError 409 ''release version already exists'')) \<and>
        wd_db w2 = wd_db w1 \<and> map_of (wd_files w2) (rel_file_path rel) = None"
      unfolding p_def using assms(1,2,4) e path none tmp ins
      by (auto simp: handleReleaseUploadBinary_def upload_def isNotFound_def publish_binary_def remove_file_def
          upload_response_def update_conv' delete_conv' Let_def numeral_eq_Suc split: option.splits)
    then show thesis using that by blast
  qed
  with a b row show ?thesis by (metis (no_types))
qed

theorem upload_race_loses_binary_witness:
  "let r = sample_request\<lparr>rq_path_version := ''1.0'', rq_body := ''BIN''\<rparr>; e = sample_env\<lparr>or_data := ''1''\<rparr> in
   \<exists>p w1 rel w2. exec [e] sample_world (handleReleaseUploadBinary sample_handler r) = (sample_world, p) \<and>
    exec (replicate 9 e) sample_world (handleReleaseUploadBinary sample_handler r) = (w1, Done (writeJSON 201 (PRelease rel))) \<and>
    exec (replicate 9 e) w1 p = (w2, Done (writeError 409 ''release version already exists'')) \<and>
    getReleaseByVersion (rq_path_version r) (wd_db w2) = Inr rel \<and> map_of (wd_files w2) (rel_file_path rel) = None"
  unfolding Let_def
proof (rule upload_race_loses_binary [where st = sample_store])
  let ?r = "sample_request\<lparr>rq_path_version := ''1.0'', rq_body := ''BIN''\<rparr>"
  show "h_releases sample_handler = Some sample_store" by (simp add: sample_handler_def)
  show "validateVersion (rq_path_version ?r)" by (simp, code_simp)
  show "find_release (rq_path_version ?r) (db_releases (wd_db sample_world)) = None"
    by (simp add: sample_world_def sample_db_def find_release_def)
  show "st_required_signing_id sample_store = []" by (simp add: sample_store_def)
  show "upload_env sample_store sample_world (sample_env\<lparr>or_data := ''1''\<rparr>)"
    by (simp add: upload_env_def sample_env_def sample_world_def sample_db_def)
qed simp

end
