(* ===== verification/WorkerHandlers.thy ===== *)
theory WorkerHandlers
  imports Auth
begin

text \<open>
  The handlers of \<^verbatim>\<open>api/rest/workers.go\<close> (registration, heartbeat, state reports, host names, the
  inventory) and the small ones of \<^verbatim>\<open>handler.go\<close>, each as a program whose actions are its database
  calls and its critical sections, with every early return and every logged-and-ignored error.
\<close>

section \<open>handler.go\<close>

text \<open>\<^verbatim>\<open>strings.Replace(script, old, new, 1)\<close>.\<close>

definition replace_first :: "string \<Rightarrow> string \<Rightarrow> string \<Rightarrow> string" where
  "replace_first s old repl = (let (before, after, found) = cut s old
     in if found then before @ repl @ after else s)"

definition handleInstallScript :: "handler \<Rightarrow> request \<Rightarrow> server_prog" where
  "handleInstallScript h r = Done (RText 200 [(''Content-Type'', ''text/plain; charset=utf-8'')]
     (replace_first (h_install_script h) ''__SERVER_ADDR__'' (workerScriptAddress (h_lib h) (h_config h) r)))"

definition handleHealth :: "request \<Rightarrow> server_prog" where
  "handleHealth r = Done (writeJSON 200 (PStrings [(''status'', ''ok'')]))"

definition handleMe :: "request \<Rightarrow> server_prog" where
  "handleMe r = (case currentMember r of
     None \<Rightarrow> Done (writeError 401 ''unauthorized'')
   | Some m \<Rightarrow> Done (writeJSON 200 (PMember m)))"

section \<open>Registration\<close>

definition shouldIssueWorkerToken ::
  "handler \<Rightarrow> string \<Rightarrow> string \<Rightarrow> (db_error + bool \<Rightarrow> server_prog) \<Rightarrow> server_prog" where
  "shouldIssueWorkerToken h hardwareUUID presentedToken k =
     db_query (\<lambda>orc. getWorkerByHardwareUUID hardwareUUID) (\<lambda>res. case res of
        Inl e \<Rightarrow>
          if \<not> isNotFound e then k (Inl e)
          else if tokensMatch (enrollmentToken (h_config h)) presentedToken then k (Inr True)
          else k (Inl ErrNoRows)
      | Inr existing \<Rightarrow>
          if (case wk_auth_token_hash existing of
                None \<Rightarrow> False
              | Some hash \<Rightarrow> hash \<noteq> [] \<and> wk_auth_token_revoked_at existing = None \<and>
                  tokensMatch hash (hashWorkerToken presentedToken))
          then k (Inr False)
          else if tokensMatch (enrollmentToken (h_config h)) presentedToken then k (Inr True)
          else k (Inl ErrNoRows))"

definition register_row :: "handler \<Rightarrow> worker_register_request \<Rightarrow> worker" where
  "register_row h q = \<lparr>wk_id = generateWorkerID (wr_hardware_uuid q), wk_hostname = wr_hostname q,
     wk_hardware_uuid = wr_hardware_uuid q, wk_cpu_cores = wr_cpu_cores q, wk_memory_bytes = wr_memory_bytes q,
     wk_tart_version = wr_tart_version q, wk_worker_version = wr_worker_version q,
     wk_pool_size = cfg_pool_size (h_config h), wk_base_image = cfg_base_image (h_config h),
     wk_status = WorkerStatusActive, wk_registered_at = 0, wk_last_heartbeat = None,
     wk_auth_token_hash = None, wk_auth_token_last_used_at = None, wk_auth_token_revoked_at = None\<rparr>"

definition handleWorkerRegister :: "handler \<Rightarrow> request \<Rightarrow> server_prog" where
  "handleWorkerRegister h r = (case decodeJSONBody register_fields zero_register r of
     None \<Rightarrow> Done (writeError 400 ''invalid json'')
   | Some q \<Rightarrow>
      if wr_hostname q = [] then Done (writeError 400 ''hostname is required'')
      else if wr_hardware_uuid q = [] then Done (writeError 400 ''hardware_uuid is required'')
      else if wr_worker_token q = [] then Done (writeError 401 ''invalid token'')
      else let workerID = generateWorkerID (wr_hardware_uuid q);
               resp = (\<lambda>tok. writeJSON 200 (PRegistered workerID (cfg_pool_size (h_config h)) (cfg_base_image (h_config h)) tok))
        in shouldIssueWorkerToken h (wr_hardware_uuid q) (wr_worker_token q) (\<lambda>res. case res of
          Inl e \<Rightarrow> if isNotFound e then Done (writeError 401 ''invalid token'')
                   else Done (writeError 500 ''registration failed'')
        | Inr should \<Rightarrow>
            db_exec (\<lambda>orc. upsertWorker (or_db_now orc) (register_row h q)) (\<lambda>err. case err of
              Some e \<Rightarrow> Done (writeError 500 ''registration failed'')
            | None \<Rightarrow> proxy_close_where (\<lambda>s. ps_worker_id s = workerID)
                (if \<not> should then Done (resp None)
                 else db_tx (\<lambda>orc. issueWorkerToken (or_db_now orc) (if or_rnd_ok orc then Some (or_rnd orc) else None) workerID)
                   (\<lambda>res. case res of
                      Inl e \<Rightarrow> Done (writeError 500 ''registration failed'')
                    | Inr token \<Rightarrow> Done (resp (Some token)))))))"

section \<open>Heartbeats and reports\<close>

definition zero_report :: status_report where
  "zero_report = \<lparr>rep_workstation_id = [], rep_power_state = [], rep_ip_address = [], rep_last_error = []\<rparr>"

definition status_fields :: "status_report field list" where
  "status_fields =
     [(''workstation_id'', str_field (\<lambda>v s. s\<lparr>rep_workstation_id := v\<rparr>)),
      (''power_state'', str_field (\<lambda>v s. s\<lparr>rep_power_state := v\<rparr>)),
      (''ip_address'', str_field (\<lambda>v s. s\<lparr>rep_ip_address := v\<rparr>)),
      (''last_error'', str_field (\<lambda>v s. s\<lparr>rep_last_error := v\<rparr>))]"

definition heartbeat_fields :: "status_report list field list" where
  "heartbeat_fields = [(''workstation_statuses'',
     \<lambda>j b. decode_slice (\<lambda>s e. decode_struct True status_fields e s) zero_report b j)]"

definition desired_entry :: "desired_workstation \<Rightarrow> id \<times> string \<times> int \<times> string" where
  "desired_entry d = (dw_id d, dw_vm_name d, dw_slot d, show_desired (dw_desired_power_state d))"

definition handleWorkerHeartbeat :: "request \<Rightarrow> server_prog" where
  "handleWorkerHeartbeat r = requireWorkerPathMatch r (\<lambda>worker.
     db_exec (\<lambda>orc d. Inr (updateHeartbeat (or_db_now orc) (aw_id worker) d)) (\<lambda>_.
       case decodeJSONBody heartbeat_fields [] r of
         None \<Rightarrow> Done (writeError 400 ''invalid json'')
       | Some statuses \<Rightarrow>
          each (\<lambda>rep k. db_exec (\<lambda>orc. updateWorkstationStatus (or_db_now orc) (aw_id worker) rep) (\<lambda>_. k)) statuses
          (db_query (\<lambda>orc d. Inr (listDesiredWorkstationsByWorker (aw_id worker) d)) (\<lambda>res. case res of
             Inl e \<Rightarrow> Done (writeError 500 ''failed to list desired workstations'')
           | Inr desired \<Rightarrow> Done (writeJSON 200 (PHeartbeat ''ok'' (map desired_entry desired)))))))"

record vm_state_body =
  vs_worker_id :: string
  vs_state :: string
  vs_ip_address :: string
  vs_error_message :: string

definition zero_vm_state :: vm_state_body where
  "zero_vm_state = \<lparr>vs_worker_id = [], vs_state = [], vs_ip_address = [], vs_error_message = []\<rparr>"

definition vm_state_fields :: "vm_state_body field list" where
  "vm_state_fields =
     [(''worker_id'', str_field (\<lambda>v s. s\<lparr>vs_worker_id := v\<rparr>)), (''state'', str_field (\<lambda>v s. s\<lparr>vs_state := v\<rparr>)),
      (''ip_address'', str_field (\<lambda>v s. s\<lparr>vs_ip_address := v\<rparr>)),
      (''error_message'', str_field (\<lambda>v s. s\<lparr>vs_error_message := v\<rparr>))]"

definition handleVMState :: "request \<Rightarrow> server_prog" where
  "handleVMState r = requireCurrentWorker r (\<lambda>worker.
     case decodeJSONBody vm_state_fields zero_vm_state r of
       None \<Rightarrow> Done (writeError 400 ''invalid json'')
     | Some body \<Rightarrow>
        if vs_worker_id body \<noteq> [] \<and> vs_worker_id body \<noteq> aw_id worker
        then Done (writeError 403 ''worker_id mismatch'')
        else db_query (\<lambda>orc. getWorkstationByID (rq_path_id r)) (\<lambda>res.
          let update = db_exec (\<lambda>orc. updateWorkstationStatus (or_db_now orc) (aw_id worker)
                 \<lparr>rep_workstation_id = rq_path_id r, rep_power_state = vs_state body,
                  rep_ip_address = vs_ip_address body, rep_last_error = vs_error_message body\<rparr>)
               (\<lambda>err. case err of
                  Some e \<Rightarrow> Done (writeError 500 ''failed'')
                | None \<Rightarrow> Done (writeJSON 200 (PStrings [(''status'', ''ok'')])))
          in case res of
            Inl e \<Rightarrow> if \<not> isNotFound e then Done (writeError 500 ''failed'') else update
          | Inr ws \<Rightarrow> if ws_worker_id ws \<noteq> aw_id worker
              then Done (writeError 403 ''workstation does not belong to worker'') else update))"

definition hostname_fields :: "string field list" where
  "hostname_fields = [(''hardware_uuid'', str_field (\<lambda>v _. v))]"

definition handleAssignHostname :: "request \<Rightarrow> server_prog" where
  "handleAssignHostname r = (case decodeJSONBody hostname_fields [] r of
     None \<Rightarrow> Done (writeError 400 ''invalid json'')
   | Some hardwareUUID \<Rightarrow>
      if hardwareUUID = [] then Done (writeError 400 ''hardware_uuid is required'')
      else db_tx (\<lambda>orc. assignHostname (or_db_now orc) hardwareUUID) (\<lambda>res. case res of
          Inl e \<Rightarrow> Done (writeError 500 ''failed to assign hostname'')
        | Inr hostname \<Rightarrow> Done (writeJSON 200 (PStrings [(''hostname'', hostname)]))))"

section \<open>The inventory\<close>

definition browser_vm_of :: "workstation \<Rightarrow> browser_vm" where
  "browser_vm_of ws = \<lparr>bv_id = ws_id ws, bv_worker_id = ws_worker_id ws, bv_state = show_power_state (ws_power_state ws),
     bv_ip_address = ws_ip_address ws, bv_state_since = ws_updated_at ws, bv_created_at = ws_created_at ws\<rparr>"

definition handleListWorkers :: "request \<Rightarrow> server_prog" where
  "handleListWorkers r = db_query (\<lambda>orc d. Inr (listWorkers (or_collate orc) d)) (\<lambda>res. case res of
     Inl e \<Rightarrow> Done (writeError 500 ''failed to list workers'')
   | Inr workers \<Rightarrow> db_query (\<lambda>orc d. Inr (listAllWorkstations (or_collate orc) d)) (\<lambda>res.
       let all = (case res of Inl e \<Rightarrow> [] | Inr wss \<Rightarrow> wss);
           shown = (case currentMember r of
               None \<Rightarrow> all
             | Some m \<Rightarrow> filter (\<lambda>ws. ws_member_id ws = mb_id m) all)
       in Done (writeJSON 200 (PWorkers
            (map (\<lambda>wk. (wk, map browser_vm_of (filter (\<lambda>ws. ws_worker_id ws = wk_id wk) shown))) workers)))))"

section \<open>Entitlement\<close>

lemma query_hardware: "getWorkerByHardwareUUID u d = Inr row \<Longrightarrow> row \<in> set (db_workers d) \<and> wk_hardware_uuid row = u"
  by (auto simp: getWorkerByHardwareUUID_def split: option.splits dest: query_row_SomeD)

lemma worker_key: "db_ok d \<Longrightarrow> row \<in> set (db_workers d) \<Longrightarrow> wk_id row = generateWorkerID (wk_hardware_uuid row)"
  by (auto simp: db_ok_def schema_ok_def workers_ok_def list_all_iff)

lemma entitled_shouldIssue:
  assumes "\<And>e. entitled h t r (k (Inl e))"
    and "\<And>b. tokensMatch (enrollmentToken (h_config h)) tok \<or> tr_worker t tok (generateWorkerID u) \<Longrightarrow>
      entitled h t r (k (Inr b))"
  shows "entitled h t r (shouldIssueWorkerToken h u tok k)"
  unfolding shouldIssueWorkerToken_def
proof (rule conforms_db_query)
  fix orc w row
  assume rel: "relies (h_lib h) t orc w" and row: "getWorkerByHardwareUUID u (wd_db w) = Inr row"
  have "tr_worker t tok (generateWorkerID u)"
    if "wk_auth_token_hash row = Some (hashWorkerToken tok)" "wk_auth_token_revoked_at row = None"
    using query_hardware [OF row] worker_key [OF relies_db_ok [OF rel]] relies_worker [OF rel _ that] by metis
  with assms show "entitled h t r (case Inr row of
        Inl e \<Rightarrow>
          if \<not> isNotFound e then k (Inl e)
          else if tokensMatch (enrollmentToken (h_config h)) tok then k (Inr True)
          else k (Inl ErrNoRows)
      | Inr existing \<Rightarrow>
          if (case wk_auth_token_hash existing of
                None \<Rightarrow> False
              | Some hash \<Rightarrow> hash \<noteq> [] \<and> wk_auth_token_revoked_at existing = None \<and>
                  tokensMatch hash (hashWorkerToken tok))
          then k (Inr False)
          else if tokensMatch (enrollmentToken (h_config h)) tok then k (Inr True)
          else k (Inl ErrNoRows))"
    by (auto split: option.splits)
qed (use assms in auto)

lemma register_row_key [simp]:
  "wk_id (register_row h q) = generateWorkerID (wr_hardware_uuid q)" "wk_hardware_uuid (register_row h q) = wr_hardware_uuid q"
  by (simp_all add: register_row_def)

lemma entitled_handleWorkerRegister: "entitled h t r (handleWorkerRegister h r)"
proof (cases "decodeJSONBody register_fields zero_register r")
  case (Some q)
  have auth: "authentic h t r (AsHardware (wr_hardware_uuid q))"
    if "tokensMatch (enrollmentToken (h_config h)) (wr_worker_token q) \<or>
        tr_worker t (wr_worker_token q) (generateWorkerID (wr_hardware_uuid q))"
    using that Some by auto
  note acts = act_register [OF register_row_key] act_issue
  show ?thesis
    unfolding handleWorkerRegister_def Some Let_def
    by (auto intro!: entitled_shouldIssue conforms_db_exec conforms_db_tx conforms_proxy_close_where
        dest!: auth simp del: authentic.simps tokensMatch_iff split: option.splits)
      (blast intro: acts)+
qed (simp add: handleWorkerRegister_def)

lemma entitled_handleWorkerHeartbeat:
  assumes "context_ok h t r r'"
  shows "entitled h t r (handleWorkerHeartbeat r')"
  unfolding handleWorkerHeartbeat_def
proof (rule entitled_current(2))
  fix k
  assume "rq_worker r' = Some k"
  then have "authentic h t r (AsWorker (aw_id k))" using assms by (simp add: context_ok_def)
  then show "entitled h t r (db_exec (\<lambda>orc d. Inr (updateHeartbeat (or_db_now orc) (aw_id k) d)) (\<lambda>_.
       case decodeJSONBody heartbeat_fields [] r' of
         None \<Rightarrow> Done (writeError 400 ''invalid json'')
       | Some statuses \<Rightarrow>
          each (\<lambda>rep p. db_exec (\<lambda>orc. updateWorkstationStatus (or_db_now orc) (aw_id k) rep) (\<lambda>_. p)) statuses
          (db_query (\<lambda>orc d. Inr (listDesiredWorkstationsByWorker (aw_id k) d)) (\<lambda>res. case res of
             Inl e \<Rightarrow> Done (writeError 500 ''failed to list desired workstations'')
           | Inr desired \<Rightarrow> Done (writeJSON 200 (PHeartbeat ''ok'' (map desired_entry desired)))))))"
    by (auto intro!: conforms_db_exec conforms_each conforms_db_query simp del: authentic.simps split: option.splits)
      (blast intro: act_heartbeat act_report)+
qed

lemma entitled_handleVMState:
  assumes "context_ok h t r r'"
  shows "entitled h t r (handleVMState r')"
  unfolding handleVMState_def
proof (rule entitled_current(1))
  fix k
  assume "rq_worker r' = Some k"
  then have k: "authentic h t r (AsWorker (aw_id k))" using assms by (simp add: context_ok_def)
  have up: "entitled h t r (db_exec (\<lambda>orc. updateWorkstationStatus (or_db_now orc) (aw_id k) rep)
      (\<lambda>err. case err of Some e \<Rightarrow> Done a | None \<Rightarrow> Done b))" for rep a b
    using k by (intro conforms_db_exec) (blast intro: act_report, simp split: option.splits)
  show "entitled h t r (case decodeJSONBody vm_state_fields zero_vm_state r' of
       None \<Rightarrow> Done (writeError 400 ''invalid json'')
     | Some body \<Rightarrow>
        if vs_worker_id body \<noteq> [] \<and> vs_worker_id body \<noteq> aw_id k
        then Done (writeError 403 ''worker_id mismatch'')
        else db_query (\<lambda>orc. getWorkstationByID (rq_path_id r')) (\<lambda>res.
          let update = db_exec (\<lambda>orc. updateWorkstationStatus (or_db_now orc) (aw_id k)
                 \<lparr>rep_workstation_id = rq_path_id r', rep_power_state = vs_state body,
                  rep_ip_address = vs_ip_address body, rep_last_error = vs_error_message body\<rparr>)
               (\<lambda>err. case err of
                  Some e \<Rightarrow> Done (writeError 500 ''failed'')
                | None \<Rightarrow> Done (writeJSON 200 (PStrings [(''status'', ''ok'')])))
          in case res of
            Inl e \<Rightarrow> if \<not> isNotFound e then Done (writeError 500 ''failed'') else update
          | Inr ws \<Rightarrow> if ws_worker_id ws \<noteq> aw_id k
              then Done (writeError 403 ''workstation does not belong to worker'') else update))"
    by (auto intro!: conforms_db_query up simp: Let_def split: option.splits)
qed

lemma entitled_handleAssignHostname:
  assumes "authentic h t r AsEnrollment"
  shows "entitled h t r (handleAssignHostname r')"
  unfolding handleAssignHostname_def
  using assms by (auto intro!: conforms_db_tx simp del: authentic.simps split: option.splits)
    (blast intro: act_hostname)

lemma entitled_readers:
  "entitled h t r (handleListWorkers r')" "entitled h t r (handleMe r')" "entitled h t r (handleHealth r')"
  "entitled h t r (handleInstallScript h r')"
  by (auto simp: handleListWorkers_def handleMe_def handleHealth_def handleInstallScript_def Let_def
      intro!: conforms_db_query split: option.splits)

end
