(* ===== verification/WorkstationHandlers.thy ===== *)
theory WorkstationHandlers
  imports Auth
begin

text \<open>
  The handlers of \<^verbatim>\<open>api/rest/workstation.go\<close>: listing, resuming, claiming and releasing the
  workstations of the signed-in member.  Where the code logs a field of a workstation it has just
  overwritten with nil, the handler panics.
\<close>

section \<open>Resolving a workstation\<close>

definition resolveMemberWorkstation ::
  "request \<Rightarrow> string \<Rightarrow> (api_error + workstation \<Rightarrow> server_prog) \<Rightarrow> server_prog" where
  "resolveMemberWorkstation r requestedWorkstationID k = (case currentMember r of
     None \<Rightarrow> k (Inl (apiError 401 ''unauthorized''))
   | Some member \<Rightarrow>
      if requestedWorkstationID \<noteq> []
      then db_query (\<lambda>orc. getWorkstationByIDForMember (mb_id member) requestedWorkstationID) (\<lambda>res. case res of
          Inl e \<Rightarrow> if isNotFound e then k (Inl (apiError 404 ''workstation not found''))
                   else k (Inl (apiError 500 ''failed to load workstation''))
        | Inr ws \<Rightarrow> k (Inr ws))
      else db_query (\<lambda>orc d. Inr (listWorkstationsByMemberID (or_collate orc) (mb_id member) d)) (\<lambda>res. case res of
          Inl e \<Rightarrow> k (Inl (apiError 500 ''failed to load workstation''))
        | Inr [] \<Rightarrow> k (Inl (apiError 404 ''workstation not found''))
        | Inr [ws] \<Rightarrow> k (Inr ws)
        | Inr _ \<Rightarrow> k (Inl (apiError 400 ''workstation_id is required when multiple workstations exist''))))"

section \<open>Handlers\<close>

definition handleListMyWorkstations :: "request \<Rightarrow> server_prog" where
  "handleListMyWorkstations r = (case currentMember r of
     None \<Rightarrow> Done (writeError 401 ''unauthorized'')
   | Some member \<Rightarrow> db_query (\<lambda>orc d. Inr (listWorkstationsByMemberID (or_collate orc) (mb_id member) d)) (\<lambda>res. case res of
       Inl e \<Rightarrow> Done (writeError 500 ''failed to list workstations'')
     | Inr wss \<Rightarrow> Done (writeJSON 200 (PWorkstations wss))))"

definition handleGetMyWorkstation :: "request \<Rightarrow> server_prog" where
  "handleGetMyWorkstation r = (case currentMember r of
     None \<Rightarrow> Done (writeError 401 ''unauthorized'')
   | Some member \<Rightarrow> resolveMemberWorkstation r (trimSpace (query_get r ''workstation_id'')) (\<lambda>res. case res of
       Inl e \<Rightarrow> Done (write_api_error e)
     | Inr ws \<Rightarrow>
         db_tx (\<lambda>orc. ensureWorkstationRunningByIDForMember (or_db_now orc) (mb_id member) (ws_id ws)) (\<lambda>res. case res of
           Inl e \<Rightarrow> if isNotFound e then Done (writeError 404 ''workstation not found'') else Done RPanic
         | Inr ws' \<Rightarrow> Done (writeJSON 200 (PWorkstation ws')))))"

text \<open>The messages of the errors of package \<^verbatim>\<open>db\<close> that reach a client.\<close>

fun claim_error_text :: "db_error \<Rightarrow> string" where
  "claim_error_text ErrWorkstationBeingDeleted = ''workstation is being deleted''"
| "claim_error_text ErrNoActiveWorkers = ''no active workers available''"
| "claim_error_text ErrNoSlotsAvailable = ''no workstation slots available''"
| "claim_error_text ErrTargetWorkerFull = ''no workstation slots available on target worker''"
| "claim_error_text ErrTargetWorkerUnavailable = ''target worker is not available''"
| "claim_error_text _ = []"

definition isClaimConflict :: "db_error \<Rightarrow> bool" where
  "isClaimConflict e = (e = ErrWorkstationBeingDeleted \<or> e = ErrNoActiveWorkers \<or> e = ErrNoSlotsAvailable \<or>
     e = ErrTargetWorkerFull \<or> e = ErrTargetWorkerUnavailable)"

definition claim_fields :: "string field list" where
  "claim_fields = [(''worker_id'', str_field (\<lambda>v _. v))]"

definition handleClaimMyWorkstation :: "request \<Rightarrow> server_prog" where
  "handleClaimMyWorkstation r = (case currentMember r of
     None \<Rightarrow> Done (writeError 401 ''unauthorized'')
   | Some member \<Rightarrow> (case decodeJSONBody claim_fields [] r of
       None \<Rightarrow> Done (writeError 400 ''invalid json'')
     | Some workerID \<Rightarrow>
         db_tx (\<lambda>orc. claimWorkstation (or_collate orc) (or_now orc) (or_db_now orc) (or_uuid orc) (mb_id member) (trimSpace workerID))
         (\<lambda>res. case res of
            Inl e \<Rightarrow> if isClaimConflict e then Done (writeError 409 (claim_error_text e))
                     else Done (writeError 500 ''failed to claim workstation'')
          | Inr (ws, created) \<Rightarrow> Done (writeJSON (if created then 201 else 200) (PWorkstation ws)))))"

definition workstation_id_fields :: "string field list" where
  "workstation_id_fields = [(''workstation_id'', str_field (\<lambda>v _. v))]"

definition handleMyWorkstationDesiredState :: "request \<Rightarrow> desired_power_state \<Rightarrow> server_prog" where
  "handleMyWorkstationDesiredState r desired = (case currentMember r of
     None \<Rightarrow> Done (writeError 401 ''unauthorized'')
   | Some member \<Rightarrow> (case decodeJSONBody workstation_id_fields [] r of
       None \<Rightarrow> Done (writeError 400 ''invalid json'')
     | Some workstationID \<Rightarrow> resolveMemberWorkstation r (trimSpace workstationID) (\<lambda>res. case res of
         Inl e \<Rightarrow> Done (write_api_error e)
       | Inr ws \<Rightarrow>
           db_tx (\<lambda>orc. updateWorkstationDesiredPowerStateByID (or_db_now orc) (mb_id member) (ws_id ws) desired) (\<lambda>res. case res of
             Inl e \<Rightarrow> if isNotFound e then Done (writeError 404 ''workstation not found'')
                      else if e = ErrWorkstationBeingDeleted then Done (writeError 409 ''workstation is being deleted'')
                      else Done RPanic
           | Inr ws' \<Rightarrow> Done (writeJSON 200 (PWorkstation ws'))))))"

definition handleStartMyWorkstation :: "request \<Rightarrow> server_prog" where
  "handleStartMyWorkstation r = handleMyWorkstationDesiredState r DesiredRunning"

definition handleStopMyWorkstation :: "request \<Rightarrow> server_prog" where
  "handleStopMyWorkstation r = handleMyWorkstationDesiredState r DesiredStopped"

definition handleReleaseMyWorkstation :: "request \<Rightarrow> server_prog" where
  "handleReleaseMyWorkstation r = handleMyWorkstationDesiredState r DesiredDeleted"

section \<open>Entitlement\<close>

lemma conforms_resolve:
  assumes "\<And>e. conforms A (guar P T) Q (k (Inl e))"
    and "\<And>m orc w ws. A orc w \<Longrightarrow> rq_member r' = Some m \<Longrightarrow> ws \<in> set (db_workstations (wd_db w)) \<Longrightarrow>
      ws_member_id ws = mb_id m \<Longrightarrow> conforms A (guar P T) Q (k (Inr ws))"
  shows "conforms A (guar P T) Q (resolveMemberWorkstation r' wid k)"
proof (cases "rq_member r'")
  case (Some m)
  have list: "conforms A (guar P T) Q (case (Inr wss :: db_error + workstation list) of
          Inl e \<Rightarrow> k (Inl (apiError 500 ''failed to load workstation''))
        | Inr [] \<Rightarrow> k (Inl (apiError 404 ''workstation not found''))
        | Inr [ws] \<Rightarrow> k (Inr ws)
        | Inr _ \<Rightarrow> k (Inl (apiError 400 ''workstation_id is required when multiple workstations exist'')))"
    if "A orc w" "wss = listWorkstationsByMemberID c (mb_id m) (wd_db w)" for orc w c wss
  proof -
    have "set wss \<subseteq> {ws \<in> set (db_workstations (wd_db w)). ws_member_id ws = mb_id m}"
      unfolding that(2) by (auto simp: listWorkstationsByMemberID_def)
    then show ?thesis using assms(1) assms(2) [OF that(1) Some] by (auto split: list.splits)
  qed
  have by_id: "conforms A (guar P T) Q (k (Inr ws))"
    if "A orc w" "getWorkstationByIDForMember (mb_id m) wid (wd_db w) = Inr ws" for orc w ws
    using that assms(2) Some by (auto dest: getWorkstationByIDForMember_Inr)
  show ?thesis
    unfolding resolveMemberWorkstation_def currentMember_def Some option.case
    by (cases "wid = []") (simp_all, auto intro!: conforms_db_query assms(1) list by_id simp del: sum.case(2),
        simp add: by_id)
qed (simp add: resolveMemberWorkstation_def currentMember_def assms(1))

lemma context_member: "context_ok h t r r' \<Longrightarrow> rq_member r' = Some m \<Longrightarrow> authentic h t r (AsMember (mb_id m))"
  by (simp add: context_ok_def)

lemma entitled_workstation_handlers:
  assumes "context_ok h t r r'"
  shows "entitled h t r (handleListMyWorkstations r')" "entitled h t r (handleGetMyWorkstation r')"
    "entitled h t r (handleClaimMyWorkstation r')" "entitled h t r (handleMyWorkstationDesiredState r' des)"
  unfolding handleListMyWorkstations_def handleGetMyWorkstation_def handleClaimMyWorkstation_def
    handleMyWorkstationDesiredState_def currentMember_def
  using context_member [OF assms]
  by (auto intro!: conforms_db_query conforms_db_tx conforms_resolve simp del: authentic.simps split: option.splits)
    (blast intro: act_ensure act_claim act_desire)+

section \<open>A failing database\<close>



end
