(* ===== verification/ProxyHandlers.thy ===== *)
theory ProxyHandlers
  imports WorkstationHandlers
begin

text \<open>
  The handlers of \<^verbatim>\<open>api/rest/proxy_sessions.go\<close>: creating a proxy session for a workstation, a legacy
  machine or a worker's host, polling for pending sessions, and attaching a WebSocket to one.
\<close>

section \<open>Creating a session\<close>

record proxy_request =
  pq_target :: string
  pq_vm_id :: string
  pq_worker_id :: string
  pq_port :: int

definition proxy_fields :: "proxy_request field list" where
  "proxy_fields =
     [(''target'', str_field (\<lambda>v q. q\<lparr>pq_target := v\<rparr>)), (''vm_id'', str_field (\<lambda>v q. q\<lparr>pq_vm_id := v\<rparr>)),
      (''worker_id'', str_field (\<lambda>v q. q\<lparr>pq_worker_id := v\<rparr>)), (''port'', int_field (\<lambda>v q. q\<lparr>pq_port := v\<rparr>))]"

definition zero_proxy_request :: proxy_request where
  "zero_proxy_request = \<lparr>pq_target = [], pq_vm_id = [], pq_worker_id = [], pq_port = 0\<rparr>"

fun show_target :: "proxy_target \<Rightarrow> string" where
  "show_target ProxyTargetVM = ''vm''"
| "show_target ProxyTargetHost = ''host''"

definition single_quoted :: "string \<Rightarrow> string" where
  "single_quoted s = CHR 0x27 # s @ [CHR 0x27]"

definition resolveProxyTarget ::
  "string \<Rightarrow> string \<Rightarrow> string \<Rightarrow> (api_error + proxy_target \<times> id \<times> id \<Rightarrow> server_prog) \<Rightarrow> server_prog" where
  "resolveProxyTarget target0 vmID workerID k =
     (let target = (if target0 = [] then ''vm'' else target0)
      in if target = ''host'' then
           (if workerID = [] then k (Inl (apiError 400 ''worker_id is required for host target''))
            else k (Inr (ProxyTargetHost, workerID, [])))
         else if target = ''vm'' then
           (if vmID = [] then k (Inl (apiError 400 ''vm_id is required for vm target''))
            else db_query (\<lambda>orc. getWorkstationByID vmID) (\<lambda>res. case res of
                Inr ws \<Rightarrow>
                  if ws_power_state ws \<noteq> PowerRunning then k (Inl (apiError 409 ''workstation not running''))
                  else k (Inr (ProxyTargetVM, ws_worker_id ws, ws_id ws))
              | Inl e \<Rightarrow>
                  if \<not> isNotFound e then k (Inl (apiError 500 ''failed to load workstation''))
                  else db_query (\<lambda>orc. getVM vmID) (\<lambda>res. case res of
                      Inl e \<Rightarrow> k (Inl (apiError 404 ''vm not found''))
                    | Inr v \<Rightarrow>
                        if vm_state v \<noteq> VMReady \<and> vm_state v \<noteq> VMBusy \<and> vm_state v \<noteq> VMBootstrapping
                        then k (Inl (apiError 409 ''vm not available''))
                        else k (Inr (ProxyTargetVM, vm_worker_id v, vmID)))))
         else k (Inl (apiError 400 (''target must be '' @ single_quoted ''vm'' @ '' or '' @ single_quoted ''host''))))"

definition handleCreateProxySession :: "request \<Rightarrow> server_prog" where
  "handleCreateProxySession r = (case decodeJSONBody proxy_fields zero_proxy_request r of
     None \<Rightarrow> Done (writeError 400 ''invalid json'')
   | Some q \<Rightarrow>
      if pq_port q \<le> 0 then Done (writeError 400 ''port is required'')
      else inspect (\<lambda>w. pq_port q \<in> set (sm_allowed_ports (wd_proxy w))) (\<lambda>allowed.
        if \<not> allowed then Done (writeError 403 ''port not allowed'')
        else (case currentMember r of
          Some member \<Rightarrow>
            if pq_target q = ''host'' then Done (writeError 403 ''host access is not available for members'')
            else resolveMemberWorkstation r (trimSpace (pq_vm_id q)) (\<lambda>res. case res of
                Inl e \<Rightarrow> Done (write_api_error e)
              | Inr ws \<Rightarrow>
                  if ws_power_state ws \<noteq> PowerRunning then Done (writeError 409 ''workstation not running'')
                  else proxy_create ProxyTargetVM (ws_id ws) (ws_worker_id ws) (pq_port q) (\<lambda>s.
                    Done (writeJSON 201 (PSession (ps_id s) (ps_token s)))))
        | None \<Rightarrow>
            resolveProxyTarget (pq_target q) (pq_vm_id q) (pq_worker_id q) (\<lambda>res. case res of
                Inl e \<Rightarrow> Done (write_api_error e)
              | Inr (target, workerID, vmID) \<Rightarrow> proxy_create target vmID workerID (pq_port q) (\<lambda>s.
                  Done (writeJSON 201 (PSession (ps_id s) (ps_token s))))))))"

section \<open>Pending sessions\<close>

definition pendingSessionBelongsToWorker :: "proxy_session \<Rightarrow> id \<Rightarrow> (bool \<Rightarrow> server_prog) \<Rightarrow> server_prog" where
  "pendingSessionBelongsToWorker s workerID k =
     db_query (\<lambda>orc. getWorkstationByID (ps_vm_id s)) (\<lambda>res. case res of
        Inr ws \<Rightarrow> k (ws_worker_id ws = workerID)
      | Inl e \<Rightarrow>
          if \<not> isNotFound e then k False
          else db_query (\<lambda>orc. getVM (ps_vm_id s)) (\<lambda>res. case res of
              Inl e \<Rightarrow> k False
            | Inr v \<Rightarrow> k (vm_worker_id v = workerID)))"

definition pending_entry :: "proxy_session \<Rightarrow> pending_resp" where
  "pending_entry s = \<lparr>pr_session_id = ps_id s, pr_target = show_target (ps_target s), pr_vm_id = ps_vm_id s,
     pr_port = ps_port s, pr_token = ps_token s\<rparr>"

fun pending_loop :: "id \<Rightarrow> proxy_session list \<Rightarrow> pending_resp list \<Rightarrow> server_prog" where
  "pending_loop workerID [] result = Done (writeJSON 200 (PPending result))"
| "pending_loop workerID (s # ss) result =
     (if ps_target s = ProxyTargetVM
      then pendingSessionBelongsToWorker s workerID (\<lambda>belongs.
        if belongs then pending_loop workerID ss (result @ [pending_entry s])
        else proxy_close (ps_id s) (pending_loop workerID ss result))
      else pending_loop workerID ss (result @ [pending_entry s]))"

definition handlePendingProxySessions :: "request \<Rightarrow> server_prog" where
  "handlePendingProxySessions r = requireCurrentWorker r (\<lambda>worker.
     if query_get r ''worker_id'' \<noteq> [] \<and> query_get r ''worker_id'' \<noteq> aw_id worker
     then Done (writeError 403 ''worker_id mismatch'')
     else inspect (\<lambda>w. map (session_at (wd_proxy w)) (getPending (aw_id worker) (wd_proxy w))) (\<lambda>sessions.
       pending_loop (aw_id worker) sessions []))"

section \<open>Attaching a connection\<close>

text \<open>
  The relay waits until both sides are there or the request is cancelled, then runs until a side
  ends; \<open>or_choice\<close> is the cancellation.
\<close>

definition run_relay :: "session_ptr \<Rightarrow> server_prog \<Rightarrow> server_prog" where
  "run_relay a k =
     await (\<lambda>orc w. if or_choice orc then Some (w, False)
                     else if ps_ready (session_at (wd_proxy w) a) then Some (w, True) else None)
     (\<lambda>ready. if \<not> ready then k
        else inspect (\<lambda>w. both_connected (session_at (wd_proxy w) a)) (\<lambda>both.
          if \<not> both then k else external (\<lambda>_. ()) (\<lambda>_. k)))"

definition handleProxyWebSocket :: "handler \<Rightarrow> request \<Rightarrow> server_prog" where
  "handleProxyWebSocket h r =
     (let sessionID = query_get r ''session''; role = query_get r ''role''; token = query_get r ''token''
      in if sessionID = [] \<or> role = [] \<or> token = [] then Done (writeError 400 ''missing parameters'')
         else if role \<noteq> ''client'' \<and> role \<noteq> ''worker'' then Done (writeError 400 ''invalid role'')
         else if role = ''client'' \<and> \<not> matchesBrowserHost (h_lib h) (h_config h) r then Done httpNotFound
         else if role = ''worker'' \<and> \<not> matchesWorkerHost (h_lib h) (h_config h) r then Done httpNotFound
         else inspect (\<lambda>w. map_option (\<lambda>a. (a, ps_token (session_at (wd_proxy w) a))) (get_session (wd_proxy w) sessionID))
         (\<lambda>found. case found of
            None \<Rightarrow> Done (writeError 404 ''session not found'')
          | Some (a, expected) \<Rightarrow>
              if \<not> tokensMatch expected token then Done (writeError 401 ''invalid token'')
              else external (\<lambda>orc. if or_ok orc then Some (or_conn orc) else None) (\<lambda>accepted. case accepted of
                  None \<Rightarrow> Done (RWebSocket None)
                | Some c \<Rightarrow> proxy_set_conn sessionID role c (\<lambda>bothReady.
                    if bothReady
                    then run_relay a (proxy_close sessionID (Done (RWebSocket None)))
                    else await (\<lambda>orc w. if or_choice orc then Some (w, True)
                                         else if ps_done (session_at (wd_proxy w) a) then Some (w, False) else None)
                         (\<lambda>cancelled. if cancelled then proxy_close sessionID (Done (RWebSocket None))
                            else Done (RWebSocket None))))))"

section \<open>Entitlement\<close>

lemma entitled_proxy_handlers:
  "entitled h t r (handleCreateProxySession r')" "entitled h t r (handlePendingProxySessions r')"
  "entitled h t r (handleProxyWebSocket h r')"
proof -
  show "entitled h t r (handleCreateProxySession r')"
    unfolding handleCreateProxySession_def resolveProxyTarget_def Let_def
    by (auto intro!: conforms_inspect_db conforms_resolve conforms_proxy_create conforms_db_query
        split: option.splits sum.splits)
  have "entitled h t r (pending_loop k ss res)" for k ss res
    by (induction ss arbitrary: res)
      (auto simp: pendingSessionBelongsToWorker_def intro!: conforms_db_query conforms_proxy_close split: sum.splits)
  then show "entitled h t r (handlePendingProxySessions r')"
    unfolding handlePendingProxySessions_def by (auto intro!: entitled_current conforms_inspect_db)
  show "entitled h t r (handleProxyWebSocket h r')"
    unfolding handleProxyWebSocket_def run_relay_def Let_def
    by (auto intro!: conforms_inspect_db conforms_external conforms_proxy_set_conn conforms_await_db
        conforms_proxy_close split: option.splits if_splits)
qed

section \<open>The session token guards the relay\<close>


definition proxied_world :: world where
  "proxied_world = sample_world\<lparr>wd_proxy :=
     snd (create_session ''r'' ''s1'' 100 ProxyTargetVM ''k1'' ''w1'' 22 newSessionManager)\<rparr>"

lemma proxied_session:
  "get_session (wd_proxy proxied_world) k = (if k = ''s1'' then Some 0 else None)"
  "ps_token (session_at (wd_proxy proxied_world) 0) = ''72''"
  by (simp_all add: proxied_world_def create_session_def register_session_def newSessionManager_def
      get_session_def session_at_def new_session_def hexEncode_def hex_char_def char_of_digits)


end
