(* ===== verification/TerminalSession.thy ===== *)
theory TerminalSession
  imports WorkstationHandlers
begin

text \<open>
  The methods of a terminal session (\<^verbatim>\<open>api/rest/terminal_sessions.go\<close>) that are made of several
  critical sections, as programs over the shared world: publishing output, attaching a browser with
  the replay of the history, reading its input, closing.  What a read of a connection or of the
  shell returns is given in advance as a list of results; a read beyond it is still waiting.
\<close>

section \<open>Steps of a session\<close>

definition on_session ::
  "nat \<Rightarrow> (env \<Rightarrow> terminal_session \<Rightarrow> 'a \<times> terminal_session) \<Rightarrow> ('a \<Rightarrow> server_prog) \<Rightarrow> server_prog" where
  "on_session a f k = on_terminals (\<lambda>orc tm. let (x, s) = f orc (terminal_at tm a) in (set_terminal a s tm, x)) k"

definition session_step :: "nat \<Rightarrow> (env \<Rightarrow> terminal_session \<Rightarrow> terminal_session) \<Rightarrow> server_prog \<Rightarrow> server_prog" where
  "session_step a f k = on_session a (\<lambda>orc s. ((), f orc s)) (\<lambda>_. k)"

text \<open>A step that waits for its condition: a mutex, a \<^verbatim>\<open>sync.Once\<close>, a timer.\<close>

definition await_session ::
  "nat \<Rightarrow> (env \<Rightarrow> terminal_session \<Rightarrow> ('a \<times> terminal_session) option) \<Rightarrow> ('a \<Rightarrow> server_prog) \<Rightarrow> server_prog" where
  "await_session a f k = await (\<lambda>orc w. case f orc (terminal_at (wd_terminals w) a) of
       None \<Rightarrow> None
     | Some (x, s) \<Rightarrow> Some (w\<lparr>wd_terminals := set_terminal a s (wd_terminals w)\<rparr>, x)) k"

definition blocked :: server_prog where
  "blocked = await (\<lambda>orc w. None) (\<lambda>x :: unit. Done RPanic)"

text \<open>What can end a read or a write.\<close>

datatype io_error =
    ErrCanceled
  | ErrEOF
  | ErrNetClosed
  | ErrStatus nat
  | ErrText string

section \<open>Output\<close>

definition clearAttachment :: "nat \<Rightarrow> attachment_ptr \<Rightarrow> server_prog \<Rightarrow> server_prog" where
  "clearAttachment a target k =
     session_step a (\<lambda>orc. detach (or_now orc) target)
     (session_step a (\<lambda>orc. close_attachment 1001 ''terminal detached'' target) k)"

definition publishBinary :: "nat \<Rightarrow> string \<Rightarrow> server_prog \<Rightarrow> server_prog" where
  "publishBinary a payload k = on_session a (\<lambda>orc. publish_locked payload) (\<lambda>published. case published of
     None \<Rightarrow> k
   | Some (frame, None) \<Rightarrow> k
   | Some (frame, Some x) \<Rightarrow>
       on_session a (\<lambda>orc. send_to (or_choice orc) (hf_message frame, hf_payload frame) x) (\<lambda>res. case res of
           Inl e \<Rightarrow> clearAttachment a x k
         | Inr _ \<Rightarrow> k))"

text \<open>The writer of an attachment, for a number of rounds; it closes the connection when it stops.\<close>

fun attachment_writer :: "nat \<Rightarrow> nat \<Rightarrow> attachment_ptr \<Rightarrow> server_prog \<Rightarrow> server_prog" where
  "attachment_writer 0 a x k = blocked"
| "attachment_writer (Suc rounds) a x k =
     await_session a (\<lambda>orc. writer_step (or_choice orc) (or_ok orc) x) (\<lambda>stop.
       if stop then session_step a (\<lambda>orc. close_attachment 1000 ''attachment closed'' x) k
       else attachment_writer rounds a x k)"

section \<open>Closing\<close>

definition send_control_to ::
  "bool \<Rightarrow> terminal_server_message \<Rightarrow> attachment_ptr \<Rightarrow> terminal_session \<Rightarrow> (string + unit) \<times> terminal_session" where
  "send_control_to pick m a s = (let (res, x) = send_control pick m (attachment_of s a)
     in (res, set_attachment_object a x s))"

definition close_body :: "nat \<Rightarrow> nat \<Rightarrow> string \<Rightarrow> server_prog \<Rightarrow> server_prog" where
  "close_body a code message k =
     session_step a (\<lambda>orc s. s\<lparr>ts_cancelled := True\<rparr>)
     (on_session a (\<lambda>orc. close_locked) (\<lambda>x.
       let finish =
         session_step a (\<lambda>orc s. s\<lparr>ts_ssh_closed := True\<rparr>)
         (on_session a (\<lambda>orc s. ((ts_proxy_id s, ts_id s), s)) (\<lambda>(proxyID, sessionID).
           proxy_close proxyID (on_terminals (\<lambda>orc tm. (remove_terminal sessionID tm, ())) (\<lambda>_. k))))
       in case x of
            None \<Rightarrow> finish
          | Some att \<Rightarrow>
             (let shut = session_step a (\<lambda>orc. close_attachment code message att) finish
              in if code \<noteq> 1000
                 then on_session a (\<lambda>orc. send_control_to (or_choice orc)
                        \<lparr>tsm_type = ''error'', tsm_message = message, tsm_session_id = [], tsm_recovered = False\<rparr> att)
                      (\<lambda>_. shut)
                 else shut)))"

definition close_terminal :: "nat \<Rightarrow> nat \<Rightarrow> string \<Rightarrow> server_prog \<Rightarrow> server_prog" where
  "close_terminal a code message k =
     await_session a (\<lambda>orc s. case ts_close_once s of
         NotRun \<Rightarrow> Some (True, s\<lparr>ts_close_once := Running\<rparr>)
       | Running \<Rightarrow> None
       | Ran \<Rightarrow> Some (False, s))
     (\<lambda>first. if first then close_body a code message (session_step a (\<lambda>orc s. s\<lparr>ts_close_once := Ran\<rparr>) k) else k)"

text \<open>The function of the idle timer.\<close>

definition idle_timeout :: "nat \<Rightarrow> server_prog \<Rightarrow> server_prog" where
  "idle_timeout a k =
     await_session a (\<lambda>orc s. case ts_idle_timer s of
         Some deadline \<Rightarrow> if deadline \<le> or_now orc then Some ((), s) else None
       | None \<Rightarrow> None)
     (\<lambda>_. close_terminal a 1001 ''terminal session expired'' k)"

section \<open>The shell\<close>

text \<open>A read delivers some bytes and may end the stream.\<close>

fun streamOutput :: "nat \<Rightarrow> (string \<times> io_error option) list \<Rightarrow> server_prog \<Rightarrow> server_prog" where
  "streamOutput a [] k = blocked"
| "streamOutput a ((buffer, err) # reads) k =
     (let go = (case err of
           None \<Rightarrow> streamOutput a reads k
         | Some e \<Rightarrow> if e = ErrEOF \<or> e = ErrNetClosed \<or> e = ErrCanceled then k
                     else close_terminal a 1011 ''Terminal session ended unexpectedly.'' k)
      in if buffer \<noteq> [] then publishBinary a buffer go else go)"

definition waitForExit :: "nat \<Rightarrow> io_error option \<Rightarrow> server_prog \<Rightarrow> server_prog" where
  "waitForExit a err k =
     (if err \<noteq> None \<and> err \<noteq> Some ErrEOF \<and> err \<noteq> Some ErrCanceled
      then close_terminal a 1011 ''Terminal session ended unexpectedly.'' k
      else close_terminal a 1000 ''terminal closed'' k)"

section \<open>Input\<close>

record terminal_client_message =
  tc_type :: string
  tc_data :: string
  tc_cols :: int
  tc_rows :: int

definition client_fields :: "terminal_client_message field list" where
  "client_fields =
     [(''type'', str_field (\<lambda>v m. m\<lparr>tc_type := v\<rparr>)), (''data'', str_field (\<lambda>v m. m\<lparr>tc_data := v\<rparr>)),
      (''cols'', int_field (\<lambda>v m. m\<lparr>tc_cols := v\<rparr>)), (''rows'', int_field (\<lambda>v m. m\<lparr>tc_rows := v\<rparr>))]"

definition zero_client_message :: terminal_client_message where
  "zero_client_message = \<lparr>tc_type = [], tc_data = [], tc_cols = 0, tc_rows = 0\<rparr>"

text \<open>Calls on the shell; a failed one is told apart as end of file or something else.\<close>

definition write_input :: "string \<Rightarrow> env \<Rightarrow> terminal_session \<Rightarrow> io_error option \<times> terminal_session" where
  "write_input input orc s =
     (if or_ok orc then (None, s\<lparr>ts_input := ts_input s @ input\<rparr>)
      else (Some (if or_choice orc then ErrEOF else ErrText (or_data orc)), s))"

definition window_change :: "int \<Rightarrow> int \<Rightarrow> env \<Rightarrow> terminal_session \<Rightarrow> io_error option \<times> terminal_session" where
  "window_change rows cols orc s =
     (if or_ok orc then (None, s\<lparr>ts_window := Some (rows, cols)\<rparr>)
      else (Some (if or_choice orc then ErrEOF else ErrText (or_data orc)), s))"

fun readInput :: "nat \<Rightarrow> (io_error + ws_message) list \<Rightarrow> (io_error \<Rightarrow> server_prog) \<Rightarrow> server_prog" where
  "readInput a [] k = blocked"
| "readInput a (Inl e # reads) k = k e"
| "readInput a (Inr (msgType, payload) # reads) k =
     (if msgType \<noteq> MessageText then readInput a reads k
      else case unmarshal_struct client_fields zero_client_message payload of
          None \<Rightarrow> k (ErrText ''invalid json'')
        | Some msg \<Rightarrow>
           if tc_type msg = ''input'' then
             (if tc_data msg = [] then readInput a reads k
              else on_session a (write_input (tc_data msg)) (\<lambda>err. case err of
                  Some e \<Rightarrow> k e
                | None \<Rightarrow> readInput a reads k))
           else if tc_type msg = ''resize'' then
             (if tc_cols msg \<le> 0 \<or> tc_rows msg \<le> 0 then readInput a reads k
              else on_session a (window_change (tc_rows msg) (tc_cols msg)) (\<lambda>err. case err of
                  Some e \<Rightarrow> k e
                | None \<Rightarrow> readInput a reads k))
           else readInput a reads k)"

section \<open>Attaching\<close>

definition unlock_attach :: "nat \<Rightarrow> server_prog \<Rightarrow> server_prog" where
  "unlock_attach a k = session_step a (\<lambda>orc s. s\<lparr>ts_attach_mu := False\<rparr>) k"

definition attach_failed :: "nat \<Rightarrow> attachment_ptr \<Rightarrow> (io_error option \<Rightarrow> server_prog) \<Rightarrow> string \<Rightarrow> server_prog" where
  "attach_failed a x k err =
     unlock_attach a (session_step a (\<lambda>orc. close_attachment 1011 ''terminal attach failed'' x) (k (Some (ErrText err))))"

fun send_frames :: "nat \<Rightarrow> attachment_ptr \<Rightarrow> history_frame list \<Rightarrow> (string \<Rightarrow> server_prog) \<Rightarrow> server_prog \<Rightarrow> server_prog" where
  "send_frames a x [] failed k = k"
| "send_frames a x (f # fs) failed k =
     on_session a (\<lambda>orc. send_to (or_choice orc) (hf_message f, hf_payload f) x) (\<lambda>res. case res of
         Inl e \<Rightarrow> failed e
       | Inr _ \<Rightarrow> send_frames a x fs failed k)"

text \<open>
  The replay loop.  It goes round as long as new output was published during a round, so it is given
  a number of rounds; when they are used up it is still going.
\<close>

fun replay :: "nat \<Rightarrow> nat \<Rightarrow> attachment_ptr \<Rightarrow> 64 word \<Rightarrow> (string \<Rightarrow> server_prog) \<Rightarrow> server_prog \<Rightarrow> server_prog" where
  "replay 0 a x replayedSeq failed k = blocked"
| "replay (Suc rounds) a x replayedSeq failed k =
     on_session a (\<lambda>orc s. (snapshotFramesAfter replayedSeq s, s)) (\<lambda>(frames, latestSeq).
       if frames = [] then session_step a (\<lambda>orc. setAttachment x) k
       else send_frames a x frames failed (replay rounds a x latestSeq failed k))"

definition quiet_end :: "io_error \<Rightarrow> bool" where
  "quiet_end e = (e = ErrCanceled \<or> e = ErrStatus 1000 \<or> e = ErrStatus 1001)"

text \<open>The part of \<^verbatim>\<open>Attach\<close> after its lock is released.\<close>

definition attach_serve ::
  "nat \<Rightarrow> attachment_ptr \<Rightarrow> int \<Rightarrow> int \<Rightarrow> (io_error + ws_message) list \<Rightarrow> (io_error option \<Rightarrow> server_prog) \<Rightarrow> server_prog" where
  "attach_serve a x cols rows reads k =
     (let serve = readInput a reads (\<lambda>e. clearAttachment a x (k (if quiet_end e then None else Some e)))
      in if rows > 0 \<and> cols > 0
         then on_session a (window_change rows cols) (\<lambda>err. case err of
             Some e \<Rightarrow> clearAttachment a x
               (session_step a (\<lambda>orc. close_attachment 1011 ''terminal resize failed'' x) (k (Some e)))
           | None \<Rightarrow> serve)
         else serve)"

definition attach ::
  "nat \<Rightarrow> nat \<Rightarrow> conn \<Rightarrow> int \<Rightarrow> int \<Rightarrow> bool \<Rightarrow> (io_error + ws_message) list \<Rightarrow>
   (io_error option \<Rightarrow> server_prog) \<Rightarrow> server_prog" where
  "attach rounds a c cols rows recovered reads k =
     await_session a (\<lambda>orc s. if ts_attach_mu s then None else Some ((), s\<lparr>ts_attach_mu := True\<rparr>)) (\<lambda>_.
     on_session a (\<lambda>orc s. (isClosed s, s)) (\<lambda>closed.
     if closed then unlock_attach a (k (Some (ErrText ''terminal session is closed'')))
     else session_step a (\<lambda>orc. stopIdleTimer)
       (on_session a (\<lambda>orc. newTerminalAttachment c) (\<lambda>x.
        on_session a (\<lambda>orc s. (currentAttachment s, s)) (\<lambda>current.
          let go = on_session a (\<lambda>orc s. send_control_to (or_choice orc)
                \<lparr>tsm_type = ''ready'', tsm_message = [], tsm_session_id = ts_id s, tsm_recovered = recovered\<rparr> x s)
              (\<lambda>res. case res of
                 Inl e \<Rightarrow> attach_failed a x k e
               | Inr _ \<Rightarrow> replay rounds a x 0 (attach_failed a x k) (unlock_attach a (attach_serve a x cols rows reads k)))
          in case current of
               None \<Rightarrow> go
             | Some old \<Rightarrow> session_step a (\<lambda>orc. close_attachment 1008 ''terminal reattached'' old)
                 (session_step a (\<lambda>orc. removeAttachment old) go))))))"

section \<open>These programs leave the database alone\<close>

lemma conforms_on_session [conform]:
  "(\<And>x. conforms A (guar P T) Q (k x)) \<Longrightarrow> conforms A (guar P T) Q (on_session a f k)"
  unfolding on_session_def by (rule conforms_on_terminals)

lemma conforms_session_step [conform]:
  "conforms A (guar P T) Q k \<Longrightarrow> conforms A (guar P T) Q (session_step a f k)"
  unfolding session_step_def by (rule conforms_on_session)

lemma conforms_await_session [conform]:
  assumes "\<And>x. conforms A (guar P T) Q (k x)"
  shows "conforms A (guar P T) Q (await_session a f k)"
  unfolding await_session_def
  by (rule conforms_await_db) (use assms in \<open>auto split: option.splits\<close>)

lemma conforms_blocked [conform]: "conforms A (guar P T) Q blocked"
  unfolding blocked_def by (rule conforms_await) simp

lemma conforms_clearAttachment [conform]:
  "conforms A (guar P T) Q k \<Longrightarrow> conforms A (guar P T) Q (clearAttachment a x k)"
  unfolding clearAttachment_def by (intro conforms_session_step)

lemma conforms_publishBinary [conform]:
  "conforms A (guar P T) Q k \<Longrightarrow> conforms A (guar P T) Q (publishBinary a p k)"
  unfolding publishBinary_def
  by (rule conforms_on_session)
    (auto intro!: conforms_on_session conforms_clearAttachment split: option.splits sum.splits)

lemma conforms_attachment_writer [conform]:
  "conforms A (guar P T) Q k \<Longrightarrow> conforms A (guar P T) Q (attachment_writer rounds a x k)"
  by (induction rounds) (auto intro!: conforms_blocked conforms_await_session conforms_session_step)

lemma conforms_close_terminal [conform]:
  assumes "conforms A (guar P T) Q k"
  shows "conforms A (guar P T) Q (close_terminal a code message k)"
  unfolding close_terminal_def close_body_def Let_def
  using assms by (auto intro!: conform split: option.splits)

lemma conforms_shell [conform]:
  "conforms A (guar P T) Q k \<Longrightarrow> conforms A (guar P T) Q (streamOutput a reads k)"
  "conforms A (guar P T) Q k \<Longrightarrow> conforms A (guar P T) Q (waitForExit a err k)"
  "conforms A (guar P T) Q k \<Longrightarrow> conforms A (guar P T) Q (idle_timeout a k)"
proof -
  assume k: "conforms A (guar P T) Q k"
  show "conforms A (guar P T) Q (streamOutput a reads k)"
  proof (induction reads)
    case (Cons x reads)
    then show ?case using k
      by (cases x) (auto simp: Let_def intro!: conforms_publishBinary conforms_close_terminal split: option.splits)
  qed (simp add: conforms_blocked)
  show "conforms A (guar P T) Q (waitForExit a err k)"
    using k by (auto simp: waitForExit_def intro!: conforms_close_terminal)
  show "conforms A (guar P T) Q (idle_timeout a k)"
    using k by (auto simp: idle_timeout_def intro!: conforms_await_session conforms_close_terminal)
qed

lemma conforms_readInput [conform]:
  assumes "\<And>e. conforms A (guar P T) Q (k e)"
  shows "conforms A (guar P T) Q (readInput a reads k)"
  using assms
  by (induction a reads k rule: readInput.induct)
    (auto intro!: conforms_blocked conforms_on_session split: option.splits)

lemma conforms_send_frames:
  assumes "\<And>e. conforms A (guar P T) Q (failed e)" and "conforms A (guar P T) Q k"
  shows "conforms A (guar P T) Q (send_frames a x fs failed k)"
  by (induction fs) (use assms in \<open>auto intro!: conforms_on_session split: sum.splits\<close>)

lemma conforms_replay:
  assumes "\<And>e. conforms A (guar P T) Q (failed e)" and "conforms A (guar P T) Q k"
  shows "conforms A (guar P T) Q (replay rounds a x q failed k)"
  by (induction rounds arbitrary: q)
    (use assms in \<open>auto intro!: conforms_blocked conforms_on_session conforms_session_step conforms_send_frames\<close>)

lemma conforms_attach [conform]:
  assumes "\<And>e. conforms A (guar P T) Q (k e)"
  shows "conforms A (guar P T) Q (attach rounds a c cols rows recovered reads k)"
proof -
  have fail: "conforms A (guar P T) Q (attach_failed a x k e)" for x e
    unfolding attach_failed_def unlock_attach_def by (intro conforms_session_step assms)
  have serve: "conforms A (guar P T) Q (attach_serve a x cols rows reads k)" for x
    unfolding attach_serve_def Let_def
    using assms by (auto intro!: conforms_on_session conforms_session_step conforms_clearAttachment conforms_readInput
        split: option.splits)
  show ?thesis
    unfolding attach_def Let_def unlock_attach_def
    using assms fail serve
    by (auto intro!: conforms_await_session conforms_on_session conforms_session_step conforms_replay
        split: option.splits sum.splits)
qed

section \<open>Running a session alone\<close>

definition with_session :: "nat \<Rightarrow> terminal_session \<Rightarrow> world \<Rightarrow> world" where
  "with_session a s w = w\<lparr>wd_terminals := set_terminal a s (wd_terminals w)\<rparr>"

definition has_session :: "nat \<Rightarrow> world \<Rightarrow> bool" where
  "has_session a w = (a < length (tm_objects (wd_terminals w)))"

lemma terminal_at_with [simp]: "has_session a w \<Longrightarrow> terminal_at (wd_terminals (with_session a s w)) a = s"
  by (simp add: has_session_def with_session_def terminal_at_def set_terminal_def)

lemma set_terminal_twice [simp]: "set_terminal a s (set_terminal a s' tm) = set_terminal a s tm"
  by (simp add: set_terminal_def)

lemma with_session_twice [simp]: "with_session a s (with_session a s' w) = with_session a s w"
  by (simp add: with_session_def)

lemma with_session_same: "terminal_at (wd_terminals w) a = s \<Longrightarrow> with_session a s w = w"
  by (auto simp: with_session_def set_terminal_def terminal_at_def)

lemma exec_on_session [simp]:
  "has_session a w \<Longrightarrow> exec (e # os) (with_session a s w) (on_session a f k) =
     exec os (with_session a (snd (f e s)) w) (k (fst (f e s)))"
  by (simp add: on_session_def case_prod_beta Let_def) (simp add: with_session_def)

lemma exec_session_step [simp]:
  "has_session a w \<Longrightarrow> exec (e # os) (with_session a s w) (session_step a f k) = exec os (with_session a (f e s) w) k"
  by (simp add: session_step_def)

lemma exec_await_session [simp]:
  "has_session a w \<Longrightarrow> f e s = Some (x, s') \<Longrightarrow>
   exec (e # os) (with_session a s w) (await_session a f k) = exec os (with_session a s' w) (k x)"
  by (simp add: await_session_def) (simp add: with_session_def)

subsection \<open>Sending frames\<close>

definition frame_message :: "history_frame \<Rightarrow> ws_message" where
  "frame_message f = (hf_message f, hf_payload f)"

definition queue_of :: "terminal_session \<Rightarrow> attachment_ptr \<Rightarrow> ws_message list" where
  "queue_of s x = at_outbound (attachment_of s x)"

definition enqueue :: "attachment_ptr \<Rightarrow> ws_message list \<Rightarrow> terminal_session \<Rightarrow> terminal_session" where
  "enqueue x ms s = set_attachment_object x ((attachment_of s x)\<lparr>at_outbound := queue_of s x @ ms\<rparr>) s"

definition live :: "terminal_session \<Rightarrow> attachment_ptr \<Rightarrow> bool" where
  "live s x = (x < length (ts_attachments s) \<and> \<not> at_done (attachment_of s x))"

lemma enqueue_attachment:
  "live s x \<Longrightarrow> attachment_of (enqueue x ms s) x = (attachment_of s x)\<lparr>at_outbound := queue_of s x @ ms\<rparr>"
  by (simp add: live_def enqueue_def attachment_of_def set_attachment_object_def)

lemma enqueue_simps [simp]:
  "live s x \<Longrightarrow> live (enqueue x ms s) x" "live s x \<Longrightarrow> queue_of (enqueue x ms s) x = queue_of s x @ ms"
  "enqueue x [] s = s" "live s x \<Longrightarrow> enqueue x ns (enqueue x ms s) = enqueue x (ms @ ns) s"
proof -
  assume l: "live s x"
  show "live (enqueue x ms s) x" "queue_of (enqueue x ms s) x = queue_of s x @ ms"
    using l enqueue_attachment [OF l, of ms] by (simp_all add: live_def queue_of_def) (simp add: enqueue_def set_attachment_object_def)
  then show "enqueue x ns (enqueue x ms s) = enqueue x (ms @ ns) s"
    using enqueue_attachment [OF l, of ms] by (simp add: enqueue_def set_attachment_object_def)
next
  show "enqueue x [] s = s" by (simp add: enqueue_def queue_of_def attachment_of_def set_attachment_object_def)
qed

lemma send_to_live:
  assumes "live s x"
  shows "send_to pick m x s = (if length (queue_of s x) < 128 then (Inr (), enqueue x [m] s)
     else (Inl ''terminal attachment buffer is full'', s))"
  using assms
  by (auto simp: send_to_def attachment_send_def live_def enqueue_def queue_of_def terminalAttachmentQueueSize_def
      Let_def set_attachment_object_def attachment_of_def)

lemma exec_send_frames:
  assumes "has_session a w" and "length os = length fs" and "live s x" and "length (queue_of s x) + length fs \<le> 128"
  shows "exec (os @ os') (with_session a s w) (send_frames a x fs failed k) =
    exec os' (with_session a (enqueue x (map frame_message fs) s) w) k"
  using assms(2-)
proof (induction fs arbitrary: os s)
  case (Cons f fs)
  then obtain e os1 where os: "os = e # os1" by (cases os) auto
  have "exec (os1 @ os') (with_session a (enqueue x [frame_message f] s) w) (send_frames a x fs failed k) =
      exec os' (with_session a (enqueue x (map frame_message fs) (enqueue x [frame_message f] s)) w) k"
    by (rule Cons.IH) (use Cons.prems os in simp_all)
  then show ?case using Cons.prems assms(1) by (simp add: os send_to_live frame_message_def [symmetric])
qed simp

lemma send_frames_append: "send_frames a x (fs @ gs) failed k = send_frames a x fs failed (send_frames a x gs failed k)"
  by (induction fs) (auto intro!: arg_cong [where f = "on_session _ _"] simp: fun_eq_iff split: sum.splits)

text \<open>A queue that fills up stops the replay.\<close>

lemma exec_send_frames_full:
  assumes "has_session a w" and "live s x" and "length (queue_of s x) \<le> 128" and "128 < length (queue_of s x) + length fs"
    and "length os = 129 - length (queue_of s x)"
  shows "exec (os @ os') (with_session a s w) (send_frames a x fs failed k) =
    exec os' (with_session a (enqueue x (map frame_message (take (128 - length (queue_of s x)) fs)) s) w)
      (failed ''terminal attachment buffer is full'')"
proof -
  let ?n = "128 - length (queue_of s x)"
  have n: "?n < length fs" using assms(3,4) by simp
  then have fs: "fs = take ?n fs @ fs ! ?n # drop (Suc ?n) fs" by (rule id_take_nth_drop)
  have "length os = Suc ?n" using assms(3,5) by simp
  then have "os = take ?n os @ [os ! ?n]" by (metis lessI take_Suc_conv_app_nth order_refl take_all)
  moreover have l: "length (take ?n os) = length (take ?n fs)" using n \<open>length os = Suc ?n\<close> by simp
  ultimately obtain e os1 where os: "os = os1 @ [e]" "length os1 = length (take ?n fs)" by metis
  let ?s = "enqueue x (map frame_message (take ?n fs)) s"
  have full: "length (queue_of ?s x) = 128" using assms(2,3) n by simp
  have "exec (os @ os') (with_session a s w) (send_frames a x fs failed k) =
      exec (os1 @ (e # os')) (with_session a s w) (send_frames a x (take ?n fs) failed
        (send_frames a x (fs ! ?n # drop (Suc ?n) fs) failed k))"
    by (subst fs) (simp only: send_frames_append os(1) append.assoc append.simps)
  also have "\<dots> = exec (e # os') (with_session a ?s w) (send_frames a x (fs ! ?n # drop (Suc ?n) fs) failed k)"
    by (rule exec_send_frames) (use assms(1-3) os(2) n in simp_all)
  also have "\<dots> = exec os' (with_session a ?s w) (failed ''terminal attachment buffer is full'')"
    using assms(1,2) full by (simp add: send_to_live)
  finally show ?thesis .
qed

subsection \<open>Attaching alone\<close>

text \<open>The session once a new attachment has replaced the current one and its greeting is queued.\<close>

definition ready_message :: "bool \<Rightarrow> terminal_session \<Rightarrow> ws_message" where
  "ready_message recovered s = (MessageText, marshal_server_message
     \<lparr>tsm_type = ''ready'', tsm_message = [], tsm_session_id = ts_id s, tsm_recovered = recovered\<rparr>)"

definition drop_current :: "terminal_session \<Rightarrow> terminal_session" where
  "drop_current s = (case ts_attachment s of
     None \<Rightarrow> s
   | Some old \<Rightarrow> removeAttachment old (close_attachment 1008 ''terminal reattached'' old s))"

definition greeted :: "conn \<Rightarrow> bool \<Rightarrow> terminal_session \<Rightarrow> terminal_session" where
  "greeted c recovered s = enqueue (length (ts_attachments s)) [ready_message recovered s]
     (drop_current (snd (newTerminalAttachment c (stopIdleTimer (s\<lparr>ts_attach_mu := True\<rparr>)))))"

definition attachment_ok :: "terminal_session \<Rightarrow> bool" where
  "attachment_ok s = (case ts_attachment s of None \<Rightarrow> True | Some x \<Rightarrow> x < length (ts_attachments s))"

lemma greeted_live:
  assumes "attachment_ok s"
  shows "live (greeted c recovered s) (length (ts_attachments s)) \<and>
    queue_of (greeted c recovered s) (length (ts_attachments s)) = [ready_message recovered s] \<and>
    at_conn (attachment_of (greeted c recovered s) (length (ts_attachments s))) = c"
  using assms
  by (auto simp: greeted_def drop_current_def attachment_ok_def newTerminalAttachment_def stopIdleTimer_def
      removeAttachment_def close_attachment_def live_def queue_of_def enqueue_def attachment_of_def
      set_attachment_object_def nth_append split: option.splits)

lemma greeted_rest:
  assumes "attachment_ok s"
  shows "ts_attachment (greeted c recovered s) = None \<and> ts_idle_timer (greeted c recovered s) = None \<and>
    ts_closed (greeted c recovered s) = ts_closed s \<and> ts_close_once (greeted c recovered s) = ts_close_once s \<and>
    (\<forall>old. ts_attachment s = Some old \<longrightarrow> at_done (attachment_of (greeted c recovered s) old))"
  using assms
  by (auto simp: greeted_def drop_current_def attachment_ok_def newTerminalAttachment_def stopIdleTimer_def
      removeAttachment_def close_attachment_def attachment_close_def enqueue_def attachment_of_def
      set_attachment_object_def nth_append split: option.splits)

lemma snapshot_same:
  "ts_history s' = ts_history s \<Longrightarrow> ts_history_len s' = ts_history_len s \<Longrightarrow> ts_next_seq s' = ts_next_seq s \<Longrightarrow>
   snapshotFramesAfter q s' = snapshotFramesAfter q s"
  by (simp add: snapshotFramesAfter_def split: option.split)

lemma snapshot_attach [simp]:
  "snapshotFramesAfter q (enqueue x ms s) = snapshotFramesAfter q s"
  "snapshotFramesAfter q (greeted c recovered s) = snapshotFramesAfter q s"
  by (rule snapshot_same; simp add: greeted_def drop_current_def newTerminalAttachment_def stopIdleTimer_def
      removeAttachment_def close_attachment_def enqueue_def set_attachment_object_def split: option.splits)+

lemma send_control_to_eq: "send_control_to pick m x s = send_to pick (MessageText, marshal_server_message m) x s"
  by (simp add: send_control_to_def send_to_def send_control_def)

definition attach_steps :: "terminal_session \<Rightarrow> nat" where
  "attach_steps s = (if ts_attachment s = None then 6 else 8)"

lemma exec_attach:
  assumes "has_session a w" and "\<not> ts_attach_mu s" and "\<not> ts_closed s" and "attachment_ok s"
    and "length os = attach_steps s"
  defines "x \<equiv> length (ts_attachments s)"
  shows "exec (os @ os') (with_session a s w) (attach rounds a c cols rows recovered reads k) =
    exec os' (with_session a (greeted c recovered s) w) (replay rounds a x 0 (attach_failed a x k)
      (unlock_attach a (attach_serve a x cols rows reads k)))"
proof -
  let ?s = "snd (newTerminalAttachment c (stopIdleTimer (s\<lparr>ts_attach_mu := True\<rparr>)))"
  have x: "fst (newTerminalAttachment c (stopIdleTimer (s\<lparr>ts_attach_mu := True\<rparr>))) = x"
    by (simp add: newTerminalAttachment_def stopIdleTimer_def x_def)
  have cur: "currentAttachment ?s = ts_attachment s"
    by (simp add: newTerminalAttachment_def stopIdleTimer_def currentAttachment_def)
  have "live (drop_current ?s) x" "queue_of (drop_current ?s) x = []" "ts_id (drop_current ?s) = ts_id s"
    using assms(4)
    by (auto simp: drop_current_def attachment_ok_def newTerminalAttachment_def stopIdleTimer_def x_def
      removeAttachment_def close_attachment_def live_def queue_of_def attachment_of_def
      set_attachment_object_def nth_append split: option.splits)
  then have ready: "send_control_to pick \<lparr>tsm_type = ''ready'', tsm_message = [], tsm_session_id = ts_id (drop_current ?s),
      tsm_recovered = recovered\<rparr> x (drop_current ?s) = (Inr (), greeted c recovered s)" for pick
    by (simp add: send_control_to_eq send_to_live greeted_def x_def ready_message_def)
  show ?thesis
  proof (cases "ts_attachment s")
    case None
    then have "drop_current ?s = ?s" using cur by (simp add: drop_current_def currentAttachment_def)
    moreover obtain e1 e2 e3 e4 e5 e6 where "os = [e1, e2, e3, e4, e5, e6]"
      using assms(5) None by (auto simp: attach_steps_def numeral_eq_Suc length_Suc_conv)
    ultimately show ?thesis
      using assms(1-3) None ready x cur by (simp add: attach_def isClosed_def Let_def)
  next
    case (Some old)
    then have "removeAttachment old (close_attachment 1008 ''terminal reattached'' old ?s) = drop_current ?s"
      using cur by (simp add: drop_current_def currentAttachment_def)
    moreover obtain e1 e2 e3 e4 e5 e6 e7 e8 where "os = [e1, e2, e3, e4, e5, e6, e7, e8]"
      using assms(5) Some by (auto simp: attach_steps_def numeral_eq_Suc length_Suc_conv)
    ultimately show ?thesis
      using assms(1-3) Some ready x cur by (simp add: attach_def isClosed_def Let_def)
  qed
qed

end
