(* ===== verification/TerminalReplay.thy ===== *)
theory TerminalReplay
  imports TerminalSession
begin

text \<open>
  What a browser that attaches to a terminal gets: the greeting and the recent output in order, if
  they fit the queue of the attachment, and what becomes of the session if they do not.  Both are
  about an attach whose writer gets no turn before the replay ends.
\<close>

section \<open>The replay loop alone\<close>

lemma split_steps:
  assumes "length os = m + (n + 1)"
  shows "\<exists>os1 os2 e. os = os1 @ (os2 @ [e]) \<and> length os1 = m \<and> length os2 = n"
proof -
  have "length (drop n (drop m os)) = 1" using assms by simp
  then obtain e where "drop n (drop m os) = [e]" by (metis length_0_conv length_Suc_conv One_nat_def)
  then have "os = take m os @ (take n (drop m os) @ [e])" by (metis append_take_drop_id)
  moreover have "length (take m os) = m" "length (take n (drop m os)) = n" using assms by simp_all
  ultimately show ?thesis by blast
qed

definition replay_steps :: "'a list \<Rightarrow> nat" where
  "replay_steps fs = (if fs = [] then 2 else length fs + 3)"

lemma exec_replay:
  assumes "has_session a w" and "live s x" and "length (queue_of s x) + length fs \<le> 128"
    and "snapshotFramesAfter q s = (fs, latest)" and "fst (snapshotFramesAfter latest s) = []"
    and "length os = replay_steps fs"
  shows "exec (os @ os') (with_session a s w) (replay (Suc (Suc rounds)) a x q failed k) =
    exec os' (with_session a (setAttachment x (enqueue x (map frame_message fs) s)) w) k"
proof (cases "fs = []")
  case True
  with assms(1,2,4,6) show ?thesis by (auto simp: replay_steps_def numeral_eq_Suc length_Suc_conv)
next
  case False
  obtain e os1 os2 where os: "os = e # os1 @ os2" "length os1 = length fs" "length os2 = 2"
  proof (cases os)
    case (Cons e os0)
    have "length (take (length fs) os0) = length fs" "length (drop (length fs) os0) = 2"
      using Cons assms(6) False by (simp_all add: replay_steps_def)
    then show thesis using that [of e "take (length fs) os0" "drop (length fs) os0"] Cons by simp
  qed (use assms(6) False in \<open>simp add: replay_steps_def\<close>)
  obtain e1 e2 where os2: "os2 = [e1, e2]" using os(3) by (auto simp: numeral_eq_Suc length_Suc_conv)
  let ?s = "enqueue x (map frame_message fs) s"
  let ?next = "replay (Suc rounds) a x latest failed k"
  have "exec (os @ os') (with_session a s w) (replay (Suc (Suc rounds)) a x q failed k) =
      exec (os1 @ (os2 @ os')) (with_session a s w) (send_frames a x fs failed ?next)"
    using assms(1,4) False by (simp add: os(1))
  also have "\<dots> = exec (os2 @ os') (with_session a ?s w) ?next"
    by (rule exec_send_frames) (use assms os in simp_all)
  also have "\<dots> = exec os' (with_session a (setAttachment x ?s) w) k"
    using assms(1,5) by (simp add: os2 case_prod_beta)
  finally show ?thesis .
qed

lemma exec_replay_full:
  assumes "has_session a w" and "live s x" and "length (queue_of s x) \<le> 128" and "128 < length (queue_of s x) + length fs"
    and "snapshotFramesAfter q s = (fs, latest)" and "fs \<noteq> []" and "length os = 130 - length (queue_of s x)"
  shows "exec (os @ os') (with_session a s w) (replay (Suc rounds) a x q failed k) =
    exec os' (with_session a (enqueue x (map frame_message (take (128 - length (queue_of s x)) fs)) s) w)
      (failed ''terminal attachment buffer is full'')"
proof -
  obtain e os1 where os: "os = e # os1" "length os1 = 129 - length (queue_of s x)"
    using assms(3,7) by (cases os) auto
  have "exec (os @ os') (with_session a s w) (replay (Suc rounds) a x q failed k) =
      exec (os1 @ os') (with_session a s w) (send_frames a x fs failed (replay rounds a x latest failed k))"
    using assms(1,5,6) by (simp add: os(1))
  with exec_send_frames_full [OF assms(1-4) os(2)] show ?thesis by metis
qed

section \<open>A session with some output\<close>

lemma publish_locked_keeps [simp]:
  "ts_attach_mu (snd (publish_locked p s)) = ts_attach_mu s" "ts_closed (snd (publish_locked p s)) = ts_closed s"
  "ts_attachment (snd (publish_locked p s)) = ts_attachment s"
  "ts_attachments (snd (publish_locked p s)) = ts_attachments s"
  "ts_close_once (snd (publish_locked p s)) = ts_close_once s" "ts_id (snd (publish_locked p s)) = ts_id s"
  by (simp_all add: publish_locked_def appendFrameLocked_def Let_def)

lemma publish_all_keeps [simp]:
  "ts_attach_mu (publish_all ps s) = ts_attach_mu s" "ts_closed (publish_all ps s) = ts_closed s"
  "ts_attachment (publish_all ps s) = ts_attachment s" "ts_attachments (publish_all ps s) = ts_attachments s"
  "ts_close_once (publish_all ps s) = ts_close_once s" "ts_id (publish_all ps s) = ts_id s"
  by (induction ps rule: rev_induct) (simp_all add: publish_all_def)

lemma publish_all_attachment_ok [simp]: "attachment_ok (publish_all ps s) = attachment_ok s"
  by (simp add: attachment_ok_def split: option.split)

lemma frame_message_numbered: "map frame_message (numbered ps) = map (\<lambda>p. (MessageBinary, p)) ps"
  by (rule nth_equalityI) (simp_all add: numbered_def frame_message_def)

section \<open>What a browser gets\<close>

text \<open>
  C35: A browser that attaches to an open terminal with at most 127 frames of output in total is served
  after a bounded number of steps, whatever the outside answers meanwhile: the greeting and all the
  output in order are in its queue, it is the current attachment, the one before it is closed, the
  idle timer is stopped and the lock is free again.  Two rounds of the replay loop are enough.
\<close>

theorem attach_replays_output:
  assumes "has_session a w" and "terminal_at (wd_terminals w) a = publish_all ps s" and "fresh_history s"
    and "\<not> ts_attach_mu s" and "attachment_ok s" and "length ps \<le> 127"
  defines "x \<equiv> length (ts_attachments s)"
  shows "\<exists>n w'. (\<forall>os. length os = n \<longrightarrow>
      exec os w (attach (Suc (Suc rounds)) a c cols rows recovered reads k) = (w', attach_serve a x cols rows reads k)) \<and>
    (let s' = terminal_at (wd_terminals w') a in
      ts_attachment s' = Some x \<and> at_conn (attachment_of s' x) = c \<and> \<not> at_done (attachment_of s' x) \<and>
      at_outbound (attachment_of s' x) = ready_message recovered s # map (\<lambda>p. (MessageBinary, p)) ps \<and>
      ts_idle_timer s' = None \<and> \<not> ts_attach_mu s' \<and>
      (\<forall>old. ts_attachment s = Some old \<longrightarrow> at_done (attachment_of s' old)))"
proof -
  let ?t = "publish_all ps s"
  let ?g = "greeted c recovered ?t"
  have lt: "length ps < 2 ^ 64" using assms(6) by simp
  have snap: "snapshotFramesAfter 0 ?g = (numbered ps, of_nat (length ps))"
    using snapshot_publish_all [OF assms(3) lt, of 0] assms(6) by simp
  have snap': "fst (snapshotFramesAfter (of_nat (length ps)) ?g) = []"
    using snapshot_publish_all [OF assms(3) lt, of "length ps"] by simp
  have live: "live ?g x" "queue_of ?g x = [ready_message recovered s]" "at_conn (attachment_of ?g x) = c"
    using greeted_live [of ?t c recovered] assms(5) by (simp_all add: x_def ready_message_def)
  let ?e = "enqueue x (map frame_message (numbered ps)) ?g"
  let ?u = "(setAttachment x ?e)\<lparr>ts_attach_mu := False\<rparr>"
  let ?w = "with_session a ?u w"
  have room: "length (queue_of ?g x) + length (numbered ps) \<le> 128" using live(2) assms(6) by simp
  have "exec os w (attach (Suc (Suc rounds)) a c cols rows recovered reads k) = (?w, attach_serve a x cols rows reads k)"
    if "length os = attach_steps ?t + (replay_steps (numbered ps) + 1)" for os
  proof -
    from split_steps [OF that] obtain os1 os2 e where os: "os = os1 @ (os2 @ [e])"
      and len: "length os1 = attach_steps ?t" "length os2 = replay_steps (numbered ps)" by blast
    have "exec os w (attach (Suc (Suc rounds)) a c cols rows recovered reads k) =
        exec (os2 @ [e]) (with_session a ?g w) (replay (Suc (Suc rounds)) a x 0 (attach_failed a x k)
          (unlock_attach a (attach_serve a x cols rows reads k)))"
      using exec_attach [OF assms(1) _ _ _ len(1), of "os2 @ [e]"] assms(3-5) with_session_same [OF assms(2)]
      by (simp add: os fresh_history_def x_def)
    also have "\<dots> = exec [e] (with_session a (setAttachment x ?e) w) (unlock_attach a (attach_serve a x cols rows reads k))"
      by (rule exec_replay [OF assms(1) live(1) room snap snap' len(2)])
    also have "\<dots> = (?w, attach_serve a x cols rows reads k)" using assms(1) by (simp add: unlock_attach_def)
    finally show ?thesis .
  qed
  moreover have "attachment_of ?u x = (attachment_of ?g x)\<lparr>at_outbound := queue_of ?g x @ map frame_message (numbered ps)\<rparr>"
    using enqueue_attachment [OF live(1)] by (simp add: setAttachment_def attachment_of_def)
  moreover have "old \<noteq> x" if "ts_attachment s = Some old" for old
    using that assms(5) by (simp add: attachment_ok_def x_def)
  then have "attachment_of ?u old = attachment_of ?g old" if "ts_attachment s = Some old" for old
    using that by (simp add: setAttachment_def attachment_of_def enqueue_def set_attachment_object_def)
  moreover have "ts_idle_timer ?u = ts_idle_timer ?g" "ts_attachment ?u = Some x"
    by (simp_all add: setAttachment_def enqueue_def set_attachment_object_def)
  ultimately show ?thesis
    using assms(1) live greeted_rest [of ?t c recovered] assms(5)
    by (intro exI [of _ "attach_steps ?t + (replay_steps (numbered ps) + 1)"] exI [of _ ?w])
      (auto simp: Let_def live_def frame_message_numbered)
qed

definition terminal_world :: "string list \<Rightarrow> world" where
  "terminal_world ps = sample_world\<lparr>wd_terminals :=
     snd (register_terminal ''t1'' (publish_all ps sample_terminal) newTerminalSessionManager)\<rparr>"

lemma terminal_world_session:
  "has_session 0 (terminal_world ps)" "terminal_at (wd_terminals (terminal_world ps)) 0 = publish_all ps sample_terminal"
  "\<not> ts_attach_mu sample_terminal" "attachment_ok sample_terminal"
  by (simp_all add: terminal_world_def has_session_def register_terminal_def newTerminalSessionManager_def
      terminal_at_def sample_terminal_def new_terminal_session_def attachment_ok_def)

theorem attach_replays_output_witness:
  "\<exists>n w'. exec (replicate n sample_env) (terminal_world [''hello''])
       (attach 2 0 7 0 0 True [] (\<lambda>_. Done (RWebSocket None))) =
     (w', attach_serve 0 0 0 0 [] (\<lambda>_. Done (RWebSocket None))) \<and>
     at_outbound (attachment_of (terminal_at (wd_terminals w') 0) 0) =
       [ready_message True sample_terminal, (MessageBinary, ''hello'')]"
proof -
  have "ts_attachments sample_terminal = []" by (simp add: sample_terminal_def new_terminal_session_def)
  with attach_replays_output [OF terminal_world_session(1,2) sample_terminal_fresh terminal_world_session(3,4),
      of "[''hello'']" 0 7 0 0 True "[]" "\<lambda>_. Done (RWebSocket None)"]
  obtain n w' where "\<forall>os. length os = n \<longrightarrow> exec os (terminal_world [''hello''])
       (attach 2 0 7 0 0 True [] (\<lambda>_. Done (RWebSocket None))) = (w', attach_serve 0 0 0 0 [] (\<lambda>_. Done (RWebSocket None)))"
    and "at_outbound (attachment_of (terminal_at (wd_terminals w') 0) 0) =
       [ready_message True sample_terminal, (MessageBinary, ''hello'')]"
    by (auto simp: Let_def numeral_2_eq_2)
  then show ?thesis by (intro exI [of _ n] exI [of _ w']) simp
qed

section \<open>A history larger than the queue\<close>

text \<open>
  C36: The history keeps 256 frames but the queue of an attachment holds 128 messages.  When a terminal
  with more than 127 frames of history is reattached before the writer gets a turn, the attach fails,
  and the session is stranded: it stays registered and open, has no attachment and no idle timer,
  so that only its shell can still end it.
\<close>

theorem attach_overflow_strands:
  assumes "has_session a w" and "terminal_at (wd_terminals w) a = publish_all ps s" and "fresh_history s"
    and "\<not> ts_attach_mu s" and "attachment_ok s" and "128 \<le> length ps" and "length ps < 2 ^ 64"
  shows "\<exists>n w'. (\<forall>os. length os = n \<longrightarrow>
      exec os w (attach (Suc rounds) a c cols rows recovered reads k) =
        (w', k (Some (ErrText ''terminal attachment buffer is full'')))) \<and>
    tm_sessions (wd_terminals w') = tm_sessions (wd_terminals w) \<and>
    (let s' = terminal_at (wd_terminals w') a in
      \<not> ts_closed s' \<and> ts_attachment s' = None \<and> ts_idle_timer s' = None \<and> \<not> ts_attach_mu s')"
proof -
  let ?t = "publish_all ps s"
  let ?g = "greeted c recovered ?t"
  let ?fs = "drop (length ps - 256) (numbered ps)"
  define x where "x = length (ts_attachments s)"
  have snap: "snapshotFramesAfter 0 ?g = (?fs, of_nat (length ps))"
    using snapshot_publish_all [OF assms(3,7), of 0] by simp
  have len: "128 \<le> length ?fs" using assms(6) by simp
  then have "?fs \<noteq> []" by (metis list.size(3) not_numeral_le_zero)
  have live: "live ?g x" "length (queue_of ?g x) = 1"
    using greeted_live [of ?t c recovered] assms(5) by (simp_all add: x_def)
  let ?e = "enqueue x (map frame_message (take (128 - length (queue_of ?g x)) ?fs)) ?g"
  let ?u = "close_attachment 1011 ''terminal attach failed'' x (?e\<lparr>ts_attach_mu := False\<rparr>)"
  let ?w = "with_session a ?u w"
  let ?r = "k (Some (ErrText ''terminal attachment buffer is full''))"
  have "exec os w (attach (Suc rounds) a c cols rows recovered reads k) = (?w, ?r)"
    if "length os = attach_steps ?t + (130 + 1)" for os
  proof -
    from split_steps [OF that] obtain os1 os2 e where os: "os = os1 @ (os2 @ [e])"
      and l: "length os1 = attach_steps ?t" "length os2 = 130" by blast
    obtain os3 e' where os2: "os2 = os3 @ [e']" "length os3 = 130 - length (queue_of ?g x)"
      using l(2) live(2) by (cases os2 rule: rev_cases) auto
    have "exec os w (attach (Suc rounds) a c cols rows recovered reads k) =
        exec (os3 @ [e', e]) (with_session a ?g w) (replay (Suc rounds) a x 0 (attach_failed a x k)
          (unlock_attach a (attach_serve a x cols rows reads k)))"
      using exec_attach [OF assms(1) _ _ _ l(1), of "os2 @ [e]"] assms(3-5) with_session_same [OF assms(2)]
      by (simp add: os os2(1) fresh_history_def x_def)
    also have "\<dots> = exec [e', e] (with_session a ?e w) (attach_failed a x k ''terminal attachment buffer is full'')"
      by (rule exec_replay_full [OF assms(1) live(1) _ _ snap \<open>?fs \<noteq> []\<close> os2(2)]) (use live(2) len in simp_all)
    also have "\<dots> = (?w, ?r)"
      using assms(1) by (simp add: attach_failed_def unlock_attach_def)
    finally show ?thesis .
  qed
  moreover have "tm_sessions (wd_terminals ?w) = tm_sessions (wd_terminals w)"
    by (simp add: with_session_def set_terminal_def)
  moreover have "ts_attachment ?u = ts_attachment ?g" "ts_idle_timer ?u = ts_idle_timer ?g" "ts_closed ?u = ts_closed ?g"
    "\<not> ts_attach_mu ?u"
    by (simp_all add: close_attachment_def enqueue_def set_attachment_object_def)
  ultimately show ?thesis
    using assms(1,3,5) greeted_rest [of ?t c recovered]
    by (intro exI [of _ "attach_steps ?t + (130 + 1)"] exI [of _ ?w]) (auto simp: Let_def fresh_history_def)
qed

theorem attach_overflow_strands_witness:
  "\<exists>n w'. exec (replicate n sample_env) (terminal_world (replicate 128 ''x''))
       (attach 1 0 7 0 0 True [] (\<lambda>e. Done (RWebSocket (if e = None then None else Some (1011, ''terminal error''))))) =
     (w', Done (RWebSocket (Some (1011, ''terminal error'')))) \<and>
     get_terminal (wd_terminals w') ''t1'' = Some 0 \<and> ts_idle_timer (terminal_at (wd_terminals w') 0) = None"
proof -
  have "get_terminal (wd_terminals (terminal_world ps)) ''t1'' = Some 0" for ps
    by (simp add: terminal_world_def register_terminal_def newTerminalSessionManager_def get_terminal_def)
  with attach_overflow_strands [OF terminal_world_session(1,2) sample_terminal_fresh terminal_world_session(3,4),
      of "replicate 128 ''x''" 0 7 0 0 True "[]" "\<lambda>e. Done (RWebSocket (if e = None then None else Some (1011, ''terminal error'')))"]
  obtain n w' where "\<forall>os. length os = n \<longrightarrow> exec os (terminal_world (replicate 128 ''x''))
       (attach 1 0 7 0 0 True [] (\<lambda>e. Done (RWebSocket (if e = None then None else Some (1011, ''terminal error''))))) =
       (w', Done (RWebSocket (Some (1011, ''terminal error''))))"
    and "get_terminal (wd_terminals w') ''t1'' = Some 0" and "ts_idle_timer (terminal_at (wd_terminals w') 0) = None"
    by (auto simp: Let_def get_terminal_def)
  then show ?thesis by (intro exI [of _ n] exI [of _ w']) simp
qed

end
