(* ===== verification/TerminalHandlers.thy ===== *)
theory TerminalHandlers
  imports ProxyHandlers TerminalReplay
begin

text \<open>
  The terminal endpoint of the browser (\<^verbatim>\<open>api/rest/terminal.go\<close>): it attaches the browser to a
  terminal it owns, or opens a proxy session to a workstation of the member, connects to that session
  through the server's own proxy endpoint, starts a shell over it and attaches the browser to that.
\<close>

section \<open>The connection to the proxy endpoint\<close>

definition normalizeLoopbackHTTPAddr :: "string \<Rightarrow> string option" where
  "normalizeLoopbackHTTPAddr addr =
     (if trimSpace addr = [] then None
      else if hasPrefix addr '':'' then Some (''127.0.0.1'' @ addr)
      else (case splitHostPort addr of
          None \<Rightarrow> None
        | Some (host, port) \<Rightarrow>
            Some (joinHostPort (if host = [] \<or> host = ''0.0.0.0'' \<or> host = ''::'' then ''127.0.0.1'' else host) port)))"

definition internalWebSocketURL :: "handler_config \<Rightarrow> string \<Rightarrow> string option" where
  "internalWebSocketURL cfg path = (case normalizeLoopbackHTTPAddr (cfg_http_addr cfg) of
     None \<Rightarrow> None
   | Some hostPort \<Rightarrow> Some ((if cfg_tls_enabled cfg then ''wss'' else ''ws'') @ ''://'' @ hostPort @ path))"

record dial_options =
  do_host :: string
  do_forwarded_host :: "string option"
  do_skip_verify :: bool

definition internalProxyDialOptions :: "lib \<Rightarrow> handler_config \<Rightarrow> dial_options" where
  "internalProxyDialOptions lb cfg =
     (let browserHost = normalizeHost lb (cfg_browser_public_host cfg)
      in if browserHost \<noteq> []
         then \<lparr>do_host = browserHost, do_forwarded_host = Some browserHost, do_skip_verify = False\<rparr>
         else \<lparr>do_host = [], do_forwarded_host = None, do_skip_verify = False\<rparr>)"

definition internal_query :: "proxy_session \<Rightarrow> string" where
  "internal_query s = ''session='' @ query_escape (ps_id s) @ ''&role=client&token='' @ query_escape (ps_token s)"

text \<open>What is dialled: the URL and the options.\<close>

definition internal_dial :: "lib \<Rightarrow> handler_config \<Rightarrow> proxy_session \<Rightarrow> (string \<times> dial_options) option" where
  "internal_dial lb cfg s = map_option
     (\<lambda>u. (u, (internalProxyDialOptions lb cfg)\<lparr>do_skip_verify := cfg_tls_enabled cfg\<rparr>))
     (internalWebSocketURL cfg (''/api/v1/proxy/ws?'' @ internal_query s))"

text \<open>The request the server answers is another program of it; here only whether it connects.\<close>

definition dialInternalProxyWebSocket ::
  "handler \<Rightarrow> proxy_session \<Rightarrow> (conn option \<Rightarrow> server_prog) \<Rightarrow> server_prog" where
  "dialInternalProxyWebSocket h s k = (case internal_dial (h_lib h) (h_config h) s of
     None \<Rightarrow> k None
   | Some _ \<Rightarrow> external (\<lambda>orc. if or_ok orc then Some (or_conn orc) else None) k)"

section \<open>The shell\<close>

definition defaultTerminalCols :: int where
  "defaultTerminalCols = 120"

definition defaultTerminalRows :: int where
  "defaultTerminalRows = 36"

definition terminalCredentials :: "proxy_target \<Rightarrow> string \<times> string" where
  "terminalCredentials target =
     (if target = ProxyTargetHost then (''launchctl'', ''change-me'') else (''admin'', ''admin''))"

text \<open>The calls that start a shell, each of which may fail.\<close>

datatype ssh_call =
    NewClientConn string string
  | NewSession
  | StdoutPipe
  | StderrPipe
  | StdinPipe
  | RequestPty string int int
  | Shell

definition ssh_calls :: "string \<Rightarrow> string \<Rightarrow> int \<Rightarrow> int \<Rightarrow> ssh_call list" where
  "ssh_calls user password cols rows =
     [NewClientConn user password, NewSession, StdoutPipe, StderrPipe, StdinPipe,
      RequestPty ''xterm-256color'' rows cols, Shell]"

fun run_ssh :: "ssh_call list \<Rightarrow> (bool \<Rightarrow> server_prog) \<Rightarrow> server_prog" where
  "run_ssh [] k = k True"
| "run_ssh (c # cs) k = external or_ok (\<lambda>ok. if ok then run_ssh cs k else k False)"

definition startTerminalSSHSession ::
  "string \<Rightarrow> string \<Rightarrow> int \<Rightarrow> int \<Rightarrow> (bool \<Rightarrow> server_prog) \<Rightarrow> server_prog" where
  "startTerminalSSHSession user password cols rows k = run_ssh (ssh_calls user password cols rows) k"

section \<open>The handler\<close>

text \<open>How the handler closes the connection of the browser when the attach is over.\<close>

definition terminal_end :: "io_error option \<Rightarrow> server_prog" where
  "terminal_end err = Done (RWebSocket (case err of
     None \<Rightarrow> None
   | Some e \<Rightarrow> if quiet_end e \<or> e = ErrEOF then None else Some (1011, ''terminal error'')))"

definition open_terminal ::
  "handler \<Rightarrow> member \<Rightarrow> workstation \<Rightarrow> int \<Rightarrow> int \<Rightarrow> (nat \<Rightarrow> server_prog) \<Rightarrow> server_prog" where
  "open_terminal h m ws cols rows k =
     (let (user, password) = terminalCredentials ProxyTargetVM
      in proxy_create ProxyTargetVM (ws_id ws) (ws_worker_id ws) 22 (\<lambda>s.
         dialInternalProxyWebSocket h s (\<lambda>dialled. case dialled of
             None \<Rightarrow> proxy_close (ps_id s) (Done (RWebSocket (Some (1011, ''relay connection failed''))))
           | Some c \<Rightarrow> startTerminalSSHSession user password cols rows (\<lambda>started.
               if \<not> started then proxy_close (ps_id s) (Done (RWebSocket (Some (1011, ''ssh connection failed''))))
               else on_terminals (\<lambda>orc tm.
                   let (a, tm') = create_terminal (or_uuid orc) (mb_id m) (ws_id ws) (ws_worker_id ws) (ps_id s) tm
                   in (tm', a)) k))))"

definition handleBrowserTerminalWebSocket ::
  "handler \<Rightarrow> nat \<Rightarrow> (io_error + ws_message) list \<Rightarrow> request \<Rightarrow> server_prog" where
  "handleBrowserTerminalWebSocket h rounds reads r = (case currentMember r of
     None \<Rightarrow> Done (writeError 401 ''unauthorized'')
   | Some m \<Rightarrow>
      (let cols = parsePositiveQueryInt r ''cols'' defaultTerminalCols;
           rows = parsePositiveQueryInt r ''rows'' defaultTerminalRows;
           sessionID = trimSpace (query_get r ''session'');
           requestedWorkstationID = trimSpace (query_get r ''workstation_id'')
       in external (\<lambda>orc. if or_ok orc then Some (or_conn orc) else None) (\<lambda>accepted. case accepted of
            None \<Rightarrow> Done (RWebSocket None)
          | Some c \<Rightarrow>
             if sessionID \<noteq> []
             then inspect (\<lambda>w. map_option (\<lambda>a. (a, ts_member_id (terminal_at (wd_terminals w) a)))
                     (get_terminal (wd_terminals w) sessionID)) (\<lambda>found. case found of
                 None \<Rightarrow> Done (RWebSocket (Some (1008, ''terminal session not found'')))
               | Some (a, owner) \<Rightarrow>
                   if owner \<noteq> mb_id m then Done (RWebSocket (Some (1008, ''terminal session unauthorized'')))
                   else attach rounds a c cols rows True reads terminal_end)
             else resolveMemberWorkstation r requestedWorkstationID (\<lambda>res. case res of
                 Inl e \<Rightarrow> Done (RWebSocket (Some (1008, ae_message e)))
               | Inr ws \<Rightarrow>
                   if ws_power_state ws \<noteq> PowerRunning then Done (RWebSocket (Some (1008, ''workstation not running'')))
                   else open_terminal h m ws cols rows (\<lambda>a. attach rounds a c cols rows False reads terminal_end)))))"

section \<open>Entitlement\<close>

lemma conforms_run_ssh:
  "(\<And>b. conforms A (guar P T) Q (k b)) \<Longrightarrow> conforms A (guar P T) Q (run_ssh cs k)"
  by (induction cs) (auto intro!: conforms_external)

lemma conforms_open_terminal:
  assumes "\<And>resp. Q resp" and "\<And>a. conforms A (guar P T) Q (k a)"
  shows "conforms A (guar P T) Q (open_terminal h m ws cols rows k)"
  unfolding open_terminal_def dialInternalProxyWebSocket_def startTerminalSSHSession_def Let_def
  using assms
  by (auto intro!: conforms_proxy_create conforms_external conforms_proxy_close conforms_run_ssh conforms_on_terminals
      split: option.splits prod.splits)

lemma entitled_handleBrowserTerminalWebSocket:
  "entitled h t r (handleBrowserTerminalWebSocket h rounds reads r')"
  unfolding handleBrowserTerminalWebSocket_def terminal_end_def Let_def
  by (auto intro!: conforms_external conforms_inspect_db conforms_resolve conforms_attach conforms_open_terminal
      split: option.splits sum.splits)

section \<open>A terminal belongs to its member\<close>

text \<open>
  C37: A member reaches only terminals of their own: while the terminal a request names, if there is
  one, belongs to another member, the request changes nothing in the server, whatever runs beside it,
  and no terminal is served; the connection is closed with a policy violation, unless it could not
  be accepted at all.
\<close>

theorem terminal_needs_owner:
  assumes "rq_member r = Some m" and "trimSpace (query_get r ''session'') \<noteq> []"
  shows "conforms (\<lambda>orc w. \<forall>a. get_terminal (wd_terminals w) (trimSpace (query_get r ''session'')) = Some a \<longrightarrow>
       ts_member_id (terminal_at (wd_terminals w) a) \<noteq> mb_id m)
     (\<lambda>orc w w'. w' = w)
     (\<lambda>resp. resp = RWebSocket None \<or> (\<exists>reason. resp = RWebSocket (Some (1008, reason))))
     (handleBrowserTerminalWebSocket h rounds reads r)"
  using assms unfolding handleBrowserTerminalWebSocket_def Let_def currentMember_def external_def
  by (auto intro!: conforms_inspect conforms_atomic split: option.splits)

theorem terminal_needs_owner_witness:
  "\<exists>resp. exec [sample_env, sample_env] (terminal_world [])
      (handleBrowserTerminalWebSocket sample_handler 2 [] (sample_request\<lparr>rq_raw_query := ''session=t1'',
        rq_member := Some (sample_member\<lparr>mb_id := ''m2''\<rparr>)\<rparr>)) = (terminal_world [], Done resp) \<and>
     (resp = RWebSocket None \<or> (\<exists>reason. resp = RWebSocket (Some (1008, reason))))"
proof -
  let ?r = "sample_request\<lparr>rq_raw_query := ''session=t1'', rq_member := Some (sample_member\<lparr>mb_id := ''m2''\<rparr>)\<rparr>"
  let ?p = "handleBrowserTerminalWebSocket sample_handler 2 [] ?r"
  have q: "trimSpace (query_get ?r ''session'') = ''t1''"
  proof -
    have "parse_query ''session=t1'' = [(''session'', ''t1'')]" "trimSpace ''t1'' = ''t1''" by code_simp+
    then show ?thesis by (simp add: query_get_def)
  qed
  have t: "get_terminal (wd_terminals (terminal_world [])) ''t1'' = Some 0"
    "ts_member_id (terminal_at (wd_terminals (terminal_world [])) 0) = ''m1''"
    by (simp_all add: terminal_world_def register_terminal_def newTerminalSessionManager_def get_terminal_def
        terminal_at_def publish_all_def sample_terminal_def new_terminal_session_def)
  have ex: "exec [sample_env, sample_env] (terminal_world []) ?p =
      (terminal_world [], Done (RWebSocket (Some (1008, ''terminal session unauthorized''))))"
    using q t by (simp add: handleBrowserTerminalWebSocket_def Let_def currentMember_def sample_env_def)
  have conf: "conforms (\<lambda>orc w. \<forall>a. get_terminal (wd_terminals w) (trimSpace (query_get ?r ''session'')) = Some a \<longrightarrow>
       ts_member_id (terminal_at (wd_terminals w) a) \<noteq> ''m2'')
     (\<lambda>orc w w'. w' = w)
     (\<lambda>resp. resp = RWebSocket None \<or> (\<exists>reason. resp = RWebSocket (Some (1008, reason)))) ?p"
    using terminal_needs_owner [of ?r "sample_member\<lparr>mb_id := ''m2''\<rparr>"] q by simp
  have "\<forall>a. get_terminal (wd_terminals (terminal_world [])) (trimSpace (query_get ?r ''session'')) = Some a \<longrightarrow>
       ts_member_id (terminal_at (wd_terminals (terminal_world [])) a) \<noteq> ''m2''"
    using q t by simp
  with conforms_exec_same [OF conf _ ex] ex show ?thesis by blast
qed

section \<open>The server reaches its own proxy endpoint\<close>

text \<open>The request that arrives for a dial with these options.\<close>

definition dial_request :: "lib \<Rightarrow> handler_config \<Rightarrow> string \<Rightarrow> proxy_session \<Rightarrow> request" where
  "dial_request lb cfg hostPort s = (let opts = internalProxyDialOptions lb cfg in
     \<lparr>rq_method = ''GET'', rq_path = ''/api/v1/proxy/ws'', rq_segments = [''api'', ''v1'', ''proxy'', ''ws''],
      rq_raw_query = internal_query s, rq_host = (if do_host opts = [] then hostPort else do_host opts),
      rq_forwarded_host = (case do_forwarded_host opts of None \<Rightarrow> [] | Some v \<Rightarrow> v),
      rq_authorization = [], rq_access_jwt = [], rq_access_cookie = None, rq_path_id = [], rq_path_version = [],
      rq_body = [], rq_form = None, rq_worker = None, rq_member = None\<rparr>)"

lemma parse_internal_query:
  "parse_query (internal_query s) = [(''session'', ps_id s), (''role'', ''client''), (''token'', ps_token s)]"
proof -
  have "query_escape ''session'' = ''session''" "query_escape ''role'' = ''role''" "query_escape ''client'' = ''client''"
    "query_escape ''token'' = ''token''" by code_simp+
  then have "internal_query s = encode_query [(''session'', ps_id s), (''role'', ''client''), (''token'', ps_token s)]"
    by (simp add: internal_query_def encode_pair_def)
  then show ?thesis by (simp only: parse_encode_query)
qed

lemma dial_request_admitted:
  assumes "cfg_browser_public_host cfg = [] \<or>
    (\<exists>host port. plain_host host \<and> port_suffix port \<and> cfg_browser_public_host cfg = host @ port)"
  shows "matchesBrowserHost lb cfg (dial_request lb cfg hostPort s)"
  using assms
proof
  assume "cfg_browser_public_host cfg = []"
  then show ?thesis by (simp add: matchesBrowserHost_def hostMatches_def)
next
  assume "\<exists>host port. plain_host host \<and> port_suffix port \<and> cfg_browser_public_host cfg = host @ port"
  then obtain host where host: "plain_host host" "normalizeHost lb (cfg_browser_public_host cfg) = toLower host"
    using normalizeHost_port by metis
  note l = plain_hostD [OF plain_host_lower [OF host(1)]]
  have twice: "normalizeHost lb (toLower host) = toLower host"
    using normalizeHost_plain [OF plain_host_lower [OF host(1)]] by simp
  have "rq_forwarded_host (dial_request lb cfg hostPort s) = toLower host"
    using host(2) l(1) by (simp add: dial_request_def internalProxyDialOptions_def Let_def)
  then have "requestHost lb (dial_request lb cfg hostPort s) = toLower host"
    using l twice by (simp add: requestHost_def cut_single_none)
  then show ?thesis using host(2) twice by (simp add: matchesBrowserHost_def hostMatches_def)
qed

text \<open>
  C38: What a terminal dials is what the proxy endpoint decodes: whatever the session and its token
  contain, with a public host that is a plain name with or without a port or not configured, the
  request passes the host check, names the session and presents its token, so that the accepted
  connection becomes the client side of exactly that session.
\<close>

theorem internal_dial_attaches:
  assumes "cfg_browser_public_host (h_config h) = [] \<or>
      (\<exists>host port. plain_host host \<and> port_suffix port \<and> cfg_browser_public_host (h_config h) = host @ port)"
    and "get_session (wd_proxy w) (ps_id s) = Some a" and "session_at (wd_proxy w) a = s"
    and "ps_id s \<noteq> []" and "ps_token s \<noteq> []" and "or_ok e2"
  shows "\<exists>p. exec [e1, e2, e3, e4] w (handleProxyWebSocket h (dial_request (h_lib h) (h_config h) hostPort s)) =
    (w\<lparr>wd_proxy := snd (set_conn_at ''client'' (or_conn e2) a (wd_proxy w))\<rparr>, p)"
proof -
  let ?r = "dial_request (h_lib h) (h_config h) hostPort s"
  have q: "query_get ?r ''session'' = ps_id s" "query_get ?r ''role'' = ''client''" "query_get ?r ''token'' = ps_token s"
    by (simp_all add: query_get_def dial_request_def Let_def parse_internal_query)
  have "matchesBrowserHost (h_lib h) (h_config h) ?r" using assms(1) by (rule dial_request_admitted)
  with q assms(2-) show ?thesis
    by (simp add: handleProxyWebSocket_def Let_def proxy_set_conn_def case_prod_beta)
qed

theorem internal_dial_attaches_witness:
  "\<exists>p. exec [sample_env, sample_env, sample_env, sample_env] proxied_world
      (handleProxyWebSocket sample_handler (dial_request sample_lib sample_config ''127.0.0.1:8080''
        (session_at (wd_proxy proxied_world) 0))) =
    (proxied_world\<lparr>wd_proxy := snd (set_conn_at ''client'' 7 0 (wd_proxy proxied_world))\<rparr>, p)"
proof -
  let ?s = "session_at (wd_proxy proxied_world) 0"
  have "ps_id ?s = ''s1''"
    by (simp add: proxied_world_def create_session_def register_session_def newSessionManager_def session_at_def new_session_def)
  then show ?thesis
    using internal_dial_attaches [of sample_handler proxied_world ?s 0 sample_env sample_env sample_env sample_env "''127.0.0.1:8080''"]
    by (simp add: proxied_session sample_handler_def sample_config_def sample_env_def)
qed

end
