(* ===== verification/Static.thy ===== *)
theory Static
  imports Host ReleasePaths
begin

text \<open>
  The files of the web interface (\<^verbatim>\<open>api/rest/static.go\<close>) and \<^verbatim>\<open>http.FileServer\<close> as far as it answers
  plain requests.  A file tree maps the names of \<^verbatim>\<open>io/fs\<close>, without a leading slash and with \<open>.\<close> as
  root, to files and directories.
\<close>

section \<open>File trees\<close>

datatype node = FileNode string | DirNode "string list"

type_synonym file_tree = "(string \<times> node) list"

text \<open>The media type of a file name and the page that lists a directory.\<close>

record file_lib =
  mime_type :: "string \<Rightarrow> string"
  dir_listing :: "string list \<Rightarrow> string"

definition content_type :: "string \<Rightarrow> (string \<times> string) list" where
  "content_type t = [(''Content-Type'', t)]"

definition serveStaticFile :: "file_tree \<Rightarrow> string \<Rightarrow> response" where
  "serveStaticFile root name = (case map_of root name of
     Some (FileNode content) \<Rightarrow>
       RText 200 (if hasSuffix name ''.html'' then content_type ''text/html; charset=utf-8'' else []) content
   | _ \<Rightarrow> writeHeader 404)"

subsection \<open>The file server of the library\<close>

definition fs_name :: "string \<Rightarrow> string" where
  "fs_name clean = (if clean = ''/'' then ''.'' else trimPrefix clean ''/'')"

definition base_name :: "string \<Rightarrow> string" where
  "base_name p = (case components p of [] \<Rightarrow> ''/'' | cs \<Rightarrow> last cs)"

definition localRedirect :: "request \<Rightarrow> string \<Rightarrow> response" where
  "localRedirect r newPath =
     RRedirect 301 (if rq_raw_query r = [] then newPath else newPath @ ''?'' @ rq_raw_query r)"

definition file_server :: "file_lib \<Rightarrow> file_tree \<Rightarrow> request \<Rightarrow> response" where
  "file_server fl root r =
     (let upath = (if hasPrefix (rq_path r) ''/'' then rq_path r else ''/'' @ rq_path r); name = clean_abs upath
      in if hasSuffix upath ''/index.html'' then localRedirect r ''./''
         else case map_of root (fs_name name) of
             None \<Rightarrow> httpNotFound
           | Some (FileNode content) \<Rightarrow>
               if hasSuffix upath ''/'' then localRedirect r (''../'' @ base_name upath)
               else RText 200 (content_type (mime_type fl name)) content
           | Some (DirNode entries) \<Rightarrow>
               if \<not> hasSuffix upath ''/'' then localRedirect r (base_name upath @ ''/'')
               else (case map_of root (fs_name (trimRight name (CHR ''/'') @ ''/index.html'')) of
                   Some (FileNode content) \<Rightarrow> RText 200 (content_type (mime_type fl ''index.html'')) content
                 | Some (DirNode es) \<Rightarrow> RText 200 (content_type ''text/html; charset=utf-8'') (dir_listing fl es)
                 | None \<Rightarrow> RText 200 (content_type ''text/html; charset=utf-8'') (dir_listing fl entries)))"

section \<open>The handler\<close>

definition host_escape :: "string \<Rightarrow> string" where
  "host_escape s = concat (map (\<lambda>c. if unreserved c \<or> c \<in> set ''!$&()*+,;=:[]<>'' \<or> c \<in> {CHR 0x22, CHR 0x27}
     then [c] else percent c) s)"

text \<open>\<^verbatim>\<open>URL.String\<close> of an https URL with this host, path and query.\<close>

definition url_string :: "string \<Rightarrow> string \<Rightarrow> string \<Rightarrow> string" where
  "url_string host path raw_query =
     (let p = (if path = ''*'' then ''*'' else path_escape path)
      in ''https://'' @ host_escape host @ (if p \<noteq> [] \<and> \<not> hasPrefix p ''/'' then ''/'' else []) @ p @
         (if raw_query = [] then [] else ''?'' @ raw_query))"

definition newStaticHandler :: "lib \<Rightarrow> file_lib \<Rightarrow> file_tree \<Rightarrow> string \<Rightarrow> request \<Rightarrow> response" where
  "newStaticHandler lb fl root browserHost0 r =
     (let browserHost = normalizeHost lb browserHost0
      in if rq_method r \<noteq> ''GET'' \<and> rq_method r \<noteq> ''HEAD'' then httpNotFound
         else if browserHost \<noteq> [] \<and> requestHost lb r \<noteq> browserHost
         then RRedirect 307 (url_string browserHost (rq_path r) (rq_raw_query r))
         else let cleanPath = clean_abs (''/'' @ trimPrefix (rq_path r) ''/''); trimmed0 = trimPrefix cleanPath ''/'';
                  trimmed = (if trimmed0 = ''.'' then [] else trimmed0)
              in if trimmed = [] then serveStaticFile root ''index.html''
                 else if map_of root trimmed \<noteq> None then file_server fl root r
                 else serveStaticFile root ''index.html'')"

section \<open>What a browser gets\<close>

text \<open>The pages a request may be answered with: one of the tree, or a listing of one of its directories.\<close>

definition from_tree :: "file_lib \<Rightarrow> file_tree \<Rightarrow> string \<Rightarrow> bool" where
  "from_tree fl root page = (\<exists>name. map_of root name = Some (FileNode page) \<or>
     (\<exists>entries. map_of root name = Some (DirNode entries) \<and> page = dir_listing fl entries))"

lemma static_pages:
  "newStaticHandler lb fl root browserHost r = RText 200 hs page \<Longrightarrow> from_tree fl root page"
  unfolding newStaticHandler_def file_server_def serveStaticFile_def from_tree_def localRedirect_def
    httpNotFound_def writeHeader_def
  by (auto simp: Let_def split: if_splits option.splits node.splits)


lemma requestHost_path [simp]: "requestHost lb (r\<lparr>rq_path := x\<rparr>) = requestHost lb r"
  by (simp add: requestHost_def Let_def)

definition sample_tree :: file_tree where
  "sample_tree = [(''.'', DirNode [''index.html'', ''app.js'']), (''index.html'', FileNode ''start''), (''app.js'', FileNode ''code'')]"

definition sample_file_lib :: file_lib where
  "sample_file_lib = \<lparr>mime_type = (\<lambda>_. ''text/plain''), dir_listing = concat\<rparr>"


end
