(* ===== verification/Routes.thy ===== *)
theory Routes
  imports ReleaseHandlers WorkerHandlers TerminalHandlers Static
begin

text \<open>
  The routes of \<^verbatim>\<open>api/rest/handler.go\<close> with their middlewares, and the multiplexer that chooses one of
  them for a request or hands it to the files of the web interface.
\<close>

section \<open>Routes\<close>

datatype segment = Lit string | Wildcard string

fun match_path :: "segment list \<Rightarrow> string list \<Rightarrow> (string \<times> string) list option" where
  "match_path [] [] = Some []"
| "match_path (Lit s # ps) (x # xs) = (if x = s then match_path ps xs else None)"
| "match_path (Wildcard n # ps) (x # xs) = (if x = [] then None else map_option ((#) (n, x)) (match_path ps xs))"
| "match_path _ _ = None"

record route =
  rt_method :: string
  rt_pattern :: "segment list"
  rt_handler :: "request \<Rightarrow> server_prog"

definition handle_func :: "string \<Rightarrow> segment list \<Rightarrow> (request \<Rightarrow> server_prog) \<Rightarrow> route" where
  "handle_func method pattern f = \<lparr>rt_method = method, rt_pattern = pattern, rt_handler = f\<rparr>"

definition api :: "segment list \<Rightarrow> segment list" where
  "api ps = Lit ''api'' # Lit ''v1'' # ps"

definition registerRoutes :: "handler \<Rightarrow> nat \<Rightarrow> (io_error + ws_message) list \<Rightarrow> route list" where
  "registerRoutes h rounds reads =
    [handle_func ''GET'' [Lit ''install.sh''] (requireWorkerHost h (handleInstallScript h)),
     handle_func ''GET'' (api [Lit ''health'']) handleHealth,
     handle_func ''GET'' (api [Lit ''me'']) (requireBrowserHost h (requireAccessAuth h handleMe)),
     handle_func ''GET'' (api [Lit ''my-workstations'']) (requireBrowserHost h (requireAccessAuth h handleListMyWorkstations)),
     handle_func ''GET'' (api [Lit ''my-workstation'']) (requireBrowserHost h (requireAccessAuth h handleGetMyWorkstation)),
     handle_func ''POST'' (api [Lit ''my-workstation'', Lit ''claim'']) (requireBrowserHost h (requireAccessAuth h handleClaimMyWorkstation)),
     handle_func ''POST'' (api [Lit ''my-workstation'', Lit ''release'']) (requireBrowserHost h (requireAccessAuth h handleReleaseMyWorkstation)),
     handle_func ''GET'' (api [Lit ''browser'', Lit ''workers'']) (requireBrowserHost h (requireAccessAuth h handleListWorkers)),
     handle_func ''POST'' (api [Lit ''browser'', Lit ''proxy-sessions'']) (requireBrowserHost h (requireAccessAuth h handleCreateProxySession)),
     handle_func ''GET'' (api [Lit ''browser'', Lit ''terminal'', Lit ''ws''])
       (requireBrowserHost h (requireAccessAuth h (handleBrowserTerminalWebSocket h rounds reads))),
     handle_func ''GET'' (api [Lit ''workers'']) (requireBrowserHost h (requireAdminAuth h handleListWorkers)),
     handle_func ''POST'' (api [Lit ''proxy'', Lit ''sessions'']) (requireBrowserHost h (requireAdminAuth h handleCreateProxySession)),
     handle_func ''GET'' (api [Lit ''proxy'', Lit ''sessions'', Lit ''pending'']) (requireWorkerHost h (requireWorkerAuth h handlePendingProxySessions)),
     handle_func ''GET'' (api [Lit ''proxy'', Lit ''ws'']) (handleProxyWebSocket h),
     handle_func ''POST'' (api [Lit ''releases'', Lit ''upload'']) (requireWorkerHost h (requireAdminAuth h (handleReleaseUpload h))),
     handle_func ''PUT'' (api [Lit ''releases'', Lit ''upload'', Wildcard ''version'']) (requireWorkerHost h (requireAdminAuth h (handleReleaseUploadBinary h))),
     handle_func ''GET'' (api [Lit ''releases'', Lit ''latest'']) (requireWorkerHost h (handleReleaseLatest h)),
     handle_func ''GET'' (api [Lit ''releases'', Lit ''download'', Wildcard ''version'']) (requireWorkerHost h (handleReleaseDownload h)),
     handle_func ''POST'' (api [Lit ''hostname'', Lit ''assign'']) (requireWorkerHost h (requireEnrollmentAuth h handleAssignHostname)),
     handle_func ''POST'' (api [Lit ''workers'', Lit ''register'']) (requireWorkerHost h (handleWorkerRegister h)),
     handle_func ''POST'' (api [Lit ''workers'', Wildcard ''id'', Lit ''heartbeat'']) (requireWorkerHost h (requireWorkerAuth h handleWorkerHeartbeat)),
     handle_func ''PUT'' (api [Lit ''vms'', Wildcard ''id'', Lit ''state'']) (requireWorkerHost h (requireWorkerAuth h handleVMState))]"

section \<open>The multiplexer\<close>

text \<open>A pattern for GET also matches HEAD.\<close>

definition method_matches :: "string \<Rightarrow> string \<Rightarrow> bool" where
  "method_matches pattern method = (method = pattern \<or> pattern = ''GET'' \<and> method = ''HEAD'')"

definition path_value :: "string \<Rightarrow> (string \<times> string) list \<Rightarrow> string" where
  "path_value n vs = (case map_of vs n of None \<Rightarrow> [] | Some v \<Rightarrow> v)"

definition with_path_values :: "(string \<times> string) list \<Rightarrow> request \<Rightarrow> request" where
  "with_path_values vs r = r\<lparr>rq_path_id := path_value ''id'' vs, rq_path_version := path_value ''version'' vs\<rparr>"

definition mux_handler :: "route list \<Rightarrow> (request \<Rightarrow> response) option \<Rightarrow> request \<Rightarrow> server_prog" where
  "mux_handler rs root r =
     (let here = filter (\<lambda>rt. match_path (rt_pattern rt) (rq_segments r) \<noteq> None) rs
      in case List.find (\<lambda>rt. method_matches (rt_method rt) (rq_method r)) here of
           Some rt \<Rightarrow> rt_handler rt (with_path_values (the (match_path (rt_pattern rt) (rq_segments r))) r)
         | None \<Rightarrow> (case root of
             Some f \<Rightarrow> Done (f r)
           | None \<Rightarrow> if here = [] then Done httpNotFound else Done (RText 405 [] ''Method Not Allowed'')))"

text \<open>
  The server as \<^verbatim>\<open>main\<close> puts it together; \<open>sv_frontend\<close> are the files of the web interface, if there
  are any.
\<close>

record server =
  sv_handler :: handler
  sv_frontend :: "file_tree option"
  sv_file_lib :: file_lib

definition root_handler :: "server \<Rightarrow> (request \<Rightarrow> response) option" where
  "root_handler sv = map_option (\<lambda>tree. newStaticHandler (h_lib (sv_handler sv)) (sv_file_lib sv) tree
     (cfg_browser_public_host (h_config (sv_handler sv)))) (sv_frontend sv)"

text \<open>A request arrives with no identity attached.\<close>

definition serve :: "server \<Rightarrow> nat \<Rightarrow> (io_error + ws_message) list \<Rightarrow> request \<Rightarrow> server_prog" where
  "serve sv rounds reads r = mux_handler (registerRoutes (sv_handler sv) rounds reads) (root_handler sv)
     (r\<lparr>rq_worker := None, rq_member := None\<rparr>)"

subsection \<open>A request has one route\<close>

text \<open>The library picks the most specific pattern; here no two patterns of a method overlap.\<close>

fun overlap :: "segment list \<Rightarrow> segment list \<Rightarrow> bool" where
  "overlap [] [] = True"
| "overlap (Lit a # ps) (Lit b # qs) = (a = b \<and> overlap ps qs)"
| "overlap (Lit a # ps) (Wildcard n # qs) = overlap ps qs"
| "overlap (Wildcard n # ps) (Lit b # qs) = overlap ps qs"
| "overlap (Wildcard n # ps) (Wildcard m # qs) = overlap ps qs"
| "overlap _ _ = False"

lemma match_overlap: "match_path p xs \<noteq> None \<Longrightarrow> match_path q xs \<noteq> None \<Longrightarrow> overlap p q"
proof (induction p q arbitrary: xs rule: overlap.induct)
  case (2 a ps b qs)
  then show ?case by (cases xs) (auto split: if_splits)
next
  case (3 a ps n qs)
  then show ?case by (cases xs) (auto split: if_splits)
next
  case (4 n ps b qs)
  then show ?case by (cases xs) (auto split: if_splits)
next
  case (5 n ps m qs)
  then show ?case by (cases xs) (auto split: if_splits)
qed (case_tac xs; auto)+

lemma routes_disjoint:
  "sorted_wrt (\<lambda>a b. \<not> (rt_method a = rt_method b \<and> overlap (rt_pattern a) (rt_pattern b))) (registerRoutes h n reads)"
  by (simp add: registerRoutes_def handle_func_def api_def)

lemma route_unique:
  assumes "i < j" and "j < length (registerRoutes h n reads)"
    and "match_path (rt_pattern (registerRoutes h n reads ! i)) xs \<noteq> None"
    and "match_path (rt_pattern (registerRoutes h n reads ! j)) xs \<noteq> None"
  shows "\<not> (method_matches (rt_method (registerRoutes h n reads ! i)) m \<and>
    method_matches (rt_method (registerRoutes h n reads ! j)) m)"
proof
  assume "method_matches (rt_method (registerRoutes h n reads ! i)) m \<and>
    method_matches (rt_method (registerRoutes h n reads ! j)) m"
  moreover have "rt_method (registerRoutes h n reads ! i) \<noteq> rt_method (registerRoutes h n reads ! j)"
    using sorted_wrt_nth_less [OF routes_disjoint assms(1,2)] match_overlap [OF assms(3,4)] by blast
  ultimately have "rt_method (registerRoutes h n reads ! i) = ''HEAD'' \<or> rt_method (registerRoutes h n reads ! j) = ''HEAD''"
    by (auto simp: method_matches_def)
  moreover have "rt_method rt \<noteq> ''HEAD''" if "rt \<in> set (registerRoutes h n reads)" for rt
    using that by (auto simp: registerRoutes_def handle_func_def)
  moreover have "i < length (registerRoutes h n reads)" using assms(1,2) by simp
  ultimately show False using assms(2) nth_mem by blast
qed

end
