(* ===== verification/Server.thy ===== *)
theory Server
  imports Routes
begin

text \<open>
  The whole server: every request on every route is entitled to what it does to the database, and
  in every interleaving of requests with the work beside them the database is one that the
  operations of package \<^verbatim>\<open>db\<close> reach one after the other.
\<close>

section \<open>Every request is entitled to what it does\<close>

lemma authentic_path [simp]:
  "authentic h t (r\<lparr>rq_path_id := x, rq_path_version := y\<rparr>) p = authentic h t r p"
proof -
  have "access_token (r\<lparr>rq_path_id := x, rq_path_version := y\<rparr>) = access_token r"
    by (simp add: access_token_def Let_def)
  moreover have "decodeJSONBody register_fields zero_register (r\<lparr>rq_path_id := x, rq_path_version := y\<rparr>) =
      decodeJSONBody register_fields zero_register r"
    by (simp add: decodeJSONBody_def)
  ultimately show ?thesis by (cases p) (simp_all add: access_valid_def)
qed

lemma context_ok_member:
  "rq_worker r = None \<Longrightarrow> authentic h t r (AsMember (mb_id m)) \<Longrightarrow> context_ok h t r (r\<lparr>rq_member := Some m\<rparr>)"
  by (simp add: context_ok_def del: authentic.simps)

lemma context_ok_worker:
  "rq_member r = None \<Longrightarrow> authentic h t r (AsWorker (aw_id k)) \<Longrightarrow> context_ok h t r (r\<lparr>rq_worker := Some k\<rparr>)"
  by (simp add: context_ok_def del: authentic.simps)

lemma entitled_route:
  assumes "rt \<in> set (registerRoutes h n reads)" and "rq_member r = None" and "rq_worker r = None"
  shows "entitled h t r (rt_handler rt r)"
  using assms
  by (auto simp: registerRoutes_def handle_func_def handleReleaseMyWorkstation_def simp del: authentic.simps
      intro!: entitled_hosts entitled_requireAccessAuth entitled_requireAdminAuth entitled_requireEnrollmentAuth
        entitled_requireWorkerAuth entitled_readers entitled_workstation_handlers entitled_proxy_handlers
        entitled_handleBrowserTerminalWebSocket entitled_upload_handlers entitled_release_readers
        entitled_handleAssignHostname entitled_handleWorkerRegister entitled_handleWorkerHeartbeat
        entitled_handleVMState context_ok_member context_ok_worker)

lemma entitled_serve: "entitled (sv_handler sv) t r (serve sv n reads r)"
proof -
  let ?rs = "registerRoutes (sv_handler sv) n reads"
  let ?r = "r\<lparr>rq_worker := None, rq_member := None\<rparr>"
  have "authentic (sv_handler sv) t (with_path_values vs ?r) = authentic (sv_handler sv) t r" for vs
    by (simp add: with_path_values_def fun_eq_iff)
  then have "entitled (sv_handler sv) t r (rt_handler rt (with_path_values vs ?r))" if "rt \<in> set ?rs" for rt vs
    using entitled_route [OF that, of "with_path_values vs ?r" t] by (simp add: with_path_values_def)
  then show ?thesis
    by (auto simp: serve_def mux_handler_def Let_def find_Some_iff split: option.splits dest!: nth_mem)
qed

section \<open>Whose rows a request can touch\<close>

lemma filter_eq_mem: "filter P ys = filter P xs \<Longrightarrow> x \<in> set xs \<Longrightarrow> P x \<Longrightarrow> x \<in> set ys"
proof -
  assume eq: "filter P ys = filter P xs" and "x \<in> set xs" "P x"
  then have "x \<in> set (filter P xs)" by simp
  then have "x \<in> set (filter P ys)" unfolding eq .
  then show "x \<in> set ys" by simp
qed

lemma db_act_workstations:
  assumes "db_act p d d'" and "schema_ok d" and "row \<in> set (db_workstations d)"
  shows "row \<in> set (db_workstations d') \<or> p = AsMember (ws_member_id row) \<or> p = AsWorker (ws_worker_id row)"
  using assms(1)
proof cases
  case (act_claim collate server_now now uuid m pref r)
  then obtain w where "db_workstations d' = db_workstations d @ [w]"
    by (cases r) (auto elim!: claimWorkstation_InrE dest: insertWorkstation_Inr)
  then show ?thesis using assms(3) by simp
next
  case (act_ensure now m k x)
  then show ?thesis using filter_eq_mem [OF rewrites_row_others [OF ensure_rewrites [OF assms(2)]] assms(3)] by blast
next
  case (act_desire now m k des x)
  then show ?thesis using filter_eq_mem [OF rewrites_row_others [OF desire_rewrites] assms(3)] by blast
next
  case (act_report now k r)
  then show ?thesis using filter_eq_mem [OF report_others [OF assms(2)] assms(3)] by blast
qed (use assms(3) in \<open>auto simp: upsertMemberFromAccess_def touchWorkerTokenUsage_def updateHeartbeat_def
    upsertWorker_def issueWorkerToken_def assignHostname_def insertRelease_def Let_def
    split: if_splits option.splits sum.splits\<close>)

lemma db_act_releases: "db_act p d d' \<Longrightarrow> db_releases d' = db_releases d \<or> p = AsAdmin"
proof (induction rule: db_act.induct)
  case (act_claim collate server_now now uuid m pref d r d')
  then show ?case by (cases r) (auto elim!: claimWorkstation_InrE dest: insertWorkstation_Inr)
next
  case (act_ensure now m k d x d')
  then show ?case
    by (auto simp: ensureWorkstationRunningByIDForMember_def claimExistingWorkstation_def Let_def
        split: sum.splits if_splits option.splits)
next
  case (act_report now k r d d')
  then show ?case using report_cases [OF act_report] by auto
qed (auto simp: upsertMemberFromAccess_def touchWorkerTokenUsage_def updateHeartbeat_def
    upsertWorker_def issueWorkerToken_def assignHostname_def updateWorkstationDesiredPowerStateByID_def Let_def
    split: if_splits option.splits sum.splits)

lemma db_act_members:
  assumes "db_act p d d'" and "row \<in> set (db_members d)"
  shows "row \<in> set (db_members d') \<or> (\<exists>email. p = AsSubject (mb_access_sub row) email)"
  using assms(1)
proof cases
  case (act_claim collate server_now now uuid m pref r)
  then have "db_members d' = db_members d" by (cases r) (auto elim!: claimWorkstation_InrE dest: insertWorkstation_Inr)
  then show ?thesis using assms(2) by simp
next
  case (act_sign_in now uuid sub email m)
  then show ?thesis using assms(2)
    by (auto simp: upsertMemberFromAccess_def mbt.set_modify Let_def split: option.splits if_splits)
next
  case (act_ensure now m k x)
  then have "db_members d' = db_members d"
    by (auto simp: ensureWorkstationRunningByIDForMember_def claimExistingWorkstation_def Let_def
        split: sum.splits if_splits option.splits)
  then show ?thesis using assms(2) by simp
next
  case (act_report now k r)
  then have "db_members d' = db_members d" using report_cases [OF act_report(2)] by auto
  then show ?thesis using assms(2) by simp
qed (use assms(2) in \<open>auto simp: touchWorkerTokenUsage_def updateHeartbeat_def insertRelease_def
    upsertWorker_def issueWorkerToken_def assignHostname_def updateWorkstationDesiredPowerStateByID_def Let_def
    split: if_splits option.splits sum.splits\<close>)

text \<open>The rows a request has no credentials for.\<close>

definition foreign_workstations :: "handler \<Rightarrow> trust \<Rightarrow> request \<Rightarrow> db \<Rightarrow> workstation set" where
  "foreign_workstations h t r d = {row \<in> set (db_workstations d).
     \<not> authentic h t r (AsMember (ws_member_id row)) \<and> \<not> authentic h t r (AsWorker (ws_worker_id row))}"

definition foreign_members :: "handler \<Rightarrow> trust \<Rightarrow> request \<Rightarrow> db \<Rightarrow> member set" where
  "foreign_members h t r d = {row \<in> set (db_members d). \<nexists>email. authentic h t r (AsSubject (mb_access_sub row) email)}"

definition keeps_foreign :: "handler \<Rightarrow> trust \<Rightarrow> request \<Rightarrow> db \<Rightarrow> db \<Rightarrow> bool" where
  "keeps_foreign h t r d d' =
     (foreign_workstations h t r d \<subseteq> set (db_workstations d') \<and>
      foreign_members h t r d \<subseteq> set (db_members d') \<and>
      (authentic h t r AsAdmin \<or> db_releases d' = db_releases d))"

lemma db_act_keeps_foreign:
  assumes "db_act p d d'" and "schema_ok d" and "authentic h t r p"
  shows "keeps_foreign h t r d d'"
proof -
  have "foreign_workstations h t r d \<subseteq> set (db_workstations d')"
    using db_act_workstations [OF assms(1,2)] assms(3) unfolding foreign_workstations_def by blast
  moreover have "foreign_members h t r d \<subseteq> set (db_members d')"
  proof
    fix row
    assume "row \<in> foreign_members h t r d"
    then have row: "row \<in> set (db_members d)" "\<not> authentic h t r (AsSubject (mb_access_sub row) email)" for email
      by (simp_all add: foreign_members_def del: authentic.simps)
    from db_act_members [OF assms(1) row(1)] show "row \<in> set (db_members d')" using row(2) assms(3) by blast
  qed
  moreover have "authentic h t r AsAdmin \<or> db_releases d' = db_releases d"
    using db_act_releases [OF assms(1)] assms(3) by blast
  ultimately show ?thesis by (simp add: keeps_foreign_def)
qed

lemma keeps_foreign_refl [simp]: "keeps_foreign h t r d d"
  by (auto simp: keeps_foreign_def foreign_workstations_def foreign_members_def)

section \<open>The running server\<close>

text \<open>
  What runs beside the requests: the readers of a shell, its exit, its idle timer and the writers of
  its attachments, for whatever the shell and the browser do, and the rounds of the reaper.  They may
  start at any time, which includes the times at which the code starts them.
\<close>

definition goroutine_end :: server_prog where
  "goroutine_end = Done (RWebSocket None)"

definition proxy_reap :: "server_prog \<Rightarrow> server_prog" where
  "proxy_reap k = on_proxy (\<lambda>orc sm. (sm, ids_where (\<lambda>s. ps_state s = SessionPending \<and>
       or_now orc - ps_created_at s > pendingSessionMaxAge) sm))
     (\<lambda>ids. each proxy_close ids k)"

inductive server_start :: "server \<Rightarrow> server_prog \<Rightarrow> bool" for sv :: server where
  request: "server_start sv (serve sv rounds reads r)"
| shell: "server_start sv (streamOutput a outs goroutine_end)"
| exit: "server_start sv (waitForExit a err goroutine_end)"
| timer: "server_start sv (idle_timeout a goroutine_end)"
| writer: "server_start sv (attachment_writer rounds a x goroutine_end)"
| reaper: "server_start sv (proxy_reap goroutine_end)"

text \<open>A server starts with empty managers on a database that is empty or was left by an earlier run.\<close>

definition server_init :: "world \<Rightarrow> bool" where
  "server_init w = (reach db_init db_step (wd_db w) \<and> wd_proxy w = newSessionManager \<and>
     wd_terminals w = newTerminalSessionManager \<and> wd_keys w = [] \<and> wd_fetched_at w = None)"

definition server_db_reachable :: "world \<Rightarrow> bool" where
  "server_db_reachable w = reach db_init db_step (wd_db w)"

text \<open>The run of a server: any programs of its stock, in any interleaving, with any answers from outside.\<close>

abbreviation server_run :: "server \<Rightarrow> world \<times> server_prog list \<Rightarrow> bool" where
  "server_run sv \<equiv> reach (idle server_init) (interleave (\<lambda>_. True) (server_start sv))"

definition trust_all :: trust where
  "trust_all = \<lparr>tr_key = \<lambda>_. True, tr_member = \<lambda>_ _. True, tr_worker = \<lambda>_ _. True\<rparr>"

lemma tr_key_all [simp]: "tr_key trust_all = (\<lambda>_. True)"
  by (simp add: trust_all_def)

lemma relies_all: "server_db_reachable w \<Longrightarrow> relies lb trust_all orc w"
  using dbs.reach_invar by (auto simp: server_db_reachable_def relies_def trust_all_def trusted_keys_def list_all_iff)

lemma conforms_server_start:
  assumes "server_start sv p"
  shows "conforms (\<lambda>orc w. True \<and> server_db_reachable w) (guar (\<lambda>_. True) (\<lambda>_. True)) (\<lambda>_. True) p"
  using assms
proof cases
  case (request rounds reads r)
  have "conforms (relies (h_lib (sv_handler sv)) trust_all) (guar (authentic (sv_handler sv) trust_all r) (tr_key trust_all)) (\<lambda>_. True) p"
    unfolding request by (rule entitled_serve)
  then show ?thesis
    by (rule conforms_mono) (auto simp: relies_all intro: guar_mono)
next
  case reaper
  then show ?thesis
    by (auto simp: proxy_reap_def goroutine_end_def intro!: conforms_on_proxy conforms_each conforms_proxy_close)
qed (auto simp: goroutine_end_def intro!: conforms_shell conforms_attachment_writer)

interpretation srv: concurrent_system server_init "\<lambda>_. True" "server_start sv" server_db_reachable
  "guar (\<lambda>_. True) (\<lambda>_. True)" for sv
proof
  show "server_db_reachable w" if "server_init w" for w
    using that by (simp add: server_init_def server_db_reachable_def)
  show "conforms (\<lambda>orc w. True \<and> server_db_reachable w) (guar (\<lambda>_. True) (\<lambda>_. True)) (\<lambda>_. True) p"
    if "server_start sv p" for sv p
    using that by (rule conforms_server_start)
  show "server_db_reachable w'" if "server_db_reachable w" "guar (\<lambda>_. True) (\<lambda>_. True) orc w w'" for orc w w'
    using that db_act_step unfolding server_db_reachable_def guar_def by (metis reach.intros(2))
qed

end
