(* ===== verification/Registration.thy ===== *)
theory Registration
  imports Server
begin

text \<open>
  Enrolment from end to end: the body a worker sends, the route it takes, the row and the token it
  leads to, and the next request with that token.
\<close>

section \<open>The body\<close>

definition register_json :: "worker_register_request \<Rightarrow> json" where
  "register_json q = JObj
     [(''hostname'', JStr (wr_hostname q)), (''hardware_uuid'', JStr (wr_hardware_uuid q)),
      (''cpu_cores'', JNum (show_int (wr_cpu_cores q))), (''memory_bytes'', JNum (show_int (wr_memory_bytes q))),
      (''tart_version'', JStr (wr_tart_version q)), (''worker_version'', JStr (wr_worker_version q)),
      (''worker_token'', JStr (wr_worker_token q))]"

definition int64_ok :: "int \<Rightarrow> bool" where
  "int64_ok i = (- (2 ^ 63) \<le> i \<and> i < 2 ^ 63)"

lemma int_field_show: "int64_ok i \<Longrightarrow> int_field put (JNum (show_int i)) q = Some (put i q)"
  by (simp add: int_field_def int64_ok_def show_int_atoi)

lemma decode_register_json:
  assumes "int64_ok (wr_cpu_cores q)" and "int64_ok (wr_memory_bytes q)"
  shows "decode_struct True register_fields (register_json q) zero_register = Some q"
  using assms
  by (simp add: decode_struct_def register_json_def register_fields_def find_field_def int_field_show zero_register_def)

lemma decode_register_body:
  assumes "int64_ok (wr_cpu_cores q)" and "int64_ok (wr_memory_bytes q)" and "rq_body r = print_json (register_json q)"
    and "length (rq_body r) \<le> maxJSONBodyBytes"
  shows "decodeJSONBody register_fields zero_register r = Some q"
proof -
  have "json_ok (register_json q)" by (auto simp: register_json_def)
  from decodeJSONBody_print [OF this assms(3), of register_fields zero_register] assms
  show ?thesis by (simp add: decode_register_json)
qed

section \<open>The route\<close>

lemma serve_register:
  assumes "rq_method r = ''POST''" and "rq_segments r = [''api'', ''v1'', ''workers'', ''register'']"
  shows "serve sv n reads r = requireWorkerHost (sv_handler sv) (handleWorkerRegister (sv_handler sv))
    (with_path_values [] (r\<lparr>rq_worker := None, rq_member := None\<rparr>))"
  using assms
  by (simp add: serve_def mux_handler_def registerRoutes_def handle_func_def api_def method_matches_def)

lemma matchesWorkerHost_context [simp]:
  "matchesWorkerHost lb cfg (with_path_values vs (r\<lparr>rq_worker := x, rq_member := y\<rparr>)) = matchesWorkerHost lb cfg r"
  by (simp add: matchesWorkerHost_def requestHost_def with_path_values_def Let_def)

lemma decodeJSONBody_path [simp]:
  "decodeJSONBody fs z (with_path_values vs r) = decodeJSONBody fs z r"
  by (simp add: decodeJSONBody_def with_path_values_def)

section \<open>Enrolment\<close>

lemma query_row_snoc: "\<forall>x \<in> set t. \<not> P x \<Longrightarrow> query_row P (t @ [y]) = (if P y then Some y else None)"
  by (induction t) (auto simp: query_row_def)

lemma new_worker_authenticates:
  assumes "schema_ok d" and "wk_id row \<notin> wk_id ` set (db_workers d)" and "wk_auth_token_hash row = None"
    and "\<forall>k \<in> set (db_workers d). wk_auth_token_hash k \<noteq> Some (hashWorkerToken tok)"
    and "generateWorkerToken rnd = Inr tok"
  shows "\<exists>d' row'. issueWorkerToken now rnd (wk_id row) (d\<lparr>db_workers := db_workers d @ [row]\<rparr>) = Inr (tok, d') \<and>
    authenticateWorkerToken tok d' = Inr row' \<and> wk_id row' = wk_id row \<and> wk_hostname row' = wk_hostname row \<and>
    wk_hardware_uuid row' = wk_hardware_uuid row"
proof -
  let ?row = "row\<lparr>wk_auth_token_hash := Some (hashWorkerToken tok), wk_auth_token_last_used_at := Some now,
      wk_auth_token_revoked_at := None\<rparr>"
  have "set_worker (wk_id row) (\<lambda>r. r\<lparr>wk_auth_token_hash := Some (hashWorkerToken tok),
      wk_auth_token_last_used_at := Some now, wk_auth_token_revoked_at := None\<rparr>) (db_workers d @ [row]) = db_workers d @ [?row]"
    using assms(2) by (auto simp: set_worker_def update_where_def intro!: map_idI) (metis imageI)
  moreover have "query_row (\<lambda>w. wk_auth_token_hash w = Some (hashWorkerToken tok) \<and> wk_auth_token_revoked_at w = None)
      (db_workers d @ [?row]) = Some ?row"
    using assms(4) by (subst query_row_snoc) auto
  ultimately show ?thesis using assms(5) by (simp add: issueWorkerToken_def authenticateWorkerToken_def)
qed

text \<open>
  C34: A machine the server has not seen enrols in one request: a registration for the worker host with
  the enrolment token, sent as JSON, answers with the identity derived from its hardware, the
  configured pool and a token, and that token authenticates as exactly this worker, under the
  host name and hardware the body named.  The body may hold any text; its numbers are those of
  Go's integers and the processor count fits the column.
\<close>

theorem registration_end_to_end:
  assumes "rq_method r = ''POST''" and "rq_segments r = [''api'', ''v1'', ''workers'', ''register'']"
    and "matchesWorkerHost (h_lib (sv_handler sv)) (h_config (sv_handler sv)) r"
    and "rq_body r = print_json (register_json q)" and "length (rq_body r) \<le> maxJSONBodyBytes"
    and "wr_hostname q \<noteq> []" and "wr_hardware_uuid q \<noteq> []" and "wr_worker_token q \<noteq> []"
    and "wr_worker_token q = enrollmentToken (h_config (sv_handler sv))"
    and "int4_ok (wr_cpu_cores q)" and "int64_ok (wr_memory_bytes q)" and "int4_ok (cfg_pool_size (h_config (sv_handler sv)))"
    and "schema_ok (wd_db w)" and "wr_hardware_uuid q \<notin> wk_hardware_uuid ` set (db_workers (wd_db w))"
    and "generateWorkerID (wr_hardware_uuid q) \<notin> wk_id ` set (db_workers (wd_db w))"
    and "ids_where (\<lambda>s. ps_worker_id s = generateWorkerID (wr_hardware_uuid q)) (wd_proxy w) = []"
    and "generateWorkerToken (Some (or_rnd e4)) = Inr tok"
    and "\<forall>k \<in> set (db_workers (wd_db w)). wk_auth_token_hash k \<noteq> Some (hashWorkerToken tok)"
    and "or_fault e1 = NoFault" and "or_fault e2 = NoFault" and "or_fault e4 = NoFault" and "or_rnd_ok e4"
  shows "\<exists>w' row. exec [e1, e2, e3, e4] w (serve sv n reads r) =
      (w', Done (writeJSON 200 (PRegistered (generateWorkerID (wr_hardware_uuid q))
         (cfg_pool_size (h_config (sv_handler sv))) (cfg_base_image (h_config (sv_handler sv))) (Some tok)))) \<and>
    authenticateWorkerToken tok (wd_db w') = Inr row \<and> wk_id row = generateWorkerID (wr_hardware_uuid q) \<and>
    wk_hostname row = wr_hostname q \<and> wk_hardware_uuid row = wr_hardware_uuid q"
proof -
  let ?h = "sv_handler sv"
  let ?row = "(register_row ?h q)\<lparr>wk_status := WorkerStatusActive, wk_registered_at := or_db_now e2,
      wk_last_heartbeat := None, wk_auth_token_hash := None, wk_auth_token_last_used_at := None,
      wk_auth_token_revoked_at := None\<rparr>"
  let ?d = "(wd_db w)\<lparr>db_workers := db_workers (wd_db w) @ [?row]\<rparr>"
  have "int64_ok (wr_cpu_cores q)" using assms(10) by (auto simp: int4_ok_def int64_ok_def)
  from decode_register_body [OF this assms(11,4,5)]
  have body: "decodeJSONBody register_fields zero_register r = Some q" .
  have unknown: "getWorkerByHardwareUUID (wr_hardware_uuid q) (wd_db w) = Inl ErrNoRows"
    using assms(14) by (auto simp: getWorkerByHardwareUUID_def query_row_def find_Some_iff split: option.splits)
      (metis nth_mem imageI)
  have up: "upsertWorker (or_db_now e2) (register_row ?h q) (wd_db w) = Inr ?d"
    using assms(10,12,14,15) wkt.lookup_None [of "generateWorkerID (wr_hardware_uuid q)" "db_workers (wd_db w)"]
    by (simp add: upsertWorker_def register_row_def)
  have "wk_id ?row = generateWorkerID (wr_hardware_uuid q)" by (simp add: register_row_def)
  with new_worker_authenticates [of "wd_db w" ?row tok "Some (or_rnd e4)" "or_db_now e4"] assms(13,15,17,18)
  obtain d' row where "issueWorkerToken (or_db_now e4) (Some (or_rnd e4)) (generateWorkerID (wr_hardware_uuid q)) ?d = Inr (tok, d')"
    and "authenticateWorkerToken tok d' = Inr row" "wk_id row = generateWorkerID (wr_hardware_uuid q)"
    "wk_hostname row = wr_hostname q" "wk_hardware_uuid row = wr_hardware_uuid q"
    by (auto simp: register_row_def)
  then show ?thesis
    using assms(3,6-9,16,19-) body unknown up
    by (simp add: serve_register [OF assms(1,2)] requireWorkerHost_def handleWorkerRegister_def Let_def
        shouldIssueWorkerToken_def isNotFound_def proxy_close_where_def)
qed

definition sample_server :: server where
  "sample_server = \<lparr>sv_handler = sample_handler, sv_frontend = Some sample_tree, sv_file_lib = sample_file_lib\<rparr>"

definition sample_registration :: worker_register_request where
  "sample_registration = \<lparr>wr_hostname = ''mac-1'', wr_hardware_uuid = ''U1'', wr_cpu_cores = 8, wr_memory_bytes = 16,
     wr_tart_version = ''2.0'', wr_worker_version = ''1.0'', wr_worker_token = ''enr''\<rparr>"

definition fresh_world :: world where
  "fresh_world = sample_world\<lparr>wd_db := empty_db\<rparr>"

theorem registration_end_to_end_witness:
  "\<exists>w' row. exec [sample_env, sample_env, sample_env, sample_env] fresh_world (serve sample_server 2 []
       (sample_request\<lparr>rq_method := ''POST'', rq_segments := [''api'', ''v1'', ''workers'', ''register''],
          rq_body := print_json (register_json sample_registration)\<rparr>)) =
     (w', Done (writeJSON 200 (PRegistered (generateWorkerID ''U1'') 2 ''base'' (Some ''wkt_72'')))) \<and>
   authenticateWorkerToken ''wkt_72'' (wd_db w') = Inr row \<and> wk_id row = generateWorkerID ''U1'' \<and>
   wk_hostname row = ''mac-1'' \<and> wk_hardware_uuid row = ''U1''"
proof -
  let ?r = "sample_request\<lparr>rq_method := ''POST'', rq_segments := [''api'', ''v1'', ''workers'', ''register''],
          rq_body := print_json (register_json sample_registration)\<rparr>"
  have q: "wr_hostname sample_registration = ''mac-1''" "wr_hardware_uuid sample_registration = ''U1''"
    "wr_worker_token sample_registration = ''enr''" "wr_cpu_cores sample_registration = 8"
    "wr_memory_bytes sample_registration = 16"
    by (simp_all add: sample_registration_def)
  have c: "cfg_pool_size (h_config (sv_handler sample_server)) = 2" "cfg_base_image (h_config (sv_handler sample_server)) = ''base''"
    by (simp_all add: sample_server_def sample_handler_def sample_config_def)
  have "enrollmentToken sample_config = ''enr''" by code_simp
  then have enr: "enrollmentToken (h_config (sv_handler sample_server)) = ''enr''"
    by (simp add: sample_server_def sample_handler_def)
  have "length (print_json (register_json sample_registration)) \<le> 200" by code_simp
  then have len: "length (rq_body ?r) \<le> maxJSONBodyBytes" by (simp add: maxJSONBodyBytes_def)
  have host: "matchesWorkerHost (h_lib (sv_handler sample_server)) (h_config (sv_handler sample_server)) ?r"
    by (simp add: matchesWorkerHost_def hostMatches_def sample_server_def sample_handler_def sample_config_def)
  have e: "generateWorkerToken (Some (or_rnd sample_env)) = Inr ''wkt_72''" by code_simp
  have w: "schema_ok (wd_db fresh_world)" "db_workers (wd_db fresh_world) = []"
    "ids_where P (wd_proxy fresh_world) = []" for P
    by (simp add: fresh_world_def, simp add: fresh_world_def empty_db_def,
        simp add: fresh_world_def sample_world_def newSessionManager_def ids_where_def)
  show ?thesis
    using registration_end_to_end [where q = sample_registration and ?e1.0 = sample_env and ?e2.0 = sample_env
        and ?e3.0 = sample_env and n = 2 and reads = "[]", OF _ _ host _ len _ _ _ _ _ _ _ w(1) _ _ w(3) e] q c enr w(2)
    by (simp add: sample_env_def int4_ok_def int64_ok_def)
qed

end
