(* ===== verification/Main_Server.thy ===== *)
theory Main_Server
  imports Server
begin

text \<open>
  The configuration (\<^verbatim>\<open>config/config.go\<close>) and how \<^verbatim>\<open>cmd/minicontrol-server/main.go\<close> makes a server of it.
  Parsing YAML, the file system and the connection to the database are parameters.
\<close>

section \<open>Configuration\<close>

record config =
  cf_http_addr :: string
  cf_database_url :: string
  cf_tls_cert_file :: string
  cf_tls_key_file :: string
  cf_default_pool_size :: int
  cf_default_base_image :: string
  cf_admin_token :: string
  cf_enrollment_token :: string
  cf_worker_public_host :: string
  cf_browser_public_host :: string
  cf_access_team_domain :: string
  cf_access_aud :: string
  cf_access_issuer_url :: string
  cf_access_jwks_url :: string
  cf_access_allowed_email_domain :: string
  cf_required_signing_identity :: string
  cf_binary_storage_path :: string

definition defaultConfig :: config where
  "defaultConfig = \<lparr>cf_http_addr = '':8080'',
     cf_database_url = ''postgres://localhost:5432/minicontrol?sslmode=disable'',
     cf_tls_cert_file = [], cf_tls_key_file = [], cf_default_pool_size = 2,
     cf_default_base_image = ''minictl-tahoe-base'', cf_admin_token = [], cf_enrollment_token = [],
     cf_worker_public_host = [], cf_browser_public_host = [], cf_access_team_domain = [], cf_access_aud = [],
     cf_access_issuer_url = [], cf_access_jwks_url = [], cf_access_allowed_email_domain = [],
     cf_required_signing_identity = [], cf_binary_storage_path = ''./releases''\<rparr>"

text \<open>
  What the outside gives a starting server: the files it can read, the directories it can list, what
  YAML text does to a configuration, whether the database can be reached and set up, whether a
  directory can be made, the working directory, and the libraries.
\<close>

record host_env =
  he_read_file :: "string \<Rightarrow> string option"
  he_directory :: "string \<Rightarrow> file_tree option"
  he_yaml :: "string \<Rightarrow> config \<Rightarrow> config option"
  he_database :: "string \<Rightarrow> bool"
  he_mkdir :: "string \<Rightarrow> bool"
  he_cwd :: string
  he_lib :: lib
  he_macho :: macho_lib
  he_file_lib :: file_lib

definition load_config :: "host_env \<Rightarrow> string \<Rightarrow> config option" where
  "load_config he path = (case he_read_file he path of
     None \<Rightarrow> None
   | Some text \<Rightarrow> he_yaml he text defaultConfig)"

section \<open>Starting\<close>

definition tls_enabled :: "config \<Rightarrow> bool" where
  "tls_enabled cfg = (cf_tls_cert_file cfg \<noteq> [] \<and> cf_tls_key_file cfg \<noteq> [])"

definition handler_config_of :: "config \<Rightarrow> handler_config" where
  "handler_config_of cfg = \<lparr>cfg_admin_token = cf_admin_token cfg, cfg_enrollment_token = cf_enrollment_token cfg,
     cfg_pool_size = cf_default_pool_size cfg, cfg_base_image = cf_default_base_image cfg,
     cfg_http_addr = cf_http_addr cfg, cfg_tls_enabled = tls_enabled cfg,
     cfg_worker_public_host = cf_worker_public_host cfg, cfg_browser_public_host = cf_browser_public_host cfg,
     cfg_access_team_domain = cf_access_team_domain cfg, cfg_access_aud = cf_access_aud cfg,
     cfg_access_issuer_url = cf_access_issuer_url cfg, cfg_access_jwks_url = cf_access_jwks_url cfg,
     cfg_access_allowed_email_domain = cf_access_allowed_email_domain cfg\<rparr>"

fun first_file :: "host_env \<Rightarrow> string list \<Rightarrow> string" where
  "first_file he [] = []"
| "first_file he (p # ps) = (case he_read_file he p of Some text \<Rightarrow> text | None \<Rightarrow> first_file he ps)"

fun first_directory :: "host_env \<Rightarrow> string list \<Rightarrow> file_tree option" where
  "first_directory he [] = None"
| "first_directory he (p # ps) = (case he_directory he p of
     Some tree \<Rightarrow> Some tree
   | None \<Rightarrow> (case he_directory he (path_abs (he_cwd he) p) of
       Some tree \<Rightarrow> Some tree
     | None \<Rightarrow> first_directory he ps))"

definition findFrontendAssets :: "host_env \<Rightarrow> file_tree option" where
  "findFrontendAssets he = first_directory he [''/var/lib/minicontrol/frontend'', ''../frontend/dist'', ''frontend/dist'']"

definition release_store :: "host_env \<Rightarrow> config \<Rightarrow> string + store option" where
  "release_store he cfg =
     (if cf_binary_storage_path cfg = [] then Inr None
      else map_sum id Some (newStore (he_cwd he) (he_mkdir he (cf_binary_storage_path cfg))
        (cf_binary_storage_path cfg) (cf_required_signing_identity cfg)))"

text \<open>The server, or what it exits with before it listens.\<close>

definition main_server :: "host_env \<Rightarrow> string \<Rightarrow> string + server" where
  "main_server he configPath = (case load_config he configPath of
     None \<Rightarrow> Inl ''load config''
   | Some cfg \<Rightarrow>
      if \<not> he_database he (cf_database_url cfg) then Inl ''connect to database''
      else (case release_store he cfg of
          Inl e \<Rightarrow> Inl ''init release store''
        | Inr releases \<Rightarrow>
            (let installScript = first_file he [''/etc/minicontrol/install.sh'', ''install/setup-host.sh'']
             in case newHandler (he_lib he) (he_macho he) (he_cwd he) installScript releases (handler_config_of cfg) of
                  Inl e \<Rightarrow> Inl ''init rest handler''
                | Inr h \<Rightarrow> Inr \<lparr>sv_handler = h, sv_frontend = findFrontendAssets he, sv_file_lib = he_file_lib he\<rparr>)))"

section \<open>What a started server has\<close>

lemma main_server_config:
  "main_server he path = Inr sv \<Longrightarrow> \<exists>cfg. load_config he path = Some cfg \<and> h_config (sv_handler sv) = handler_config_of cfg"
  by (auto simp: main_server_def newHandler_def Let_def split: option.splits if_splits sum.splits)

text \<open>Without an admin token no request is an administrator's, and without an enrolment token none enrols.\<close>

lemma unset_tokens_lock:
  assumes "main_server he path = Inr sv" and "load_config he path = Some cfg"
  shows "cf_admin_token cfg = [] \<Longrightarrow> \<not> authentic (sv_handler sv) t r AsAdmin"
    and "cf_enrollment_token cfg = [] \<Longrightarrow> \<not> authentic (sv_handler sv) t r AsEnrollment"
  using main_server_config [OF assms(1)] assms(2)
  by (auto simp: handler_config_of_def adminToken_def enrollmentToken_def)

end
