(* ===== verification/Tart.thy ===== *)
theory Tart
  imports Json "HOL-Library.AList"
begin

text \<open>
  How the agent on a worker drives virtual machines: \<^verbatim>\<open>TartDriver.swift\<close> and \<^verbatim>\<open>ProcessRunner.swift\<close> of
  \<^verbatim>\<open>worker/Sources/WorkerCore\<close>.  The program \<^verbatim>\<open>tart\<close>, the file system and the clock belong to the
  machine; they are the operations of record \<open>host_ops\<close> on a state \<open>'h\<close> of the machine that this
  development does not look into.
\<close>

section \<open>The machine\<close>

record process_result =
  px_status :: int
  px_stdout :: string
  px_stderr :: string

text \<open>
  \<open>run_process\<close> runs a command to its end (\<open>Inl\<close>: it could not be started) and \<open>spawn_process\<close> starts one and
  leaves it running; \<open>http_call\<close> sends a request and gives the status and the body of the answer, or an
  error text; \<open>url_components\<close> gives the host and the port of an address.  \<open>write_text\<close> writes a file only its
  owner may read.  \<open>read_json\<close> and \<open>write_json\<close> access a file of JSON text by the value it holds; reading gives
  an error text when there is no such file or it is no JSON.  \<open>poll_rounds\<close> is how often a loop that
  sleeps two seconds per round gets to run within a number of seconds, and \<open>host_clock\<close> is the time.
\<close>

record http_request =
  hq_base :: string
  hq_method :: string
  hq_path :: string
  hq_token :: string
  hq_body :: "json option"

record 'h host_ops =
  run_process :: "string list \<Rightarrow> 'h \<Rightarrow> (string + process_result) \<times> 'h"
  spawn_process :: "string list \<Rightarrow> 'h \<Rightarrow> string option \<times> 'h"
  read_json :: "string \<Rightarrow> 'h \<Rightarrow> string + json"
  write_json :: "string \<Rightarrow> json \<Rightarrow> 'h \<Rightarrow> string option \<times> 'h"
  write_text :: "string \<Rightarrow> string \<Rightarrow> 'h \<Rightarrow> string option \<times> 'h"
  http_call :: "http_request \<Rightarrow> 'h \<Rightarrow> (string + nat \<times> string) \<times> 'h"
  url_components :: "string \<Rightarrow> (string \<times> int option) option"
  poll_rounds :: "nat \<Rightarrow> 'h \<Rightarrow> nat"
  host_clock :: "'h \<Rightarrow> int"
  home_directory :: string
  physical_cores :: int
  total_disk_gib :: int

text \<open>What a method throws; an error of the system libraries is its description.\<close>

datatype swift_error =
    CommandFailed "string list" int string
  | IpTimeout string "swift_error option"
  | InvalidFormat
  | SystemError string

definition join_with :: "string \<Rightarrow> string list \<Rightarrow> string" where
  "join_with sep ss = (case ss of [] \<Rightarrow> [] | x # xs \<Rightarrow> x @ concat (map (\<lambda>y. sep @ y) xs))"

fun describe_error :: "swift_error \<Rightarrow> string" where
  "describe_error (CommandFailed args status err) =
     ''tart command failed ('' @ join_with '' '' args @ ''): exit '' @ show_int status @ '' - '' @ err"
| "describe_error (IpTimeout name _) = ''timeout waiting for IP of VM '' @ [CHR 0x27] @ name @ [CHR 0x27]"
| "describe_error InvalidFormat = ''invalidFormat''"
| "describe_error (SystemError e) = e"

definition outputContains :: "swift_error \<Rightarrow> string \<Rightarrow> bool" where
  "outputContains e needle = (case e of
     CommandFailed _ _ err \<Rightarrow> contains (toLower err) (toLower needle)
   | _ \<Rightarrow> False)"

text \<open>A throwing method: it changes the machine and returns or throws.\<close>

type_synonym ('h, 'a) io = "'h \<Rightarrow> (swift_error + 'a) \<times> 'h"

definition bind_io :: "('h, 'a) io \<Rightarrow> ('a \<Rightarrow> ('h, 'b) io) \<Rightarrow> ('h, 'b) io" where
  "bind_io m k = (\<lambda>h. case m h of (Inl e, h') \<Rightarrow> (Inl e, h') | (Inr x, h') \<Rightarrow> k x h')"

definition return_io :: "'a \<Rightarrow> ('h, 'a) io" where
  "return_io x = (\<lambda>h. (Inr x, h))"

section \<open>Commands\<close>

definition tart_exec :: "'h host_ops \<Rightarrow> string list \<Rightarrow> ('h, string) io" where
  "tart_exec H args = (\<lambda>h. case run_process H args h of
     (Inl e, h') \<Rightarrow> (Inl (SystemError e), h')
   | (Inr r, h') \<Rightarrow>
       if px_status r \<noteq> 0 then (Inl (CommandFailed args (px_status r) (px_stderr r)), h')
       else (Inr (px_stdout r), h'))"

definition tart_clone :: "'h host_ops \<Rightarrow> string \<Rightarrow> string \<Rightarrow> ('h, string) io" where
  "tart_clone H source name = tart_exec H [''tart'', ''clone'', source, name]"

definition tart_stop :: "'h host_ops \<Rightarrow> string \<Rightarrow> ('h, string) io" where
  "tart_stop H name = tart_exec H [''tart'', ''stop'', name]"

definition tart_delete :: "'h host_ops \<Rightarrow> string \<Rightarrow> ('h, string) io" where
  "tart_delete H name = tart_exec H [''tart'', ''delete'', name]"

definition tart_start :: "'h host_ops \<Rightarrow> string \<Rightarrow> ('h, unit) io" where
  "tart_start H name = (\<lambda>h. case spawn_process H [''tart'', ''run'', name, ''--no-graphics''] h of
     (Some e, h') \<Rightarrow> (Inl (SystemError e), h')
   | (None, h') \<Rightarrow> (Inr (), h'))"

definition tart_exists :: "'h host_ops \<Rightarrow> string \<Rightarrow> 'h \<Rightarrow> bool \<times> 'h" where
  "tart_exists H name h = (case tart_exec H [''tart'', ''get'', name] h of
     (Inl _, h') \<Rightarrow> (False, h')
   | (Inr _, h') \<Rightarrow> (True, h'))"

definition stopIfRunning :: "'h host_ops \<Rightarrow> string \<Rightarrow> ('h, unit) io" where
  "stopIfRunning H name h = (case tart_stop H name h of
     (Inr _, h') \<Rightarrow> (Inr (), h')
   | (Inl e, h') \<Rightarrow>
       if outputContains e ''is not running'' \<or> outputContains e ''not running'' then (Inr (), h')
       else (Inl e, h'))"

definition deleteIfExists :: "'h host_ops \<Rightarrow> string \<Rightarrow> ('h, unit) io" where
  "deleteIfExists H name h = (case tart_exists H name h of
     (False, h') \<Rightarrow> (Inr (), h')
   | (True, h') \<Rightarrow> bind_io (tart_delete H name) (\<lambda>_. return_io ()) h')"

fun ip_loop :: "'h host_ops \<Rightarrow> string \<Rightarrow> nat \<Rightarrow> swift_error option \<Rightarrow> ('h, string) io" where
  "ip_loop H name 0 lastError h = (Inl (IpTimeout name lastError), h)"
| "ip_loop H name (Suc n) lastError h =
     (case tart_exec H [''tart'', ''ip'', name, ''--wait'', ''10''] h of
        (Inl e, h') \<Rightarrow> ip_loop H name n (Some e) h'
      | (Inr out, h') \<Rightarrow>
          if trimSpace out \<noteq> [] then (Inr (trimSpace out), h') else ip_loop H name n lastError h')"

definition tart_ip :: "'h host_ops \<Rightarrow> string \<Rightarrow> nat \<Rightarrow> ('h, string) io" where
  "tart_ip H name timeout h = ip_loop H name (poll_rounds H timeout h) None h"

section \<open>Resources of a machine\<close>

definition cloneProfileMemoryMiB :: int where
  "cloneProfileMemoryMiB = 6144"

definition cloneProfileMemoryBytes :: int where
  "cloneProfileMemoryBytes = cloneProfileMemoryMiB * 1024 * 1024"

definition reservedDiskGiB :: int where
  "reservedDiskGiB = 64"

text \<open>
  The quotients are of integers: Swift rounds a negative one towards zero, which the outer maximum
  turns into 1 as well.
\<close>

definition targetCPUCount :: "int \<Rightarrow> int \<Rightarrow> int" where
  "targetCPUCount physicalCoreCount vmCount = max 1 ((max 1 physicalCoreCount - 1) div max 1 vmCount)"

definition targetDiskSizeGiB :: "int \<Rightarrow> int \<Rightarrow> int" where
  "targetDiskSizeGiB totalDiskGiB vmCount = max 1 ((max 0 totalDiskGiB - reservedDiskGiB) div max 1 vmCount)"

definition configureArguments :: "string \<Rightarrow> int \<Rightarrow> int option \<Rightarrow> string list" where
  "configureArguments name cpuCount diskSizeGiB =
     [''tart'', ''set'', name, ''--cpu'', show_int (max 1 cpuCount), ''--memory'', show_int cloneProfileMemoryMiB,
      ''--display'', ''1920x1080''] @
     (case diskSizeGiB of None \<Rightarrow> [] | Some n \<Rightarrow> [''--disk-size'', show_int (max 1 n)])"

text \<open>Splitting at white space without empty pieces.\<close>

definition words_of :: "(char \<Rightarrow> bool) \<Rightarrow> string \<Rightarrow> string list" where
  "words_of sep s = (let (w, ws) = foldr (\<lambda>c (w, ws). if sep c then ([], if w = [] then ws else w # ws) else (c # w, ws)) s ([], [])
     in if w = [] then ws else w # ws)"

definition is_newline :: "char \<Rightarrow> bool" where
  "is_newline c = (c \<in> set [CHR 0x0A, CHR 0x0B, CHR 0x0C, CHR 0x0D])"

definition parseDiskSizeGiBFromList :: "string \<Rightarrow> string \<Rightarrow> int option" where
  "parseDiskSizeGiBFromList out name =
     (case List.find (\<lambda>parts. 4 \<le> length parts \<and> parts ! 0 = ''local'' \<and> parts ! 1 = name)
         (map (words_of is_space) (words_of is_newline out)) of
        None \<Rightarrow> None
      | Some parts \<Rightarrow> atoi (parts ! 2))"

definition localConfigURL :: "'h host_ops \<Rightarrow> string \<Rightarrow> string" where
  "localConfigURL H name = home_directory H @ ''/.tart/vms/'' @ name @ ''/config.json''"

text \<open>
  The size in a configuration file is a number of bytes, rounded up to GiB.  A literal stands for its
  exact value, which is the \<^verbatim>\<open>Double\<close> the code computes with for sizes below \<open>2 ^ 53\<close>.
\<close>

definition gib_ceiling :: "int \<Rightarrow> int \<Rightarrow> int" where
  "gib_ceiling num den = - ((- num) div (den * 2 ^ 30))"

definition literal_gib :: "string \<Rightarrow> int option" where
  "literal_gib l =
     (let (mant, ex, _) = cut (toLower l) ''e''; (whole, frac, _) = cut mant ''.'';
          digits = atoi (whole @ frac); e = (if ex = [] then Some 0 else atoi ex)
      in case (digits, e) of
           (Some m, Some e) \<Rightarrow>
             (let k = e - int (length frac)
              in Some (if 0 \<le> k then gib_ceiling (m * 10 ^ nat k) 1 else gib_ceiling m (10 ^ nat (- k))))
         | _ \<Rightarrow> None)"

definition numericGiB :: "json option \<Rightarrow> int option" where
  "numericGiB v = (case v of
     Some (JNum l) \<Rightarrow> literal_gib l
   | Some (JBool b) \<Rightarrow> Some (gib_ceiling (if b then 1 else 0) 1)
   | _ \<Rightarrow> None)"

definition configDiskSizeKeys :: "string list" where
  "configDiskSizeKeys = [''diskSize'', ''diskSizeMin'', ''diskSizeBytes'', ''diskSizeMinBytes'']"

definition currentDiskSizeGiBFromConfig :: "'h host_ops \<Rightarrow> string \<Rightarrow> 'h \<Rightarrow> swift_error + int option" where
  "currentDiskSizeGiBFromConfig H name h = (case read_json H (localConfigURL H name) h of
     Inl e \<Rightarrow> Inl (SystemError e)
   | Inr (JObj kvs) \<Rightarrow>
       Inr (case List.find (\<lambda>v. v \<noteq> None) (map (\<lambda>k. numericGiB (map_of kvs k)) configDiskSizeKeys) of
              None \<Rightarrow> None | Some v \<Rightarrow> v)
   | Inr _ \<Rightarrow> Inl InvalidFormat)"

definition currentDiskSizeGiB :: "'h host_ops \<Rightarrow> string \<Rightarrow> ('h, int option) io" where
  "currentDiskSizeGiB H name h = (case currentDiskSizeGiBFromConfig H name h of
     Inr (Some n) \<Rightarrow> (Inr (Some n), h)
   | _ \<Rightarrow> bind_io (tart_exec H [''tart'', ''list'']) (\<lambda>out. return_io (parseDiskSizeGiBFromList out name)) h)"

definition applyingCloneProfile :: "int \<Rightarrow> json \<Rightarrow> swift_error + json" where
  "applyingCloneProfile cpuCount j = (case j of
     JObj kvs \<Rightarrow>
       (let cpu = JNum (show_int (max 1 cpuCount)); mem = JNum (show_int cloneProfileMemoryBytes);
            display = (case map_of kvs ''display'' of Some (JObj d) \<Rightarrow> d | _ \<Rightarrow> []);
            display' = AList.update ''height'' (JNum ''1080'') (AList.update ''width'' (JNum ''1920'') display)
        in Inr (JObj (AList.update ''display'' (JObj display') (AList.update ''memorySize'' mem
             (AList.update ''memorySizeMin'' mem (AList.update ''cpuCount'' cpu (AList.update ''cpuCountMin'' cpu kvs)))))))
   | _ \<Rightarrow> Inl InvalidFormat)"

definition updateLocalConfig :: "'h host_ops \<Rightarrow> string \<Rightarrow> int \<Rightarrow> ('h, unit) io" where
  "updateLocalConfig H name cpuCount h = (case read_json H (localConfigURL H name) h of
     Inl e \<Rightarrow> (Inl (SystemError e), h)
   | Inr j \<Rightarrow> (case applyingCloneProfile cpuCount j of
       Inl e \<Rightarrow> (Inl e, h)
     | Inr j' \<Rightarrow> (case write_json H (localConfigURL H name) j' h of
         (Some e, h') \<Rightarrow> (Inl (SystemError e), h')
       | (None, h') \<Rightarrow> (Inr (), h'))))"

definition tart_configure :: "'h host_ops \<Rightarrow> string \<Rightarrow> int \<Rightarrow> ('h, unit) io" where
  "tart_configure H name vmCount =
     (let cpuCount = targetCPUCount (physical_cores H) vmCount; diskSize = targetDiskSizeGiB (total_disk_gib H) vmCount
      in bind_io (currentDiskSizeGiB H name) (\<lambda>current.
           let argument = (case current of None \<Rightarrow> diskSize | Some n \<Rightarrow> max n diskSize);
               toSet = (if current = Some argument then None else Some argument)
           in bind_io (tart_exec H (configureArguments name cpuCount toSet)) (\<lambda>_. updateLocalConfig H name cpuCount)))"

end
