(* ===== verification/Agent.thy ===== *)
theory Agent
  imports Tart Model
begin

text \<open>
  The workstations of one worker as its agent sees them: \<^verbatim>\<open>WorkstationManager.swift\<close> and \<^verbatim>\<open>VMInfo.swift\<close> of
  \<^verbatim>\<open>worker/Sources/WorkerCore\<close>.  The two actors are records; the agent calls them from one loop, so
  that their methods run one after the other.  The dictionary of runtimes is an association list in
  some order; the properties hold for every order.
\<close>

section \<open>Data\<close>

datatype agent_vm_state = VStarting | VRunning | VStopping | VStopped | VDeleting | VDeleted | VError

fun raw_value :: "agent_vm_state \<Rightarrow> string" where
  "raw_value VStarting = ''starting''"
| "raw_value VRunning = ''running''"
| "raw_value VStopping = ''stopping''"
| "raw_value VStopped = ''stopped''"
| "raw_value VDeleting = ''deleting''"
| "raw_value VDeleted = ''deleted''"
| "raw_value VError = ''error''"

record desired_vm =
  dv_id :: string
  dv_vm_name :: string
  dv_slot :: int
  dv_desired :: string

record vm_info =
  vi_vm_id :: string
  vi_slot :: int
  vi_state :: agent_vm_state
  vi_ip_address :: "string option"
  vi_state_changed_at :: int
  vi_last_error :: "string option"

record worker_config =
  wc_server_address :: string
  wc_worker_token :: string
  wc_enrollment_token :: string
  wc_base_image :: string
  wc_pool_size :: int
  wc_ssh_username :: string
  wc_ssh_password :: string
  wc_http_port :: int
  wc_log_level :: string
  wc_use_https :: bool
  wc_tls_cert_fingerprint :: string
  wc_host_keychain_password :: string

text \<open>\<open>rt_process\<close>: the runtime holds the handle of a process it has started, running or not.\<close>

record runtime =
  rt_id :: string
  rt_vm_name :: string
  rt_slot :: int
  rt_desired :: string
  rt_state :: agent_vm_state
  rt_ip_address :: "string option"
  rt_state_changed_at :: int
  rt_process :: bool
  rt_last_error :: "string option"

section \<open>One workstation\<close>

definition new_runtime :: "'h host_ops \<Rightarrow> desired_vm \<Rightarrow> 'h \<Rightarrow> runtime" where
  "new_runtime H d h = \<lparr>rt_id = dv_id d, rt_vm_name = dv_vm_name d, rt_slot = dv_slot d, rt_desired = dv_desired d,
     rt_state = VStopped, rt_ip_address = None, rt_state_changed_at = host_clock H h, rt_process = False,
     rt_last_error = None\<rparr>"

definition apply_desired :: "desired_vm \<Rightarrow> runtime \<Rightarrow> runtime" where
  "apply_desired d rt = rt\<lparr>rt_desired := dv_desired d\<rparr>"

definition markForDeletion :: "runtime \<Rightarrow> runtime" where
  "markForDeletion rt = rt\<lparr>rt_desired := ''deleted''\<rparr>"

definition runtime_info :: "runtime \<Rightarrow> vm_info" where
  "runtime_info rt = \<lparr>vi_vm_id = rt_id rt, vi_slot = rt_slot rt, vi_state = rt_state rt, vi_ip_address = rt_ip_address rt,
     vi_state_changed_at = rt_state_changed_at rt, vi_last_error = rt_last_error rt\<rparr>"

definition setState :: "'h host_ops \<Rightarrow> agent_vm_state \<Rightarrow> string option \<Rightarrow> 'h \<Rightarrow> runtime \<Rightarrow> runtime" where
  "setState H newState err h rt = rt\<lparr>rt_state := newState, rt_state_changed_at := host_clock H h, rt_last_error := err\<rparr>"

definition currentIPAddress :: "'h host_ops \<Rightarrow> string \<Rightarrow> nat \<Rightarrow> 'h \<Rightarrow> string option \<times> 'h" where
  "currentIPAddress H vmName timeout h = (case tart_exists H vmName h of
     (False, h1) \<Rightarrow> (None, h1)
   | (True, h1) \<Rightarrow> (case tart_ip H vmName timeout h1 of
       (Inl _, h2) \<Rightarrow> (None, h2)
     | (Inr address, h2) \<Rightarrow> (if trimSpace address = [] then None else Some (trimSpace address), h2)))"

definition prepare_vm :: "'h host_ops \<Rightarrow> worker_config \<Rightarrow> string \<Rightarrow> ('h, unit) io" where
  "prepare_vm H cfg vmName h = (case tart_exists H vmName h of
     (True, h1) \<Rightarrow> (Inr (), h1)
   | (False, h1) \<Rightarrow> bind_io (tart_clone H (wc_base_image cfg) vmName)
       (\<lambda>_. tart_configure H vmName (wc_pool_size cfg)) h1)"

text \<open>Once started, the process stays recorded even when the address does not come.\<close>

definition boot_vm :: "'h host_ops \<Rightarrow> worker_config \<Rightarrow> runtime \<Rightarrow> 'h \<Rightarrow> runtime \<times> 'h" where
  "boot_vm H cfg rt h =
     (case bind_io (tart_configure H (rt_vm_name rt) (wc_pool_size cfg)) (\<lambda>_. tart_start H (rt_vm_name rt)) h of
        (Inl e, h1) \<Rightarrow> (setState H VError (Some (describe_error e)) h1 rt, h1)
      | (Inr _, h1) \<Rightarrow>
         (let rt1 = rt\<lparr>rt_process := True\<rparr>
          in case tart_ip H (rt_vm_name rt) 60 h1 of
               (Inl e, h2) \<Rightarrow> (setState H VError (Some (describe_error e)) h2 rt1, h2)
             | (Inr address, h2) \<Rightarrow> (setState H VRunning None h2 (rt1\<lparr>rt_ip_address := Some address\<rparr>), h2)))"

definition ensureRunning :: "'h host_ops \<Rightarrow> worker_config \<Rightarrow> runtime \<Rightarrow> 'h \<Rightarrow> runtime \<times> 'h" where
  "ensureRunning H cfg rt h =
     (let rt0 = setState H VStarting None h rt
      in case prepare_vm H cfg (rt_vm_name rt) h of
           (Inl e, h1) \<Rightarrow> (setState H VError (Some (describe_error e)) h1 rt0, h1)
         | (Inr _, h1) \<Rightarrow>
            (case currentIPAddress H (rt_vm_name rt) 5 h1 of
               (Some address, h2) \<Rightarrow> (setState H VRunning None h2 (rt0\<lparr>rt_ip_address := Some address\<rparr>), h2)
             | (None, h2) \<Rightarrow> if rt_process rt then (rt0, h2) else boot_vm H cfg rt0 h2))"

definition ensureStopped :: "'h host_ops \<Rightarrow> runtime \<Rightarrow> 'h \<Rightarrow> runtime \<times> 'h" where
  "ensureStopped H rt h =
     (let rt0 = setState H VStopping None h rt;
          finish = (\<lambda>h. (setState H VStopped None h (rt0\<lparr>rt_process := False, rt_ip_address := None\<rparr>), h))
      in case tart_exists H (rt_vm_name rt) h of
           (False, h1) \<Rightarrow> finish h1
         | (True, h1) \<Rightarrow> (case stopIfRunning H (rt_vm_name rt) h1 of
             (Inl e, h2) \<Rightarrow> (setState H VError (Some (describe_error e)) h2 rt0, h2)
           | (Inr _, h2) \<Rightarrow> finish h2))"

definition ensureDeleted :: "'h host_ops \<Rightarrow> runtime \<Rightarrow> 'h \<Rightarrow> runtime \<times> 'h" where
  "ensureDeleted H rt h =
     (let rt0 = setState H VDeleting None h rt;
          finish = (\<lambda>h. (setState H VDeleted None h (rt0\<lparr>rt_process := False, rt_ip_address := None\<rparr>), h))
      in case tart_exists H (rt_vm_name rt) h of
           (False, h1) \<Rightarrow> finish h1
         | (True, h1) \<Rightarrow>
            (case bind_io (stopIfRunning H (rt_vm_name rt)) (\<lambda>_. deleteIfExists H (rt_vm_name rt)) h1 of
               (Inl e, h2) \<Rightarrow> (setState H VError (Some (describe_error e)) h2 rt0, h2)
             | (Inr _, h2) \<Rightarrow> finish h2))"

definition runtime_reconcile :: "'h host_ops \<Rightarrow> worker_config \<Rightarrow> runtime \<Rightarrow> 'h \<Rightarrow> runtime \<times> 'h" where
  "runtime_reconcile H cfg rt h =
     (if rt_desired rt = ''running'' then ensureRunning H cfg rt h
      else if rt_desired rt = ''stopped'' then ensureStopped H rt h
      else if rt_desired rt = ''deleted'' then ensureDeleted H rt h
      else (setState H VError (Some (''unknown desired power state '' @ rt_desired rt)) h rt, h))"

section \<open>The manager\<close>

record manager =
  mg_runtimes :: "(string \<times> runtime) list"
  mg_desired_ids :: "string list"

definition newManager :: manager where
  "newManager = \<lparr>mg_runtimes = [], mg_desired_ids = []\<rparr>"

definition apply_one :: "'h host_ops \<Rightarrow> 'h \<Rightarrow> desired_vm \<Rightarrow> (string \<times> runtime) list \<Rightarrow> (string \<times> runtime) list" where
  "apply_one H h d rts = (case map_of rts (dv_id d) of
     Some rt \<Rightarrow> AList.update (dv_id d) (apply_desired d rt) rts
   | None \<Rightarrow> AList.update (dv_id d) (new_runtime H d h) rts)"

definition applyDesiredWorkstations ::
  "'h host_ops \<Rightarrow> desired_vm list \<Rightarrow> bool \<Rightarrow> 'h \<Rightarrow> manager \<Rightarrow> manager" where
  "applyDesiredWorkstations H desired authoritative h mg =
     (if \<not> authoritative then mg
      else let ids = map dv_id desired; rts = fold (apply_one H h) desired (mg_runtimes mg)
           in \<lparr>mg_runtimes = map (\<lambda>(i, rt). (i, if i \<in> set ids then rt else markForDeletion rt)) rts,
               mg_desired_ids = ids\<rparr>)"

fun reconcile_all ::
  "'h host_ops \<Rightarrow> worker_config \<Rightarrow> (string \<times> runtime) list \<Rightarrow> 'h \<Rightarrow> (string \<times> runtime) list \<times> 'h" where
  "reconcile_all H cfg [] h = ([], h)"
| "reconcile_all H cfg ((i, rt) # rts) h =
     (let (rt', h1) = runtime_reconcile H cfg rt h; (rts', h2) = reconcile_all H cfg rts h1
      in ((i, rt') # rts', h2))"

declare reconcile_all.simps(2) [simp del]

definition manager_reconcile :: "'h host_ops \<Rightarrow> worker_config \<Rightarrow> manager \<Rightarrow> 'h \<Rightarrow> manager \<times> 'h" where
  "manager_reconcile H cfg mg h =
     (let (rts, h') = reconcile_all H cfg (mg_runtimes mg) h
      in (mg\<lparr>mg_runtimes := filter (\<lambda>(i, rt). i \<in> set (mg_desired_ids mg) \<or> rt_state rt \<noteq> VDeleted) rts\<rparr>, h'))"

definition allVMInfo :: "manager \<Rightarrow> vm_info list" where
  "allVMInfo mg = map (\<lambda>(_, rt). runtime_info rt) (sort_key fst (mg_runtimes mg))"

definition findVM :: "manager \<Rightarrow> string \<Rightarrow> vm_info option" where
  "findVM mg vmID = map_option runtime_info (map_of (mg_runtimes mg) vmID)"

end
