(* ===== verification/AgentClient.thy ===== *)
theory AgentClient
  imports Agent
begin

text \<open>
  How the agent talks to the server: \<^verbatim>\<open>ControlAPIClient.swift\<close> and \<^verbatim>\<open>WorkerConfig+Network.swift\<close>.  A body is
  the JSON value the encoder is given; an answer is decoded from its text the way \<^verbatim>\<open>JSONDecoder\<close> does:
  keys it does not know are skipped, a missing key or a value of another type is an error, and a
  missing or null optional is \<open>None\<close>.
\<close>

section \<open>The address of the server\<close>

definition baseComponents :: "'h host_ops \<Rightarrow> worker_config \<Rightarrow> string \<Rightarrow> (string \<times> int option) option" where
  "baseComponents H cfg scheme =
     url_components H (if contains (wc_server_address cfg) ''://'' then wc_server_address cfg
       else scheme @ ''://'' @ wc_server_address cfg)"

definition httpBaseURL :: "'h host_ops \<Rightarrow> worker_config \<Rightarrow> string option" where
  "httpBaseURL H cfg =
     (let scheme = (if wc_use_https cfg then ''https'' else ''http'')
      in case baseComponents H cfg scheme of
           None \<Rightarrow> None
         | Some (host, port) \<Rightarrow>
             Some (scheme @ ''://'' @ host @ '':'' @
               show_int (if wc_http_port cfg > 0 then wc_http_port cfg else case port of None \<Rightarrow> 8080 | Some p \<Rightarrow> p)))"

section \<open>The client\<close>

record api_client =
  ac_server_address :: string
  ac_base_url :: "string option"
  ac_worker_id :: string
  ac_auth_token :: string
  ac_worker_version :: string

definition preferredAuthToken :: "worker_config \<Rightarrow> string" where
  "preferredAuthToken cfg = (if wc_worker_token cfg \<noteq> [] then wc_worker_token cfg else wc_enrollment_token cfg)"

definition newClient :: "'h host_ops \<Rightarrow> worker_config \<Rightarrow> string \<Rightarrow> api_client" where
  "newClient H cfg version = \<lparr>ac_server_address = wc_server_address cfg, ac_base_url = httpBaseURL H cfg,
     ac_worker_id = [], ac_auth_token = preferredAuthToken cfg, ac_worker_version = version\<rparr>"

definition client_request ::
  "'h host_ops \<Rightarrow> api_client \<Rightarrow> string \<Rightarrow> string \<Rightarrow> json option \<Rightarrow> ('h, nat \<times> string) io" where
  "client_request H c verb path body h = (case ac_base_url c of
     None \<Rightarrow> (Inl (SystemError (''Invalid server address: '' @ ac_server_address c)), h)
   | Some base \<Rightarrow>
      (case http_call H \<lparr>hq_base = base, hq_method = verb, hq_path = path, hq_token = ac_auth_token c, hq_body = body\<rparr> h of
         (Inl e, h') \<Rightarrow> (Inl (SystemError e), h')
       | (Inr reply, h') \<Rightarrow> (Inr reply, h')))"

section \<open>Decoding\<close>

definition get_string :: "(string \<times> json) list \<Rightarrow> string \<Rightarrow> string option" where
  "get_string kvs k = (case map_of kvs k of Some (JStr s) \<Rightarrow> Some s | _ \<Rightarrow> None)"

definition get_int :: "(string \<times> json) list \<Rightarrow> string \<Rightarrow> int option" where
  "get_int kvs k = (case map_of kvs k of Some (JNum l) \<Rightarrow> atoi l | _ \<Rightarrow> None)"

definition get_optional :: "(string \<times> json) list \<Rightarrow> string \<Rightarrow> string option option" where
  "get_optional kvs k = (case map_of kvs k of
     None \<Rightarrow> Some None | Some JNull \<Rightarrow> Some None | Some (JStr s) \<Rightarrow> Some (Some s) | _ \<Rightarrow> None)"

fun decode_all :: "(json \<Rightarrow> 'a option) \<Rightarrow> json list \<Rightarrow> 'a list option" where
  "decode_all f [] = Some []"
| "decode_all f (j # js) = (case (f j, decode_all f js) of (Some x, Some xs) \<Rightarrow> Some (x # xs) | _ \<Rightarrow> None)"

definition get_list :: "(json \<Rightarrow> 'a option) \<Rightarrow> (string \<times> json) list \<Rightarrow> string \<Rightarrow> 'a list option" where
  "get_list f kvs k = (case map_of kvs k of Some (JArr js) \<Rightarrow> decode_all f js | _ \<Rightarrow> None)"

section \<open>Registration\<close>

record registration_result =
  rr_worker_id :: string
  rr_pool_size :: int
  rr_base_image :: string
  rr_worker_token :: "string option"

definition decode_registration :: "json \<Rightarrow> registration_result option" where
  "decode_registration j = (case j of
     JObj kvs \<Rightarrow> (case (get_string kvs ''worker_id'', get_int kvs ''pool_size'', get_string kvs ''base_image'',
         get_optional kvs ''worker_token'') of
       (Some i, Some n, Some b, Some t) \<Rightarrow>
         Some \<lparr>rr_worker_id = i, rr_pool_size = n, rr_base_image = b, rr_worker_token = t\<rparr>
     | _ \<Rightarrow> None)
   | _ \<Rightarrow> None)"

definition register_body :: "api_client \<Rightarrow> string \<Rightarrow> string \<Rightarrow> int \<Rightarrow> int \<Rightarrow> string \<Rightarrow> json" where
  "register_body c host uuid cpuCores memoryBytes tartVersion = JObj
     [(''hostname'', JStr host), (''hardware_uuid'', JStr uuid), (''cpu_cores'', JNum (show_int cpuCores)),
      (''memory_bytes'', JNum (show_int memoryBytes)), (''tart_version'', JStr tartVersion),
      (''worker_version'', JStr (ac_worker_version c)), (''worker_token'', JStr (ac_auth_token c))]"

definition client_register ::
  "'h host_ops \<Rightarrow> api_client \<Rightarrow> string \<Rightarrow> string \<Rightarrow> int \<Rightarrow> int \<Rightarrow> string \<Rightarrow> ('h, registration_result \<times> api_client) io" where
  "client_register H c host uuid cpuCores memoryBytes tartVersion =
     bind_io (client_request H c ''POST'' ''/api/v1/workers/register''
         (Some (register_body c host uuid cpuCores memoryBytes tartVersion))) (\<lambda>(status, body) h.
       if status \<noteq> 200 then (Inl (SystemError (''server returned HTTP '' @ show_int (int status) @
            (if trimSpace body = [] then [] else '': '' @ trimSpace body))), h)
       else case Option.bind (unmarshal body) decode_registration of
           None \<Rightarrow> (Inl (SystemError ''decoding error''), h)
         | Some res \<Rightarrow>
             (Inr (res, c\<lparr>ac_worker_id := rr_worker_id res,
                ac_auth_token := (case rr_worker_token res of Some t \<Rightarrow> if t \<noteq> [] then t else ac_auth_token c
                                  | None \<Rightarrow> ac_auth_token c)\<rparr>), h))"

section \<open>Heartbeats\<close>

record heartbeat_status =
  hs_workstation_id :: string
  hs_power_state :: string
  hs_ip_address :: "string option"
  hs_last_error :: "string option"

definition optional_member :: "string \<Rightarrow> string option \<Rightarrow> (string \<times> json) list" where
  "optional_member k v = (case v of None \<Rightarrow> [] | Some s \<Rightarrow> [(k, JStr s)])"

definition encode_status :: "heartbeat_status \<Rightarrow> json" where
  "encode_status s = JObj ([(''workstation_id'', JStr (hs_workstation_id s)), (''power_state'', JStr (hs_power_state s))] @
     optional_member ''ip_address'' (hs_ip_address s) @ optional_member ''last_error'' (hs_last_error s))"

definition encode_heartbeat :: "heartbeat_status list \<Rightarrow> json" where
  "encode_heartbeat ss = JObj [(''workstation_statuses'', JArr (map encode_status ss))]"

record heartbeat_response =
  hb_status :: string
  hb_desired :: "desired_vm list"

definition isAuthoritative :: "heartbeat_response \<Rightarrow> bool" where
  "isAuthoritative r = (hb_status r = ''ok'')"

definition decode_desired :: "json \<Rightarrow> desired_vm option" where
  "decode_desired j = (case j of
     JObj kvs \<Rightarrow> (case (get_string kvs ''id'', get_string kvs ''vm_name'', get_int kvs ''slot'',
         get_string kvs ''desired_power_state'') of
       (Some i, Some n, Some s, Some d) \<Rightarrow> Some \<lparr>dv_id = i, dv_vm_name = n, dv_slot = s, dv_desired = d\<rparr>
     | _ \<Rightarrow> None)
   | _ \<Rightarrow> None)"

definition decode_heartbeat :: "json \<Rightarrow> heartbeat_response option" where
  "decode_heartbeat j = (case j of
     JObj kvs \<Rightarrow> (case (get_string kvs ''status'', get_list decode_desired kvs ''desired_workstations'') of
       (Some s, Some ds) \<Rightarrow> Some \<lparr>hb_status = s, hb_desired = ds\<rparr>
     | _ \<Rightarrow> None)
   | _ \<Rightarrow> None)"

definition heartbeat_error :: heartbeat_response where
  "heartbeat_error = \<lparr>hb_status = ''error'', hb_desired = []\<rparr>"

definition sendHeartbeat ::
  "'h host_ops \<Rightarrow> api_client \<Rightarrow> heartbeat_status list \<Rightarrow> 'h \<Rightarrow> heartbeat_response \<times> 'h" where
  "sendHeartbeat H c ss h =
     (case client_request H c ''POST'' (''/api/v1/workers/'' @ ac_worker_id c @ ''/heartbeat'')
         (Some (encode_heartbeat ss)) h of
        (Inl e, h') \<Rightarrow> (heartbeat_error, h')
      | (Inr (status, body), h') \<Rightarrow>
          if status \<noteq> 200 then (heartbeat_error, h')
          else (case Option.bind (unmarshal body) decode_heartbeat of
              None \<Rightarrow> (heartbeat_error, h')
            | Some r \<Rightarrow> (r, h')))"

section \<open>State reports and proxy sessions\<close>

definition reportVMState ::
  "'h host_ops \<Rightarrow> api_client \<Rightarrow> string \<Rightarrow> string \<Rightarrow> string option \<Rightarrow> string option \<Rightarrow> 'h \<Rightarrow> 'h" where
  "reportVMState H c vmID state address err h =
     snd (client_request H c ''PUT'' (''/api/v1/vms/'' @ vmID @ ''/state'')
       (Some (JObj ([(''worker_id'', JStr (ac_worker_id c)), (''state'', JStr state)] @
          optional_member ''ip_address'' address @ optional_member ''error_message'' err))) h)"

record pending_session =
  pe_session_id :: string
  pe_target :: string
  pe_vm_id :: "string option"
  pe_port :: int
  pe_token :: string

definition decode_pending :: "json \<Rightarrow> pending_session option" where
  "decode_pending j = (case j of
     JObj kvs \<Rightarrow> (case (get_string kvs ''session_id'', get_string kvs ''target'', get_optional kvs ''vm_id'',
         get_int kvs ''port'', get_string kvs ''token'') of
       (Some i, Some t, Some v, Some p, Some tok) \<Rightarrow>
         Some \<lparr>pe_session_id = i, pe_target = t, pe_vm_id = v, pe_port = p, pe_token = tok\<rparr>
     | _ \<Rightarrow> None)
   | _ \<Rightarrow> None)"

definition pollForProxySessions :: "'h host_ops \<Rightarrow> api_client \<Rightarrow> 'h \<Rightarrow> pending_session list \<times> 'h" where
  "pollForProxySessions H c h =
     (case client_request H c ''GET'' (''/api/v1/proxy/sessions/pending?worker_id='' @ ac_worker_id c) None h of
        (Inl e, h') \<Rightarrow> ([], h')
      | (Inr (status, body), h') \<Rightarrow>
          (if status \<noteq> 200 then []
           else case unmarshal body of
               Some (JArr js) \<Rightarrow> (case decode_all decode_pending js of None \<Rightarrow> [] | Some ps \<Rightarrow> ps)
             | _ \<Rightarrow> [], h'))"

end
