(* ===== verification/AgentLoop.thy ===== *)
theory AgentLoop
  imports AgentClient
begin

text \<open>
  The agent itself: start and rounds of \<^verbatim>\<open>Worker.swift\<close>, the stored configuration (\<^verbatim>\<open>Config.swift\<close>) and the
  unlocking of the keychain (\<^verbatim>\<open>KeychainUnlocker.swift\<close>).  What the overlay on the screen of the worker shows
  is left out, it takes no part in the work.  A relay is a task of its own; here it is the arguments it
  was started with.
\<close>

section \<open>The configuration file\<close>

text \<open>Values of a YAML mapping as far as the code asks for them.\<close>

datatype yaml = YStr string | YInt int | YBool bool | YOther

definition yaml_str :: "(string \<times> yaml) list \<Rightarrow> string \<Rightarrow> string option" where
  "yaml_str dict k = (case map_of dict k of Some (YStr s) \<Rightarrow> Some s | _ \<Rightarrow> None)"

definition yaml_int :: "(string \<times> yaml) list \<Rightarrow> string \<Rightarrow> int option" where
  "yaml_int dict k = (case map_of dict k of Some (YInt i) \<Rightarrow> Some i | _ \<Rightarrow> None)"

definition yaml_bool :: "(string \<times> yaml) list \<Rightarrow> string \<Rightarrow> bool option" where
  "yaml_bool dict k = (case map_of dict k of Some (YBool b) \<Rightarrow> Some b | _ \<Rightarrow> None)"

definition or_else :: "'a option \<Rightarrow> 'a \<Rightarrow> 'a" where
  "or_else v d = (case v of None \<Rightarrow> d | Some x \<Rightarrow> x)"

definition is_worker_token :: "string \<Rightarrow> bool" where
  "is_worker_token t = hasPrefix t ''wkt_''"

definition config_of :: "(string \<times> yaml) list \<Rightarrow> worker_config" where
  "config_of dict =
     (let raw = or_else (yaml_str dict ''worker_token'') []
      in \<lparr>wc_server_address = or_else (yaml_str dict ''server_address'') ''localhost:9090'',
          wc_worker_token = (if is_worker_token raw then raw else []),
          wc_enrollment_token = or_else (yaml_str dict ''enrollment_token'') (if is_worker_token raw then [] else raw),
          wc_base_image = or_else (yaml_str dict ''base_image'') ''minictl-tahoe-base'',
          wc_pool_size = or_else (yaml_int dict ''pool_size'') 2,
          wc_ssh_username = or_else (yaml_str dict ''ssh_username'') ''admin'',
          wc_ssh_password = or_else (yaml_str dict ''ssh_password'') ''admin'',
          wc_http_port = or_else (yaml_int dict ''http_port'') 8080,
          wc_log_level = or_else (yaml_str dict ''log_level'') ''info'',
          wc_use_https = or_else (yaml_bool dict ''use_https'') True,
          wc_tls_cert_fingerprint = or_else (yaml_str dict ''tls_cert_fingerprint'') [],
          wc_host_keychain_password = or_else (yaml_str dict ''host_keychain_password'') []\<rparr>)"

text \<open>Loading: \<open>parse\<close> is the YAML library on the text of the file (\<open>None\<close>: no mapping).\<close>

definition load_worker_config :: "(string \<Rightarrow> (string \<times> yaml) list option) \<Rightarrow> string \<Rightarrow> worker_config option" where
  "load_worker_config parse text = map_option config_of (parse text)"

definition yamlQuote :: "string \<Rightarrow> string" where
  "yamlQuote v = [CHR 0x27] @ concat (map (\<lambda>c. if c = CHR 0x27 then [c, c] else [c]) v) @ [CHR 0x27]"

fun yaml_scalar :: "yaml \<Rightarrow> string" where
  "yaml_scalar (YStr s) = yamlQuote s"
| "yaml_scalar (YInt i) = show_int i"
| "yaml_scalar (YBool b) = (if b then ''true'' else ''false'')"
| "yaml_scalar YOther = []"

definition yaml_line :: "string \<times> yaml \<Rightarrow> string" where
  "yaml_line kv = fst kv @ '': '' @ yaml_scalar (snd kv)"

definition config_entries :: "worker_config \<Rightarrow> (string \<times> yaml) list" where
  "config_entries c =
     [(''server_address'', YStr (wc_server_address c)), (''worker_token'', YStr (wc_worker_token c)),
      (''enrollment_token'', YStr (wc_enrollment_token c)), (''base_image'', YStr (wc_base_image c)),
      (''pool_size'', YInt (wc_pool_size c)), (''ssh_username'', YStr (wc_ssh_username c)),
      (''ssh_password'', YStr (wc_ssh_password c)), (''http_port'', YInt (wc_http_port c)),
      (''log_level'', YStr (wc_log_level c)), (''use_https'', YBool (wc_use_https c)),
      (''tls_cert_fingerprint'', YStr (wc_tls_cert_fingerprint c)),
      (''host_keychain_password'', YStr (wc_host_keychain_password c))]"

definition config_text :: "worker_config \<Rightarrow> string" where
  "config_text c = join_with [CHR 0x0A] (map yaml_line (config_entries c))"

definition save_worker_config :: "'h host_ops \<Rightarrow> string \<Rightarrow> worker_config \<Rightarrow> 'h \<Rightarrow> string option \<times> 'h" where
  "save_worker_config H path c = write_text H path (config_text c)"

section \<open>The keychain\<close>

text \<open>The text between the first and the last quotation mark, if there are two.\<close>

definition parseKeychainPath :: "string \<Rightarrow> string option" where
  "parseKeychainPath out =
     (let trimmed = trimSpace out;
          (_, after, found) = cut trimmed [quote_char];
          (_, quoted, closed) = cut (rev after) [quote_char]
      in if trimmed = [] then None else if found \<and> closed then Some (rev quoted) else Some trimmed)"

definition defaultKeychainCandidates :: "string \<Rightarrow> string list \<Rightarrow> string list" where
  "defaultKeychainCandidates home outs =
     rev (remdups (rev (filter (\<lambda>c. c \<noteq> [])
       (List.map_filter parseKeychainPath outs @
        [home @ ''/Library/Keychains/login.keychain-db'', home @ ''/Library/Keychains/login.keychain'',
         ''login.keychain-db'', ''login.keychain'']))))"

text \<open>What a command printed, if it is not blank; a command that cannot be started is an error.\<close>

definition security_output :: "'h host_ops \<Rightarrow> string list \<Rightarrow> ('h, string list) io" where
  "security_output H args h = (case run_process H (''/usr/bin/security'' # args) h of
     (Inl e, h') \<Rightarrow> (Inl (SystemError e), h')
   | (Inr r, h') \<Rightarrow> (Inr (if trimSpace (px_stdout r @ px_stderr r) = [] then [] else [px_stdout r @ px_stderr r]), h'))"

definition keychainCandidates :: "'h host_ops \<Rightarrow> ('h, string list) io" where
  "keychainCandidates H =
     bind_io (security_output H [''login-keychain'', ''-d'', ''user'']) (\<lambda>outs1.
     bind_io (security_output H [''default-keychain'', ''-d'', ''user'']) (\<lambda>outs2.
       return_io (defaultKeychainCandidates (home_directory H) (outs1 @ outs2))))"

fun unlock_first :: "'h host_ops \<Rightarrow> string \<Rightarrow> string list \<Rightarrow> int \<Rightarrow> string list \<Rightarrow> ('h, unit) io" where
  "unlock_first H password [] status failures h =
     (Inl (SystemError (''security unlock-keychain failed (exit '' @ show_int status @ ''): '' @ join_with '' | '' failures)), h)"
| "unlock_first H password (path # paths) status failures h =
     (case run_process H [''/usr/bin/security'', ''unlock-keychain'', ''-p'', password, path] h of
        (Inl e, h') \<Rightarrow> (Inl (SystemError e), h')
      | (Inr r, h') \<Rightarrow>
          if px_status r = 0
          then (Inr (), snd (run_process H [''/usr/bin/security'', ''default-keychain'', ''-d'', ''user'', ''-s'', path] h'))
          else (let out = trimSpace (px_stdout r @ px_stderr r)
                in unlock_first H password paths (px_status r) (failures @
                     [path @ '' [exit '' @ show_int (px_status r) @ '']: '' @ (if out = [] then ''no output'' else out)]) h'))"

definition ensureKeychainUnlocked :: "'h host_ops \<Rightarrow> string \<Rightarrow> ('h, unit) io" where
  "ensureKeychainUnlocked H password = bind_io (keychainCandidates H) (\<lambda>paths. unlock_first H password paths 1 [])"

section \<open>The agent\<close>

record relay_args =
  ra_base_url :: string
  ra_token :: string
  ra_target_ip :: string
  ra_port :: int

record agent =
  ag_config :: worker_config
  ag_config_path :: string
  ag_host :: string
  ag_client :: api_client
  ag_workstations :: manager
  ag_worker_id :: string
  ag_keychain_password :: string
  ag_keychain_unlocked :: bool
  ag_active_relays :: "(string \<times> relay_args) list"
  ag_finished_relays :: "string list"
  ag_next_heartbeat :: int

definition new_agent :: "'h host_ops \<Rightarrow> worker_config \<Rightarrow> string \<Rightarrow> string \<Rightarrow> string \<Rightarrow> agent" where
  "new_agent H cfg path version host = \<lparr>ag_config = cfg, ag_config_path = path, ag_host = host,
     ag_client = newClient H cfg version, ag_workstations = newManager, ag_worker_id = [], ag_keychain_password = [],
     ag_keychain_unlocked = False, ag_active_relays = [], ag_finished_relays = [], ag_next_heartbeat = 0\<rparr>"

text \<open>A configuration that cannot be written is logged; the agent goes on with the token.\<close>

definition persistIssuedWorkerTokenIfNeeded :: "'h host_ops \<Rightarrow> string option \<Rightarrow> agent \<Rightarrow> 'h \<Rightarrow> agent \<times> 'h" where
  "persistIssuedWorkerTokenIfNeeded H issued a h = (case issued of
     None \<Rightarrow> (a, h)
   | Some t \<Rightarrow>
      if t = [] \<or> wc_worker_token (ag_config a) = t \<and> wc_enrollment_token (ag_config a) = [] then (a, h)
      else let cfg = (ag_config a)\<lparr>wc_worker_token := t, wc_enrollment_token := []\<rparr>
           in (a\<lparr>ag_config := cfg\<rparr>, snd (save_worker_config H (ag_config_path a) cfg h)))"

definition tryUnlockKeychain :: "'h host_ops \<Rightarrow> agent \<Rightarrow> 'h \<Rightarrow> agent \<times> 'h" where
  "tryUnlockKeychain H a h =
     (if ag_keychain_password a = [] \<or> ag_keychain_unlocked a then (a, h)
      else case ensureKeychainUnlocked H (ag_keychain_password a) h of
          (Inl e, h') \<Rightarrow> (a, h')
        | (Inr _, h') \<Rightarrow> (a\<lparr>ag_keychain_unlocked := True\<rparr>, h'))"

text \<open>What \<^verbatim>\<open>run\<close> does before its loop; the loop sends its first heartbeat at once.\<close>

definition agent_start :: "'h host_ops \<Rightarrow> string \<Rightarrow> int \<Rightarrow> int \<Rightarrow> agent \<Rightarrow> ('h, agent) io" where
  "agent_start H hardwareUUID cpuCores memoryBytes a =
     bind_io (client_register H (ag_client a) (ag_host a) hardwareUUID cpuCores memoryBytes []) (\<lambda>(reg, client) h.
       let a1 = a\<lparr>ag_client := client, ag_worker_id := rr_worker_id reg\<rparr>;
           (a2, h1) = persistIssuedWorkerTokenIfNeeded H (rr_worker_token reg) a1 h;
           a3 = a2\<lparr>ag_keychain_password := wc_host_keychain_password (ag_config a2)\<rparr>;
           (a4, h2) = tryUnlockKeychain H a3 h1
       in (Inr (a4\<lparr>ag_next_heartbeat := host_clock H h2\<rparr>), h2))"

subsection \<open>Proxy sessions\<close>

definition relay_target :: "manager \<Rightarrow> pending_session \<Rightarrow> string option" where
  "relay_target mg s =
     (if pe_target s = ''host'' then Some ''127.0.0.1''
      else if pe_target s = ''vm'' then Option.bind (pe_vm_id s) (\<lambda>vmID. Option.bind (findVM mg vmID) vi_ip_address)
      else None)"

definition start_relay :: "pending_session \<Rightarrow> agent \<Rightarrow> agent" where
  "start_relay s a =
     (if map_of (ag_active_relays a) (pe_session_id s) \<noteq> None then a
      else case relay_target (ag_workstations a) s of
          None \<Rightarrow> a
        | Some address \<Rightarrow> a\<lparr>ag_active_relays := AList.update (pe_session_id s)
            \<lparr>ra_base_url = or_else (ac_base_url (ag_client a)) [], ra_token = pe_token s, ra_target_ip = address, ra_port = pe_port s\<rparr>
            (ag_active_relays a)\<rparr>)"

definition pollProxySessions :: "'h host_ops \<Rightarrow> agent \<Rightarrow> 'h \<Rightarrow> agent \<times> 'h" where
  "pollProxySessions H a h =
     (let (sessions, h') = pollForProxySessions H (ag_client a) h in (fold start_relay sessions a, h'))"

definition markRelayFinished :: "string \<Rightarrow> agent \<Rightarrow> agent" where
  "markRelayFinished sessionID a = a\<lparr>ag_finished_relays := List.insert sessionID (ag_finished_relays a)\<rparr>"

definition drop_finished :: "agent \<Rightarrow> agent" where
  "drop_finished a = a\<lparr>ag_active_relays := filter (\<lambda>(i, _). i \<notin> set (ag_finished_relays a)) (ag_active_relays a),
     ag_finished_relays := []\<rparr>"

subsection \<open>A round of the loop\<close>

definition status_of_info :: "vm_info \<Rightarrow> heartbeat_status" where
  "status_of_info vm = \<lparr>hs_workstation_id = vi_vm_id vm, hs_power_state = raw_value (vi_state vm),
     hs_ip_address = vi_ip_address vm, hs_last_error = vi_last_error vm\<rparr>"

definition heartbeat_round :: "'h host_ops \<Rightarrow> vm_info list \<Rightarrow> agent \<Rightarrow> 'h \<Rightarrow> agent \<times> 'h" where
  "heartbeat_round H infos a h =
     (let (resp, h') = sendHeartbeat H (ag_client a) (map status_of_info infos) h
      in (a\<lparr>ag_workstations := applyDesiredWorkstations H (hb_desired resp) (isAuthoritative resp) h' (ag_workstations a),
            ag_next_heartbeat := host_clock H h' + 5000\<rparr>, h'))"

definition management_round :: "'h host_ops \<Rightarrow> agent \<Rightarrow> 'h \<Rightarrow> agent \<times> 'h" where
  "management_round H a h =
     (let (mg, h1) = manager_reconcile H (ag_config a) (ag_workstations a) h;
          infos = allVMInfo mg;
          (a1, h2) = pollProxySessions H (a\<lparr>ag_workstations := mg\<rparr>) h1;
          (a2, h3) = tryUnlockKeychain H (drop_finished a1) h2
      in if ag_next_heartbeat a2 \<le> host_clock H h3 then heartbeat_round H infos a2 h3 else (a2, h3))"

end
