(* ===== verification/AgentWork.thy ===== *)
theory AgentWork
  imports Agent
begin

text \<open>
  What the agent achieves on its machine, as far as \<^verbatim>\<open>tart\<close> does what it documents: a workstation that is
  to be deleted is gone after one round, whatever the others want; and what becomes of one whose
  process has died.
\<close>

section \<open>What the agent relies on\<close>

text \<open>
  The documented behaviour of \<^verbatim>\<open>tart\<close>, with \<open>vms\<close> the names of the machines on the disk: \<^verbatim>\<open>get\<close> succeeds
  for the names of existing machines, \<^verbatim>\<open>stop\<close> of an existing machine succeeds or says that it is not
  running, \<^verbatim>\<open>delete\<close> removes an existing machine, and only \<^verbatim>\<open>clone\<close> adds one.
\<close>

definition tart_frame :: "'h host_ops \<Rightarrow> ('h \<Rightarrow> string set) \<Rightarrow> bool" where
  "tart_frame H vms =
     ((\<forall>args h. vms (snd (run_process H args h)) \<subseteq> vms h \<union> {name. \<exists>source. args = [''tart'', ''clone'', source, name]}) \<and>
      (\<forall>args h. vms (snd (spawn_process H args h)) \<subseteq> vms h) \<and>
      (\<forall>path j h. vms (snd (write_json H path j h)) \<subseteq> vms h))"

definition tart_works :: "'h host_ops \<Rightarrow> ('h \<Rightarrow> string set) \<Rightarrow> bool" where
  "tart_works H vms =
     ((\<forall>name h. \<exists>r h'. run_process H [''tart'', ''get'', name] h = (Inr r, h') \<and> vms h' = vms h \<and>
         (px_status r = 0 \<longleftrightarrow> name \<in> vms h)) \<and>
      (\<forall>name h. name \<in> vms h \<longrightarrow> (\<exists>r h'. run_process H [''tart'', ''stop'', name] h = (Inr r, h') \<and> vms h' = vms h \<and>
         (px_status r = 0 \<or> contains (toLower (px_stderr r)) ''not running''))) \<and>
      (\<forall>name h. name \<in> vms h \<longrightarrow> (\<exists>r h'. run_process H [''tart'', ''delete'', name] h = (Inr r, h') \<and>
         px_status r = 0 \<and> vms h' = vms h - {name})) \<and>
      tart_frame H vms)"

lemma tart_laws:
  assumes "tart_works H vms"
  shows tart_get_law: "\<And>name h. \<exists>r h'. run_process H [''tart'', ''get'', name] h = (Inr r, h') \<and> vms h' = vms h \<and>
      (px_status r = 0 \<longleftrightarrow> name \<in> vms h)"
    and tart_stop_law: "\<And>name h. name \<in> vms h \<Longrightarrow> \<exists>r h'. run_process H [''tart'', ''stop'', name] h = (Inr r, h') \<and>
      vms h' = vms h \<and> (px_status r = 0 \<or> contains (toLower (px_stderr r)) ''not running'')"
    and tart_delete_law: "\<And>name h. name \<in> vms h \<Longrightarrow> \<exists>r h'. run_process H [''tart'', ''delete'', name] h = (Inr r, h') \<and>
      px_status r = 0 \<and> vms h' = vms h - {name}"
    and tart_works_frame: "tart_frame H vms"
proof -
  note laws = assms [unfolded tart_works_def]
  show "\<And>name h. \<exists>r h'. run_process H [''tart'', ''get'', name] h = (Inr r, h') \<and> vms h' = vms h \<and>
      (px_status r = 0 \<longleftrightarrow> name \<in> vms h)"
    by (rule laws [THEN conjunct1, rule_format])
  note laws = laws [THEN conjunct2]
  show "\<And>name h. name \<in> vms h \<Longrightarrow> \<exists>r h'. run_process H [''tart'', ''stop'', name] h = (Inr r, h') \<and>
      vms h' = vms h \<and> (px_status r = 0 \<or> contains (toLower (px_stderr r)) ''not running'')"
    by (rule laws [THEN conjunct1, rule_format])
  note laws = laws [THEN conjunct2]
  show "\<And>name h. name \<in> vms h \<Longrightarrow> \<exists>r h'. run_process H [''tart'', ''delete'', name] h = (Inr r, h') \<and>
      px_status r = 0 \<and> vms h' = vms h - {name}"
    by (rule laws [THEN conjunct1, rule_format])
  show "tart_frame H vms" by (rule laws [THEN conjunct2])
qed

lemma tart_get:
  assumes "tart_works H vms" and "tart_exists H name h = (b, h')"
  shows "b = (name \<in> vms h) \<and> vms h' = vms h"
proof -
  obtain r g where "run_process H [''tart'', ''get'', name] h = (Inr r, g)" "vms g = vms h" "px_status r = 0 \<longleftrightarrow> name \<in> vms h"
    using tart_get_law [OF assms(1)] by metis
  then show ?thesis using assms(2) by (auto simp: tart_exists_def tart_exec_def split: if_splits)
qed

lemma stop_works:
  assumes "tart_works H vms" and "name \<in> vms h"
  shows "\<exists>h'. stopIfRunning H name h = (Inr (), h') \<and> vms h' = vms h"
proof -
  obtain r h' where "run_process H [''tart'', ''stop'', name] h = (Inr r, h')" "vms h' = vms h"
    and "px_status r = 0 \<or> contains (toLower (px_stderr r)) ''not running''"
    using tart_stop_law [OF assms] by metis
  moreover have "toLower ''not running'' = ''not running''" by code_simp
  ultimately show ?thesis by (auto simp: stopIfRunning_def tart_stop_def tart_exec_def outputContains_def)
qed

lemma delete_works:
  assumes "tart_works H vms"
  shows "\<exists>h'. deleteIfExists H name h = (Inr (), h') \<and> vms h' = vms h - {name}"
proof -
  obtain b h1 where e: "tart_exists H name h = (b, h1)" by force
  note get = tart_get [OF assms e]
  show ?thesis
  proof (cases b)
    case True
    then have "name \<in> vms h1" using get by simp
    then obtain r h' where "run_process H [''tart'', ''delete'', name] h1 = (Inr r, h')" "px_status r = 0" "vms h' = vms h1 - {name}"
      using tart_delete_law [OF assms] by metis
    then show ?thesis using e get True
      by (simp add: deleteIfExists_def bind_io_def return_io_def tart_delete_def tart_exec_def)
  next
    case False
    then show ?thesis using e get by (simp add: deleteIfExists_def)
  qed
qed

section \<open>Deleting\<close>

lemma setState_fields [simp]:
  "rt_id (setState H s e h rt) = rt_id rt" "rt_vm_name (setState H s e h rt) = rt_vm_name rt"
  "rt_desired (setState H s e h rt) = rt_desired rt" "rt_state (setState H s e h rt) = s"
  "rt_process (setState H s e h rt) = rt_process rt" "rt_ip_address (setState H s e h rt) = rt_ip_address rt"
  "rt_last_error (setState H s e h rt) = e" "rt_slot (setState H s e h rt) = rt_slot rt"
  by (simp_all add: setState_def)

lemma ensureDeleted_works:
  assumes "tart_works H vms" and "ensureDeleted H rt h = (rt', h')"
  shows "rt_state rt' = VDeleted \<and> vms h' = vms h - {rt_vm_name rt}"
proof -
  obtain b h1 where e: "tart_exists H (rt_vm_name rt) h = (b, h1)" by force
  note get = tart_get [OF assms(1) e]
  show ?thesis
  proof (cases b)
    case True
    then have "rt_vm_name rt \<in> vms h1" using get by simp
    from stop_works [OF assms(1) this]
    obtain h2 where s: "stopIfRunning H (rt_vm_name rt) h1 = (Inr (), h2)" "vms h2 = vms h1" by blast
    obtain h3 where "deleteIfExists H (rt_vm_name rt) h2 = (Inr (), h3)" "vms h3 = vms h2 - {rt_vm_name rt}"
      using delete_works [OF assms(1)] by blast
    then show ?thesis using assms(2) e get True s by (auto simp: ensureDeleted_def Let_def bind_io_def)
  next
    case False
    then show ?thesis using assms(2) e get by (auto simp: ensureDeleted_def Let_def)
  qed
qed

section \<open>Which machines a step can add\<close>

definition adds_only :: "('h \<Rightarrow> string set) \<Rightarrow> string set \<Rightarrow> ('h \<Rightarrow> 'a \<times> 'h) \<Rightarrow> bool" where
  "adds_only vms N m = (\<forall>h. vms (snd (m h)) \<subseteq> vms h \<union> N)"

named_theorems adds \<open>which machines the commands add\<close>

lemma adds_onlyD: "adds_only vms N m \<Longrightarrow> m h = (x, h') \<Longrightarrow> vms h' \<subseteq> vms h \<union> N"
  unfolding adds_only_def by (metis snd_conv)

lemma adds_only_mono: "adds_only vms M m \<Longrightarrow> M \<subseteq> N \<Longrightarrow> adds_only vms N m"
  unfolding adds_only_def by blast

lemma adds_then:
  assumes "adds_only vms N m" and "\<And>h x. adds_only vms N (k h x)"
  shows "adds_only vms N (\<lambda>h. case m h of (x, h') \<Rightarrow> k h x h')"
  unfolding adds_only_def
proof
  fix h
  obtain x h' where m: "m h = (x, h')" by force
  have "vms h' \<subseteq> vms h \<union> N" using adds_onlyD [OF assms(1) m] .
  moreover have "vms (snd (k h x h')) \<subseteq> vms h' \<union> N" using assms(2) unfolding adds_only_def by blast
  ultimately show "vms (snd (case m h of (x, h') \<Rightarrow> k h x h')) \<subseteq> vms h \<union> N" using m by auto
qed

lemma adds_pure [adds]: "adds_only vms N (\<lambda>h. (f h, h))"
  by (simp add: adds_only_def)

lemma adds_sum [adds]:
  "(\<And>e. adds_only vms N (f e)) \<Longrightarrow> (\<And>y. adds_only vms N (g y)) \<Longrightarrow>
   adds_only vms N (\<lambda>h. case x of Inl e \<Rightarrow> f e h | Inr y \<Rightarrow> g y h)"
  by (cases x) simp_all

lemma adds_option [adds]:
  "adds_only vms N f \<Longrightarrow> (\<And>y. adds_only vms N (g y)) \<Longrightarrow> adds_only vms N (\<lambda>h. case x of None \<Rightarrow> f h | Some y \<Rightarrow> g y h)"
  by (cases x) simp_all

lemma adds_if [adds]:
  "adds_only vms N f \<Longrightarrow> adds_only vms N g \<Longrightarrow> adds_only vms N (\<lambda>h. if b then f h else g h)"
  by (cases b) simp_all

lemma adds_bool [adds]:
  "adds_only vms N f \<Longrightarrow> adds_only vms N g \<Longrightarrow> adds_only vms N (\<lambda>h. case b of True \<Rightarrow> f h | False \<Rightarrow> g h)"
  by (cases b) simp_all

lemma adds_bind [adds]:
  "adds_only vms N m \<Longrightarrow> (\<And>x. adds_only vms N (k x)) \<Longrightarrow> adds_only vms N (bind_io m k)"
  unfolding bind_io_def by (intro adds_then adds_sum adds_pure)

lemma adds_return [adds]: "adds_only vms N (return_io x)"
  unfolding return_io_def by (rule adds_pure)

lemma adds_exec:
  assumes "tart_frame H vms" and "\<And>source name. args = [''tart'', ''clone'', source, name] \<Longrightarrow> name \<in> N"
  shows "adds_only vms N (tart_exec H args)"
  unfolding adds_only_def
proof
  fix h
  have "vms (snd (run_process H args h)) \<subseteq> vms h \<union> {name. \<exists>source. args = [''tart'', ''clone'', source, name]}"
    using assms(1) unfolding tart_frame_def by blast
  then show "vms (snd (tart_exec H args h)) \<subseteq> vms h \<union> N"
    using assms(2) by (auto simp: tart_exec_def split: prod.splits sum.splits)
qed

lemma adds_commands [adds]:
  assumes "tart_frame H vms"
  shows "adds_only vms N (tart_exists H name)" and "adds_only vms N (stopIfRunning H name)"
    and "adds_only vms N (deleteIfExists H name)" and "adds_only vms N (tart_start H name)"
    and "adds_only vms N (updateLocalConfig H name n)" and "adds_only vms {name} (tart_clone H source name)"
proof -
  show ex: "adds_only vms N (tart_exists H name)"
    unfolding tart_exists_def by (intro adds_then adds_sum adds_pure adds_exec [OF assms]) simp
  show "adds_only vms N (stopIfRunning H name)"
    unfolding stopIfRunning_def tart_stop_def by (intro adds_then adds_sum adds_if adds_pure adds_exec [OF assms]) simp
  show "adds_only vms N (deleteIfExists H name)"
    unfolding deleteIfExists_def tart_delete_def
    by (intro adds_then adds_bool adds_pure ex adds_bind adds_return adds_exec [OF assms]) simp
  have "adds_only vms N (spawn_process H [''tart'', ''run'', name, ''--no-graphics''])"
    using assms unfolding adds_only_def tart_frame_def by blast
  then show "adds_only vms N (tart_start H name)"
    unfolding tart_start_def by (intro adds_then adds_option adds_pure)
  have "adds_only vms N (write_json H p j)" for p j
    using assms unfolding adds_only_def tart_frame_def by blast
  then have "adds_only vms N (\<lambda>h. case write_json H p j h of (Some e, h') \<Rightarrow> (Inl (SystemError e), h') | (None, h') \<Rightarrow> (Inr (), h'))" for p j
    by (intro adds_then adds_option adds_pure)
  then show "adds_only vms N (updateLocalConfig H name n)"
    unfolding adds_only_def updateLocalConfig_def by (auto split: sum.split)
  show "adds_only vms {name} (tart_clone H source name)"
    unfolding tart_clone_def by (rule adds_exec [OF assms]) simp
qed

lemma adds_configure [adds]:
  assumes "tart_frame H vms"
  shows "adds_only vms N (tart_configure H name n)"
proof -
  have "adds_only vms N (bind_io (tart_exec H [''tart'', ''list'']) (\<lambda>out. return_io (parseDiskSizeGiBFromList out name)))"
    by (intro adds_bind adds_return adds_exec [OF assms]) simp
  then have "adds_only vms N (currentDiskSizeGiB H name)"
    unfolding adds_only_def currentDiskSizeGiB_def by (auto split: sum.splits option.splits)
  then show ?thesis
    unfolding tart_configure_def Let_def
    by (intro adds_bind adds_commands [OF assms] adds_exec [OF assms]) (auto simp: configureArguments_def)
qed

lemma adds_ip [adds]:
  assumes "tart_frame H vms"
  shows "adds_only vms N (tart_ip H name t)"
proof -
  have ask: "adds_only vms N (tart_exec H [''tart'', ''ip'', name, ''--wait'', ''10''])" by (rule adds_exec [OF assms]) simp
  have "adds_only vms N (ip_loop H name n e)" for n e
  proof (induction n arbitrary: e)
    case (Suc n)
    have "ip_loop H name (Suc n) e = (\<lambda>h. case tart_exec H [''tart'', ''ip'', name, ''--wait'', ''10''] h of (r, h') \<Rightarrow>
        (case r of Inl err \<Rightarrow> ip_loop H name n (Some err) h'
         | Inr out \<Rightarrow> if trimSpace out \<noteq> [] then (Inr (trimSpace out), h') else ip_loop H name n e h'))"
      by (rule ext) simp
    then show ?case by (simp only:) (intro adds_then adds_sum adds_if adds_pure ask Suc)
  qed (simp add: adds_only_def)
  then show ?thesis by (simp add: adds_only_def tart_ip_def)
qed

text \<open>A runtime adds at most its own machine, and only if that is to run.\<close>

lemma adds_ensure:
  assumes "tart_frame H vms"
  shows "adds_only vms {rt_vm_name rt} (ensureRunning H cfg rt)" and "adds_only vms N (ensureStopped H rt)"
    and "adds_only vms N (ensureDeleted H rt)"
proof -
  note ops = adds_commands [OF assms] adds_configure [OF assms] adds_ip [OF assms]
  have "adds_only vms N (currentIPAddress H name t)" for N name t
    unfolding currentIPAddress_def by (intro adds_then adds_bool adds_sum adds_pure ops)
  moreover have "adds_only vms {name} (prepare_vm H cfg name)" for name
    unfolding prepare_vm_def by (intro adds_then adds_bool adds_pure adds_bind ops)
  moreover have "adds_only vms N (boot_vm H cfg rt')" for N rt'
    unfolding boot_vm_def Let_def by (intro adds_then adds_sum adds_pure adds_bind ops)
  ultimately show "adds_only vms {rt_vm_name rt} (ensureRunning H cfg rt)"
    unfolding ensureRunning_def Let_def by (intro adds_then adds_sum adds_option adds_if adds_pure)
  show "adds_only vms N (ensureStopped H rt)"
    unfolding ensureStopped_def Let_def by (intro adds_then adds_bool adds_sum adds_pure ops)
  show "adds_only vms N (ensureDeleted H rt)"
    unfolding ensureDeleted_def Let_def by (intro adds_then adds_bool adds_sum adds_pure adds_bind ops)
qed

lemma adds_reconcile:
  assumes "tart_frame H vms"
  shows "adds_only vms (if rt_desired rt = ''running'' then {rt_vm_name rt} else {}) (runtime_reconcile H cfg rt)"
proof -
  have "adds_only vms {} (ensureStopped H rt)" "adds_only vms {} (ensureDeleted H rt)"
    "adds_only vms {rt_vm_name rt} (ensureRunning H cfg rt)"
    by (rule adds_ensure [OF assms])+
  then show ?thesis by (simp add: adds_only_def runtime_reconcile_def)
qed

section \<open>A round over all workstations\<close>

lemma runtime_reconcile_keeps:
  assumes "runtime_reconcile H cfg rt h = (rt', h')"
  shows "rt_id rt' = rt_id rt" and "rt_vm_name rt' = rt_vm_name rt" and "rt_desired rt' = rt_desired rt"
    and "rt_slot rt' = rt_slot rt"
  using assms
  by (auto simp: runtime_reconcile_def ensureRunning_def ensureStopped_def ensureDeleted_def boot_vm_def Let_def
      split: if_splits prod.splits sum.splits option.splits bool.splits)

lemma reconcile_all_Cons:
  "runtime_reconcile H cfg r h = (r', h1) \<Longrightarrow> reconcile_all H cfg ((j, r) # rts) h =
     ((j, r') # fst (reconcile_all H cfg rts h1), snd (reconcile_all H cfg rts h1))"
  by (simp add: reconcile_all.simps(2) case_prod_beta Let_def)

lemma reconcile_all_keys: "map fst (fst (reconcile_all H cfg rts h)) = map fst rts"
proof (induction rts arbitrary: h)
  case (Cons jr rts)
  obtain j r where jr: "jr = (j, r)" by force
  obtain r' h1 where "runtime_reconcile H cfg r h = (r', h1)" by force
  with jr Cons show ?case by (simp add: reconcile_all_Cons)
qed simp

lemma reconcile_all_runtime:
  "(i, rt') \<in> set (fst (reconcile_all H cfg rts h)) \<Longrightarrow>
   \<exists>rt g g'. (i, rt) \<in> set rts \<and> runtime_reconcile H cfg rt g = (rt', g')"
proof (induction rts arbitrary: h)
  case (Cons jr rts)
  obtain j r where jr: "jr = (j, r)" by force
  obtain r' h1 where r: "runtime_reconcile H cfg r h = (r', h1)" by force
  from Cons.prems jr r have "(i, rt') = (j, r') \<or> (i, rt') \<in> set (fst (reconcile_all H cfg rts h1))"
    by (simp add: reconcile_all_Cons)
  then show ?case using Cons.IH r jr by fastforce
qed simp

lemma reconcile_deleted:
  "tart_works H vms \<Longrightarrow> rt_desired rt = ''deleted'' \<Longrightarrow> runtime_reconcile H cfg rt h = (rt', h') \<Longrightarrow>
   rt_state rt' = VDeleted \<and> vms h' = vms h - {rt_vm_name rt}"
  using ensureDeleted_works by (simp add: runtime_reconcile_def)

definition wants :: "string \<Rightarrow> (string \<times> runtime) list \<Rightarrow> bool" where
  "wants name rts = (\<exists>(j, r) \<in> set rts. rt_vm_name r = name \<and> rt_desired r = ''running'')"

lemma reconcile_all_absent:
  assumes "tart_frame H vms"
  shows "\<not> wants name rts \<Longrightarrow> name \<notin> vms h \<Longrightarrow> name \<notin> vms (snd (reconcile_all H cfg rts h))"
proof (induction rts arbitrary: h)
  case (Cons jr rts)
  obtain j r where jr: "jr = (j, r)" by force
  obtain r' h1 where r: "runtime_reconcile H cfg r h = (r', h1)" by force
  have "name \<notin> vms h1"
    using adds_onlyD [OF adds_reconcile [OF assms] r] Cons.prems jr by (auto simp: wants_def split: if_splits)
  then show ?case using Cons jr by (simp add: reconcile_all_Cons [OF r] wants_def)
qed simp

lemma reconcile_all_deletes:
  assumes "tart_works H vms" and "rt_desired rt = ''deleted''"
  shows "map_of rts i = Some rt \<Longrightarrow> \<not> wants (rt_vm_name rt) rts \<Longrightarrow>
    rt_vm_name rt \<notin> vms (snd (reconcile_all H cfg rts h)) \<and>
    (\<exists>rt'. map_of (fst (reconcile_all H cfg rts h)) i = Some rt' \<and> rt_state rt' = VDeleted \<and> rt_id rt' = rt_id rt \<and>
       rt_vm_name rt' = rt_vm_name rt \<and> rt_desired rt' = ''deleted'')"
proof (induction rts arbitrary: h)
  case (Cons jr rts)
  obtain j r where jr: "jr = (j, r)" by force
  obtain r' h1 where r: "runtime_reconcile H cfg r h = (r', h1)" by force
  have rest: "\<not> wants (rt_vm_name rt) rts" using Cons.prems(2) by (simp add: wants_def)
  show ?case
  proof (cases "i = j")
    case True
    with Cons.prems(1) jr have rt: "r = rt" by simp
    with reconcile_deleted [OF assms(1) _ r] assms(2) have "rt_state r' = VDeleted" "rt_vm_name rt \<notin> vms h1" by auto
    with True rt jr reconcile_all_absent [OF tart_works_frame [OF assms(1)] rest] runtime_reconcile_keeps [OF r] assms(2) show ?thesis
      by (simp add: reconcile_all_Cons [OF r [unfolded rt]])
  next
    case False
    with Cons.IH [of h1] Cons.prems(1) jr rest show ?thesis by (simp add: reconcile_all_Cons [OF r])
  qed
qed simp

section \<open>Desired states\<close>

definition desired_for :: "desired_vm list \<Rightarrow> string \<Rightarrow> desired_vm option" where
  "desired_for ds i = List.find (\<lambda>d. dv_id d = i) ds"

definition updated_runtime :: "'h host_ops \<Rightarrow> 'h \<Rightarrow> runtime option \<Rightarrow> desired_vm \<Rightarrow> runtime" where
  "updated_runtime H h rt d = (case rt of Some r \<Rightarrow> apply_desired d r | None \<Rightarrow> new_runtime H d h)"

lemma apply_one_lookup:
  "map_of (apply_one H h d rts) i = (if i = dv_id d then Some (updated_runtime H h (map_of rts i) d) else map_of rts i)"
  by (simp add: apply_one_def updated_runtime_def update_conv' split: option.splits)

lemma apply_all_lookup:
  "distinct (map dv_id ds) \<Longrightarrow> map_of (fold (apply_one H h) ds rts) i = (case desired_for ds i of
     None \<Rightarrow> map_of rts i | Some d \<Rightarrow> Some (updated_runtime H h (map_of rts i) d))"
proof (induction ds arbitrary: rts)
  case (Cons d ds)
  have "desired_for ds i = None" if "i = dv_id d"
    using Cons.prems that by (auto simp: desired_for_def find_None_iff) (metis image_eqI)
  then show ?case using Cons by (auto simp: apply_one_lookup desired_for_def split: option.splits)
qed (simp add: desired_for_def)

lemma map_of_map_entries: "map_of (map (\<lambda>(i, x). (i, f i x)) xs) i = map_option (f i) (map_of xs i)"
  by (induction xs) auto

text \<open>
  An authoritative list reaches every workstation it names, known or new, and everything else is to be
  deleted.
\<close>

lemma applyDesired_lookup:
  assumes "distinct (map dv_id ds)"
  shows "map_of (mg_runtimes (applyDesiredWorkstations H ds True h mg)) i = (case desired_for ds i of
     None \<Rightarrow> map_option markForDeletion (map_of (mg_runtimes mg) i)
   | Some d \<Rightarrow> Some (updated_runtime H h (map_of (mg_runtimes mg) i) d))"
proof -
  have "desired_for ds i = None \<longleftrightarrow> i \<notin> dv_id ` set ds" by (auto simp: desired_for_def find_None_iff)
  then show ?thesis
    using assms by (auto simp: applyDesiredWorkstations_def Let_def map_of_map_entries apply_all_lookup split: option.splits)
qed

lemma applyDesired_desired:
  "distinct (map dv_id ds) \<Longrightarrow> map_of (mg_runtimes (applyDesiredWorkstations H ds True h mg)) i = Some rt \<Longrightarrow>
   rt_desired rt = (case desired_for ds i of None \<Rightarrow> ''deleted'' | Some d \<Rightarrow> dv_desired d)"
  by (auto simp: applyDesired_lookup updated_runtime_def apply_desired_def new_runtime_def markForDeletion_def split: option.splits)

section \<open>A small machine\<close>

text \<open>A machine whose state is the list of its virtual machines, none of which is running.\<close>

definition sample_command :: "string list \<Rightarrow> string list \<Rightarrow> process_result \<times> string list" where
  "sample_command args h =
     (let ok = \<lparr>px_status = 0, px_stdout = [], px_stderr = []\<rparr>;
          bad = (\<lambda>e. \<lparr>px_status = 1, px_stdout = [], px_stderr = e\<rparr>)
      in case args of
           [prog, cmd, name] \<Rightarrow>
             if cmd = ''get'' then (if name \<in> set h then ok else bad ''no such machine'', h)
             else if cmd = ''stop'' then (bad ''machine is not running'', h)
             else if cmd = ''delete'' then (ok, removeAll name h)
             else (ok, h)
         | [prog, cmd, source, name] \<Rightarrow>
             if prog = ''tart'' \<and> cmd = ''clone'' then (ok, name # h) else (ok, h)
         | prog # cmd # name # rest \<Rightarrow> (if cmd = ''ip'' then bad ''no address'' else ok, h)
         | _ \<Rightarrow> (ok, h))"

definition sample_machine :: "string list host_ops" where
  "sample_machine = \<lparr>run_process = (\<lambda>args h. let (r, h') = sample_command args h in (Inr r, h')),
     spawn_process = (\<lambda>args h. (None, h)), read_json = (\<lambda>p h. Inr (JObj [])), write_json = (\<lambda>p j h. (None, h)),
     write_text = (\<lambda>p t h. (None, h)), http_call = (\<lambda>q h. (Inl ''offline'', h)),
     url_components = (\<lambda>u. Some (''server'', None)), poll_rounds = (\<lambda>t h. 3), host_clock = (\<lambda>h. 0),
     home_directory = ''/Users/admin'', physical_cores = 8, total_disk_gib = 512\<rparr>"

lemma sample_machine_works: "tart_works sample_machine set"
  unfolding tart_works_def tart_frame_def
proof (intro conjI allI impI)
  have "contains ''machine is not running'' ''not running''" by code_simp
  moreover have "toLower ''machine is not running'' = ''machine is not running''" by code_simp
  ultimately show "\<exists>r h'. run_process sample_machine [''tart'', ''stop'', name] h = (Inr r, h') \<and> set h' = set h \<and>
      (px_status r = 0 \<or> contains (toLower (px_stderr r)) ''not running'')" for name h
    by (simp add: sample_machine_def sample_command_def)
qed (auto simp: sample_machine_def sample_command_def Let_def split: list.splits if_splits prod.splits)

definition sample_runtime :: runtime where
  "sample_runtime = \<lparr>rt_id = ''k1'', rt_vm_name = ''ws-k1'', rt_slot = 0, rt_desired = ''running'', rt_state = VError,
     rt_ip_address = None, rt_state_changed_at = 0, rt_process = True, rt_last_error = None\<rparr>"

definition sample_worker_config :: worker_config where
  "sample_worker_config = \<lparr>wc_server_address = ''server'', wc_worker_token = ''wkt_72'', wc_enrollment_token = [],
     wc_base_image = ''base'', wc_pool_size = 2, wc_ssh_username = ''admin'', wc_ssh_password = ''admin'', wc_http_port = 0,
     wc_log_level = ''info'', wc_use_https = True, wc_tls_cert_fingerprint = [], wc_host_keychain_password = []\<rparr>"

section \<open>A process that has died\<close>

lemma ip_loop_fails:
  assumes "\<And>h. \<exists>r h'. run_process H [''tart'', ''ip'', name, ''--wait'', ''10''] h = (Inr r, h') \<and> px_status r \<noteq> 0 \<and> vms h' = vms h"
  shows "\<exists>e h'. ip_loop H name n err h = (Inl e, h') \<and> vms h' = vms h"
proof (induction n arbitrary: err h)
  case (Suc n)
  obtain r h1 where "run_process H [''tart'', ''ip'', name, ''--wait'', ''10''] h = (Inr r, h1)" "px_status r \<noteq> 0" "vms h1 = vms h"
    using assms by blast
  with Suc [of _ h1] show ?case by (simp add: tart_exec_def)
qed simp

lemma spawn_unused [simp]:
  "tart_exec (H\<lparr>spawn_process := s\<rparr>) = tart_exec H" "tart_exists (H\<lparr>spawn_process := s\<rparr>) = tart_exists H"
  "tart_ip (H\<lparr>spawn_process := s\<rparr>) = tart_ip H" "setState (H\<lparr>spawn_process := s\<rparr>) = setState H"
proof -
  show e: "tart_exec (H\<lparr>spawn_process := s\<rparr>) = tart_exec H" by (intro ext) (simp add: tart_exec_def)
  then show "tart_exists (H\<lparr>spawn_process := s\<rparr>) = tart_exists H" by (intro ext) (simp add: tart_exists_def)
  have "ip_loop (H\<lparr>spawn_process := s\<rparr>) name n err h = ip_loop H name n err h" for name n err h
    by (induction n arbitrary: err h) (auto simp: e split: prod.splits sum.splits)
  then show "tart_ip (H\<lparr>spawn_process := s\<rparr>) = tart_ip H" by (intro ext) (simp add: tart_ip_def)
  show "setState (H\<lparr>spawn_process := s\<rparr>) = setState H" by (intro ext) (simp add: setState_def)
qed

lemma waiting_round:
  assumes "tart_works H vms" and "rt_desired rt = ''running''" and "rt_process rt" and "rt_vm_name rt \<in> vms h"
    and "\<And>h. \<exists>r h'. run_process H [''tart'', ''ip'', rt_vm_name rt, ''--wait'', ''10''] h = (Inr r, h') \<and> px_status r \<noteq> 0 \<and> vms h' = vms h"
  shows "\<exists>h'. runtime_reconcile H cfg rt h = (setState H VStarting None h rt, h') \<and>
    runtime_reconcile (H\<lparr>spawn_process := spawn\<rparr>) cfg rt h = (setState H VStarting None h rt, h') \<and> vms h' = vms h"
proof -
  obtain b1 h1 where e1: "tart_exists H (rt_vm_name rt) h = (b1, h1)" by force
  from tart_get [OF assms(1) e1] assms(4) have b1: b1 "vms h1 = vms h" by simp_all
  obtain b2 h2 where e2: "tart_exists H (rt_vm_name rt) h1 = (b2, h2)" by force
  from tart_get [OF assms(1) e2] assms(4) b1 have b2: b2 "vms h2 = vms h" by simp_all
  obtain e h3 where "tart_ip H (rt_vm_name rt) 5 h2 = (Inl e, h3)" "vms h3 = vms h2"
    using ip_loop_fails [of H "rt_vm_name rt" vms, OF assms(5)] unfolding tart_ip_def by blast
  with e1 e2 b1 b2 assms(2,3) show ?thesis
    by (simp add: runtime_reconcile_def ensureRunning_def prepare_vm_def currentIPAddress_def Let_def)
qed

text \<open>
  C18: A runtime keeps the handle of the process it has started, whether that process still runs or
  not.  If the process has died and the machine therefore has no address, every later round leaves
  the workstation as starting, without an error, and starts no process: it makes no difference what
  starting one would do.  Only a stop brings the workstation back.
\<close>

theorem lost_process_never_restarted:
  assumes "tart_works H vms" and "rt_desired rt = ''running''" and "rt_process rt" and "rt_vm_name rt \<in> vms h"
    and "\<And>h. \<exists>r h'. run_process H [''tart'', ''ip'', rt_vm_name rt, ''--wait'', ''10''] h = (Inr r, h') \<and> px_status r \<noteq> 0 \<and> vms h' = vms h"
  shows "\<exists>rt' h'. ((\<lambda>(r, g). runtime_reconcile H cfg r g) ^^ Suc n) (rt, h) = (rt', h') \<and>
      ((\<lambda>(r, g). runtime_reconcile (H\<lparr>spawn_process := spawn\<rparr>) cfg r g) ^^ Suc n) (rt, h) = (rt', h') \<and>
      rt_state rt' = VStarting \<and> rt_last_error rt' = None"
proof -
  let ?f = "\<lambda>(r, g). runtime_reconcile H cfg r g" and ?g = "\<lambda>(r, g). runtime_reconcile (H\<lparr>spawn_process := spawn\<rparr>) cfg r g"
  have "\<exists>rt' h'. (?f ^^ Suc n) (rt, h) = (rt', h') \<and> (?g ^^ Suc n) (rt, h) = (rt', h') \<and> rt_state rt' = VStarting \<and>
      rt_last_error rt' = None \<and> rt_desired rt' = ''running'' \<and> rt_process rt' \<and> rt_vm_name rt' = rt_vm_name rt \<and>
      rt_vm_name rt \<in> vms h'"
  proof (induction n)
    case 0
    then show ?case using waiting_round [OF assms, of cfg spawn] assms(2-4) by auto
  next
    case (Suc n)
    then obtain rt' h' where i: "(?f ^^ Suc n) (rt, h) = (rt', h')" "(?g ^^ Suc n) (rt, h) = (rt', h')"
      and "rt_desired rt' = ''running''" "rt_process rt'" "rt_vm_name rt' = rt_vm_name rt" "rt_vm_name rt \<in> vms h'" by blast
    then show ?case
      using waiting_round [OF assms(1), of rt' h' cfg spawn] assms(5) unfolding funpow.simps(2) [of "Suc n"] o_apply i by auto
  qed
  then show ?thesis by blast
qed

theorem lost_process_never_restarted_witness:
  "\<exists>rt' h'. ((\<lambda>(r, g). runtime_reconcile sample_machine sample_worker_config r g) ^^ Suc 9) (sample_runtime, [''ws-k1'']) = (rt', h') \<and>
     rt_state rt' = VStarting \<and> rt_last_error rt' = None"
proof -
  have "rt_desired sample_runtime = ''running''" "rt_process sample_runtime" "rt_vm_name sample_runtime = ''ws-k1''"
    by (simp_all add: sample_runtime_def)
  moreover have "\<exists>r h'. run_process sample_machine [''tart'', ''ip'', ''ws-k1'', ''--wait'', ''10''] h = (Inr r, h') \<and>
      px_status r \<noteq> 0 \<and> set h' = set h" for h
    by (simp add: sample_machine_def sample_command_def)
  ultimately show ?thesis
    using lost_process_never_restarted [OF sample_machine_works, where rt = sample_runtime
        and h = "[''ws-k1'']" and cfg = sample_worker_config and n = 9] by (simp del: funpow.simps) blast
qed

end
