(* ===== verification/Fleet.thy ===== *)
theory Fleet
  imports Registration AgentLoop AgentWork
begin

text \<open>
  The server and the agent of a worker together: what the server's answers look like on the wire, the
  agent's calls as requests to the server, and what a round of the agent does to both.
\<close>

section \<open>Answers on the wire\<close>

text \<open>
  The bodies the handlers hand to \<^verbatim>\<open>json.NewEncoder(w).Encode\<close>, as far as agents read them; \<open>other\<close> are the
  rest.  Maps are written with sorted keys, and the encoder ends with a newline.
\<close>

definition desired_json :: "id \<times> string \<times> int \<times> string \<Rightarrow> json" where
  "desired_json d = (case d of (i, name, slot, desired) \<Rightarrow> JObj
     [(''id'', JStr i), (''vm_name'', JStr name), (''slot'', JNum (show_int slot)), (''desired_power_state'', JStr desired)])"

definition pending_json :: "pending_resp \<Rightarrow> json" where
  "pending_json p = JObj ([(''session_id'', JStr (pr_session_id p)), (''target'', JStr (pr_target p))] @
     (if pr_vm_id p = [] then [] else [(''vm_id'', JStr (pr_vm_id p))]) @
     [(''port'', JNum (show_int (pr_port p))), (''token'', JStr (pr_token p))])"

definition payload_json :: "(payload \<Rightarrow> json) \<Rightarrow> payload \<Rightarrow> json" where
  "payload_json other v = (case v of
     PHeartbeat status ds \<Rightarrow> JObj [(''status'', JStr status), (''desired_workstations'', JArr (map desired_json ds))]
   | PRegistered workerID poolSize baseImage token \<Rightarrow> JObj
       ([(''base_image'', JStr baseImage), (''pool_size'', JNum (show_int poolSize)), (''worker_id'', JStr workerID)] @
        (case token of None \<Rightarrow> [] | Some t \<Rightarrow> [(''worker_token'', JStr t)]))
   | PPending ps \<Rightarrow> JArr (map pending_json ps)
   | PStrings kvs \<Rightarrow> JObj (sort_key fst (map (\<lambda>(k, s). (k, JStr s)) kvs))
   | _ \<Rightarrow> other v)"

fun response_text :: "(payload \<Rightarrow> json) \<Rightarrow> response \<Rightarrow> string" where
  "response_text other (RJson _ v) = print_json (payload_json other v) @ [CHR 0x0A]"
| "response_text other (RText _ _ body) = body"
| "response_text other (RFile _ body) = body"
| "response_text other _ = []"

section \<open>The calls of an agent\<close>

text \<open>
  A call as the server sees it, for the host name \<open>host\<close> the agent asks.  The paths of the agent hold no
  escaped characters.
\<close>

definition to_request :: "string \<Rightarrow> http_request \<Rightarrow> request" where
  "to_request host q =
     (let (path, query, _) = cut (hq_path q) ''?''
      in \<lparr>rq_method = hq_method q, rq_path = path, rq_segments = tl (split_on CHR ''/'' path), rq_raw_query = query,
          rq_host = host, rq_forwarded_host = [], rq_authorization = ''Bearer '' @ hq_token q, rq_access_jwt = [],
          rq_access_cookie = None, rq_path_id = [], rq_path_version = [],
          rq_body = (case hq_body q of None \<Rightarrow> [] | Some j \<Rightarrow> print_json j), rq_form = None, rq_worker = None,
          rq_member = None\<rparr>)"

text \<open>
  The server takes a call to its end with the oracle values \<open>plan\<close> gives it; a handler that panics or does
  not end leaves the agent without an answer.
\<close>

record fleet =
  fl_server :: server
  fl_host :: string
  fl_plan :: "request \<Rightarrow> world \<Rightarrow> env list"
  fl_other :: "payload \<Rightarrow> json"

definition answer :: "fleet \<Rightarrow> http_request \<Rightarrow> world \<Rightarrow> (string + nat \<times> string) \<times> world" where
  "answer F q w =
     (let r = to_request (fl_host F) q; (w', p) = exec (fl_plan F r w) w (serve (fl_server F) 0 [] r)
      in (case p of
            Done RPanic \<Rightarrow> Inl ''connection reset''
          | Done resp \<Rightarrow> Inr (status_of resp, response_text (fl_other F) resp)
          | Act _ \<Rightarrow> Inl ''timeout'', w'))"

text \<open>The machine of a worker beside the world of the server.\<close>

definition on_machine :: "('m \<Rightarrow> 'a \<times> 'm) \<Rightarrow> world \<times> 'm \<Rightarrow> 'a \<times> world \<times> 'm" where
  "on_machine f s = (let (x, m) = f (snd s) in (x, (fst s, m)))"

definition fleet_ops :: "fleet \<Rightarrow> 'm host_ops \<Rightarrow> (world \<times> 'm) host_ops" where
  "fleet_ops F M = \<lparr>run_process = (\<lambda>args. on_machine (run_process M args)),
     spawn_process = (\<lambda>args. on_machine (spawn_process M args)), read_json = (\<lambda>p s. read_json M p (snd s)),
     write_json = (\<lambda>p j. on_machine (write_json M p j)), write_text = (\<lambda>p t. on_machine (write_text M p t)),
     http_call = (\<lambda>q s. let (x, w) = answer F q (fst s) in (x, (w, snd s))),
     url_components = url_components M, poll_rounds = (\<lambda>t s. poll_rounds M t (snd s)),
     host_clock = (\<lambda>s. host_clock M (snd s)), home_directory = home_directory M, physical_cores = physical_cores M,
     total_disk_gib = total_disk_gib M\<rparr>"

lemma fleet_ops_simps [simp]:
  "run_process (fleet_ops F M) args (w, m) = (fst (run_process M args m), (w, snd (run_process M args m)))"
  "spawn_process (fleet_ops F M) args (w, m) = (fst (spawn_process M args m), (w, snd (spawn_process M args m)))"
  "write_json (fleet_ops F M) p j (w, m) = (fst (write_json M p j m), (w, snd (write_json M p j m)))"
  "http_call (fleet_ops F M) q (w, m) = (fst (answer F q w), (snd (answer F q w), m))"
  "host_clock (fleet_ops F M) (w, m) = host_clock M m"
  by (simp_all add: fleet_ops_def on_machine_def case_prod_beta)

lemma fleet_works:
  fixes M :: "'m host_ops"
  assumes "tart_works M vms"
  shows "tart_works (fleet_ops F M) (\<lambda>s. vms (snd s))"
  unfolding tart_works_def tart_frame_def
proof (intro conjI allI impI)
  fix name :: string and s :: "world \<times> 'm"
  obtain w m where s: "s = (w, m)" by force
  obtain r m' where "run_process M [''tart'', ''get'', name] m = (Inr r, m')" "vms m' = vms m" "px_status r = 0 \<longleftrightarrow> name \<in> vms m"
    using tart_get_law [OF assms] by metis
  then show "\<exists>r s'. run_process (fleet_ops F M) [''tart'', ''get'', name] s = (Inr r, s') \<and> vms (snd s') = vms (snd s) \<and>
      (px_status r = 0 \<longleftrightarrow> name \<in> vms (snd s))"
    using s by simp
  assume name: "name \<in> vms (snd s)"
  then obtain r m' where "run_process M [''tart'', ''stop'', name] m = (Inr r, m')" "vms m' = vms m"
    "px_status r = 0 \<or> contains (toLower (px_stderr r)) ''not running''"
    using tart_stop_law [OF assms, of name m] s by auto
  then show "\<exists>r s'. run_process (fleet_ops F M) [''tart'', ''stop'', name] s = (Inr r, s') \<and> vms (snd s') = vms (snd s) \<and>
      (px_status r = 0 \<or> contains (toLower (px_stderr r)) ''not running'')"
    using s by simp
  obtain r m' where "run_process M [''tart'', ''delete'', name] m = (Inr r, m')" "px_status r = 0" "vms m' = vms m - {name}"
    using tart_delete_law [OF assms, of name m] s name by auto
  then show "\<exists>r s'. run_process (fleet_ops F M) [''tart'', ''delete'', name] s = (Inr r, s') \<and> px_status r = 0 \<and>
      vms (snd s') = vms (snd s) - {name}"
    using s by simp
next
  fix args :: "string list" and path :: string and j :: json and s :: "world \<times> 'm"
  obtain w m where s: "s = (w, m)" by force
  show "vms (snd (snd (run_process (fleet_ops F M) args s))) \<subseteq> vms (snd s) \<union> {name. \<exists>source. args = [''tart'', ''clone'', source, name]}"
    using tart_works_frame [OF assms] s by (simp add: tart_frame_def)
  show "vms (snd (snd (spawn_process (fleet_ops F M) args s))) \<subseteq> vms (snd s)"
    using tart_works_frame [OF assms] s by (simp add: tart_frame_def)
  show "vms (snd (snd (write_json (fleet_ops F M) path j s))) \<subseteq> vms (snd s)"
    using tart_works_frame [OF assms] s by (simp add: tart_frame_def)
qed

section \<open>Wire formats agree\<close>

lemma desired_json_roundtrip:
  assumes "int64_ok slot"
  shows "decode_desired (desired_json (i, n, slot, d)) = Some \<lparr>dv_id = i, dv_vm_name = n, dv_slot = slot, dv_desired = d\<rparr>"
  using assms by (simp add: decode_desired_def desired_json_def get_string_def get_int_def show_int_atoi int64_ok_def)

definition desired_vm_of :: "workstation \<Rightarrow> desired_vm" where
  "desired_vm_of w = \<lparr>dv_id = ws_id w, dv_vm_name = ws_vm_name w, dv_slot = ws_slot w,
     dv_desired = show_desired (ws_desired_power_state w)\<rparr>"

lemma unmarshal_line: "json_ok v \<Longrightarrow> unmarshal (print_json v @ [CHR 0x0A]) = Some v"
  using parse_print [of v "[CHR 0x0A]"] by (simp add: unmarshal_def stops_def skip_ws_def is_ws_def is_digit_def)

lemma decode_all_map:
  "(\<And>x. x \<in> set xs \<Longrightarrow> f (g x) = Some (h x)) \<Longrightarrow> decode_all f (map g xs) = Some (map h xs)"
  by (induction xs) simp_all

text \<open>What the server lists for a worker is what its agent reads.\<close>

lemma heartbeat_reply:
  assumes "\<And>v. v \<in> set rows \<Longrightarrow> int64_ok (ws_slot v)"
  shows "Option.bind (unmarshal (response_text other (writeJSON 200 (PHeartbeat ''ok'' (map desired_entry
      (map (\<lambda>w. \<lparr>dw_id = ws_id w, dw_vm_name = ws_vm_name w, dw_slot = ws_slot w,
         dw_desired_power_state = ws_desired_power_state w\<rparr>) rows)))))) decode_heartbeat =
    Some \<lparr>hb_status = ''ok'', hb_desired = map desired_vm_of rows\<rparr>"
proof -
  let ?row = "\<lambda>w. (ws_id w, ws_vm_name w, ws_slot w, show_desired (ws_desired_power_state w))"
  have "json_ok (desired_json (?row v))" for v by (auto simp: desired_json_def)
  then have "json_ok (payload_json other (PHeartbeat ''ok'' (map ?row rows)))"
    by (auto simp: payload_json_def list_all_iff)
  moreover have "decode_all decode_desired (map (desired_json \<circ> ?row) rows) = Some (map desired_vm_of rows)"
    by (rule decode_all_map) (simp add: assms desired_json_roundtrip desired_vm_of_def)
  ultimately show ?thesis
    by (simp add: writeJSON_def unmarshal_line comp_def desired_entry_def)
      (simp add: payload_json_def decode_heartbeat_def get_string_def get_list_def comp_def)
qed

definition report_of :: "heartbeat_status \<Rightarrow> status_report" where
  "report_of s = \<lparr>rep_workstation_id = hs_workstation_id s, rep_power_state = hs_power_state s,
     rep_ip_address = or_else (hs_ip_address s) [], rep_last_error = or_else (hs_last_error s) []\<rparr>"

text \<open>What the agent reports is what the server reads.\<close>

lemma heartbeat_body:
  "decode_struct True heartbeat_fields (encode_heartbeat ss) [] = Some (map report_of ss)"
proof -
  have one: "decode_struct True status_fields (encode_status s) zero_report = Some (report_of s)" for s
    by (cases "hs_ip_address s"; cases "hs_last_error s")
      (simp_all add: decode_struct_def encode_status_def status_fields_def optional_member_def find_field_def
        zero_report_def report_of_def or_else_def)
  have "decode_elems (\<lambda>s e. decode_struct True status_fields e s) zero_report [] (map encode_status ss) = Some (map report_of ss)"
    by (induction ss) (simp_all add: one)
  then show ?thesis
    by (simp add: decode_struct_def encode_heartbeat_def heartbeat_fields_def find_field_def decode_slice_def)
qed

lemma heartbeat_json_ok: "json_ok (encode_heartbeat ss)"
  by (auto simp: encode_heartbeat_def encode_status_def optional_member_def list_all_iff split: option.splits)

section \<open>Reports\<close>

lemma report_row:
  assumes "find_workstation k (db_workstations (ws_apply now (Report wk r) d)) = Some w'"
  obtains w where "find_workstation k (db_workstations d) = Some w" "same_identity w' w"
    "ws_desired_power_state w' = ws_desired_power_state w"
proof (cases "updateWorkstationStatus now wk r d")
  case (Inl e)
  then show thesis using assms that [of w'] by (simp add: same_identity_def)
next
  case (Inr d')
  then show thesis using assms that
    by (auto simp: updateWorkstationStatus_def Let_def wst.lookup_modify wst.lookup_remove error_row_def report_row_def
        same_identity_def ws_place_def split: option.splits if_splits)
qed

text \<open>A workstation that is being deleted, or gone.\<close>

definition deleting :: "id \<Rightarrow> id \<Rightarrow> db \<Rightarrow> bool" where
  "deleting wk k d = (case find_workstation k (db_workstations d) of
     None \<Rightarrow> True | Some w \<Rightarrow> ws_desired_power_state w = DesiredDeleted \<and> ws_worker_id w = wk)"

lemma report_deleting: "deleting wk k d \<Longrightarrow> deleting wk k (ws_apply now (Report wk' r) d)"
  unfolding deleting_def
  by (auto simp del: ws_apply.simps split: option.splits elim!: report_row dest: same_identityD(5))

lemma report_gone: "find_workstation k (db_workstations d) = None \<Longrightarrow>
  find_workstation k (db_workstations (ws_apply now (Report wk r) d)) = None"
  by (rule ccontr) (auto simp del: ws_apply.simps elim!: report_row)

lemma report_deletes:
  assumes "deleting wk k d" and "rep_workstation_id r = k" and "rep_power_state r = ''deleted''"
  shows "find_workstation k (db_workstations (ws_apply now (Report wk r) d)) = None"
proof (cases "find_workstation k (db_workstations d)")
  case (Some w)
  with assms(1) have "ws_desired_power_state w = DesiredDeleted" "ws_worker_id w = wk" by (simp_all add: deleting_def)
  moreover have "ws_id w = k" using Some by (auto dest: wst.lookup_SomeD)
  ultimately have "phase_of (ws_apply now (Report wk r) d) k = None"
    using Some assms(2,3) unfolding report_phase by (simp add: phase_simps)
  then show ?thesis by (simp add: phase_of_def del: ws_apply.simps)
qed (rule report_gone)

definition reports :: "time list \<Rightarrow> id \<Rightarrow> status_report list \<Rightarrow> (time \<times> ws_event) list" where
  "reports ts wk rs = zip ts (map (Report wk) rs)"

lemma reports_simps [simp]:
  "reports [] wk rs = []" "reports (t # ts) wk (r # rs) = (t, Report wk r) # reports ts wk rs" "reports ts wk [] = []"
  by (simp_all add: reports_def)

lemma run_reports_gone: "find_workstation k (db_workstations d) = None \<Longrightarrow>
  find_workstation k (db_workstations (ws_run (reports ts wk rs) d)) = None"
proof (induction rs arbitrary: ts d)
  case (Cons r rs)
  then show ?case using report_gone by (cases ts) (simp_all del: ws_apply.simps)
qed simp

lemma run_reports_delete:
  "length ts = length rs \<Longrightarrow> deleting wk k d \<Longrightarrow> r \<in> set rs \<Longrightarrow> rep_workstation_id r = k \<Longrightarrow>
   rep_power_state r = ''deleted'' \<Longrightarrow> find_workstation k (db_workstations (ws_run (reports ts wk rs) d)) = None"
proof (induction rs arbitrary: ts d)
  case (Cons r' rs)
  then obtain t ts' where ts: "ts = t # ts'" by (cases ts) auto
  show ?case
  proof (cases "r = r'")
    case True
    then show ?thesis using Cons.prems ts run_reports_gone report_deletes by (simp del: ws_apply.simps)
  next
    case False
    then show ?thesis using Cons ts report_deleting by (simp del: ws_apply.simps)
  qed
qed simp

lemma ws_run_ok: "db_ok d \<Longrightarrow> db_ok (ws_run evs d)"
  by (induction evs d rule: ws_run.induct) (auto simp del: ws_apply.simps intro: dbs.step_invar db_step.power)

section \<open>A heartbeat at the server\<close>

lemma serve_heartbeat:
  assumes "rq_method r = ''POST''" and "rq_segments r = [''api'', ''v1'', ''workers'', i, ''heartbeat'']" and "i \<noteq> []"
  shows "serve sv n reads r = requireWorkerHost (sv_handler sv) (requireWorkerAuth (sv_handler sv) handleWorkerHeartbeat)
    (with_path_values [(''id'', i)] (r\<lparr>rq_worker := None, rq_member := None\<rparr>))"
  using assms
  by (simp add: serve_def mux_handler_def registerRoutes_def handle_func_def api_def method_matches_def)

abbreviation calm :: "env list \<Rightarrow> bool" where
  "calm es \<equiv> list_all (\<lambda>e. or_fault e = NoFault) es"

lemma exec_reports:
  "calm es \<Longrightarrow> length es = length rs \<Longrightarrow>
   exec (es @ es') w (each (\<lambda>rep k. db_exec (\<lambda>orc. updateWorkstationStatus (or_db_now orc) wk rep) (\<lambda>_. k)) rs k) =
   exec es' (w\<lparr>wd_db := ws_run (reports (map or_db_now es) wk rs) (wd_db w)\<rparr>) k"
proof (induction rs arbitrary: es w)
  case (Cons r rs)
  then obtain e es1 where es: "es = e # es1" by (cases es) auto
  then show ?case using Cons by (auto split: sum.splits)
qed simp

text \<open>The database after a heartbeat of worker \<open>wk\<close> with reports \<open>rs\<close>.\<close>

definition after_heartbeat :: "time \<Rightarrow> time \<Rightarrow> time list \<Rightarrow> id \<Rightarrow> status_report list \<Rightarrow> db \<Rightarrow> db" where
  "after_heartbeat t1 t2 ts wk rs d = ws_run (reports ts wk rs) (updateHeartbeat t2 wk (touchWorkerTokenUsage t1 wk d))"

lemma split_plan:
  assumes "n + 4 \<le> length es"
  obtains e1 e2 e3 es1 e4 es2 where "es = e1 # e2 # e3 # es1 @ e4 # es2" and "length es1 = n"
proof -
  obtain e1 es1 where 1: "es = e1 # es1" using assms by (cases es) auto
  obtain e2 es2 where 2: "es1 = e2 # es2" using assms 1 by (cases es1) auto
  obtain e3 fs where "es2 = e3 # fs" using assms 1 2 by (cases es2) auto
  with 1 2 have es: "es = e1 # e2 # e3 # fs" by simp
  have "fs = take n fs @ fs ! n # drop (Suc n) fs" using assms es by (simp add: id_take_nth_drop)
  moreover have "length (take n fs) = n" using assms es by simp
  ultimately show thesis using that es by metis
qed

lemma exec_heartbeat:
  assumes "rq_method r = ''POST''" and "rq_segments r = [''api'', ''v1'', ''workers'', wk_id row, ''heartbeat'']"
    and "wk_id row \<noteq> []" and "matchesWorkerHost (h_lib (sv_handler sv)) (h_config (sv_handler sv)) r"
    and "authenticateWorkerToken (bearerToken (rq_authorization r)) (wd_db w) = Inr row"
    and "decodeJSONBody heartbeat_fields [] r = Some rs" and "calm es" and "length rs + 4 \<le> length es"
  obtains t1 t2 ts where "length ts = length rs" and "exec es w (serve sv n reads r) =
    (w\<lparr>wd_db := after_heartbeat t1 t2 ts (wk_id row) rs (wd_db w)\<rparr>, Done (writeJSON 200 (PHeartbeat ''ok''
      (map desired_entry (listDesiredWorkstationsByWorker (wk_id row) (after_heartbeat t1 t2 ts (wk_id row) rs (wd_db w)))))))"
proof -
  obtain e1 e2 e3 es1 e4 es2 where es: "es = e1 # e2 # e3 # es1 @ e4 # es2" and len: "length es1 = length rs"
    using assms(8) by (rule split_plan)
  have calm: "calm es1" "or_fault e1 = NoFault" "or_fault e2 = NoFault" "or_fault e3 = NoFault" "or_fault e4 = NoFault"
    using assms(7) es by simp_all
  let ?d = "after_heartbeat (or_db_now e2) (or_db_now e3) (map or_db_now es1) (wk_id row) rs (wd_db w)"
  have "matchesWorkerHost (h_lib (sv_handler sv)) (h_config (sv_handler sv))
      (r\<lparr>rq_worker := None, rq_member := None, rq_path_id := wk_id row, rq_path_version := []\<rparr>)"
    using assms(4) matchesWorkerHost_context [where vs = "[(''id'', wk_id row)]" and r = r and x = None and y = None]
    by (simp add: with_path_values_def path_value_def)
  then have "exec es w (serve sv n reads r) = (w\<lparr>wd_db := ?d\<rparr>, Done (writeJSON 200 (PHeartbeat ''ok''
      (map desired_entry (listDesiredWorkstationsByWorker (wk_id row) ?d)))))"
    using assms(5) assms(6) [unfolded decodeJSONBody_def] calm len
    by (simp add: decodeJSONBody_def es serve_heartbeat [OF assms(1-3)] requireWorkerHost_def requireWorkerAuth_def handleWorkerHeartbeat_def
        requireWorkerPathMatch_def requireCurrentWorker_def currentWorker_def with_path_values_def path_value_def
        exec_reports after_heartbeat_def)
  then show thesis using that [of "map or_db_now es1"] len by simp
qed

section \<open>The way to the server\<close>

lemma generateWorkerID_plain:
  assumes "c \<in> set (generateWorkerID u)"
  shows "is_alnum c \<or> c = CHR ''-''"
proof -
  have hex: "is_alnum (hex_char n)" if "n < 16" for n
    using that by (auto simp: is_alnum_def hex_char_def Let_def)
  have "is_alnum c" if "c \<in> set (hexEncode s)" for s
    using that by (auto simp: hexEncode_def less_mult_imp_div_less intro!: hex)
  moreover have "is_alnum CHR ''w''" by code_simp
  ultimately show ?thesis using assms by (auto simp: generateWorkerID_def)
qed

lemma heartbeat_request:
  assumes "CHR ''/'' \<notin> set i" and "CHR ''?'' \<notin> set i"
  shows "rq_segments (to_request host \<lparr>hq_base = b, hq_method = m, hq_path = ''/api/v1/workers/'' @ i @ ''/heartbeat'',
    hq_token = t, hq_body = j\<rparr>) = [''api'', ''v1'', ''workers'', i, ''heartbeat'']"
proof -
  let ?p = "''/api/v1/workers/'' @ i @ ''/heartbeat''"
  have "cut ?p ''?'' = (?p, [], False)"
    using assms(2) by (intro cut_single_none) simp
  moreover have "split_on CHR ''/'' (i @ ''/heartbeat'') = [i, ''heartbeat'']"
    using assms(1) by (simp add: split_on_append split_on_none)
  ultimately show ?thesis by (simp add: to_request_def)
qed

lemma print_elems_length: "length vs \<le> length (print_elems vs)"
  by (induction vs) auto

lemma heartbeat_length: "length ss \<le> length (print_json (encode_heartbeat ss))"
  using print_elems_length [of "map encode_status ss"] by (simp add: encode_heartbeat_def)

text \<open>
  A client that can reach the server: it has an address, the identity and a token without spaces, the
  server answers to the host name it asks, and the server suffers no faults while it serves a call.
\<close>

definition connected :: "fleet \<Rightarrow> api_client \<Rightarrow> id \<Rightarrow> bool" where
  "connected F c wk = (ac_base_url c \<noteq> None \<and> ac_worker_id c = wk \<and> list_all (\<lambda>ch. \<not> is_space ch) (ac_auth_token c) \<and>
     (\<forall>r. rq_host r = fl_host F \<and> rq_forwarded_host r = [] \<longrightarrow>
        matchesWorkerHost (h_lib (sv_handler (fl_server F))) (h_config (sv_handler (fl_server F))) r) \<and>
     (\<forall>r w. calm (fl_plan F r w) \<and> length (rq_body r) + 4 \<le> length (fl_plan F r w)))"

definition rows_of :: "id \<Rightarrow> db \<Rightarrow> workstation list" where
  "rows_of wk d = sort_key ws_slot (filter (\<lambda>w. ws_worker_id w = wk) (db_workstations d))"

lemma db_ok_slot_int64:
  assumes "db_ok d" and "v \<in> set (db_workstations d)"
  shows "int64_ok (ws_slot v)"
proof -
  have "fits d (ws_place v)" "0 \<le> ws_slot v" "list_all (\<lambda>w. int4_ok (wk_pool_size w)) (db_workers d)"
    using assms by (auto simp: db_ok_def capacity_ok_def schema_defs list_all_iff)
  then obtain k where "k \<in> set (db_workers d)" "ws_slot v < wk_pool_size k" "int4_ok (wk_pool_size k)"
    by (auto simp: fits_def ws_place_def list_all_iff)
  then show ?thesis using \<open>0 \<le> ws_slot v\<close> by (simp add: int4_ok_def int64_ok_def)
qed

lemma after_heartbeat_ok: "db_ok d \<Longrightarrow> db_ok (after_heartbeat t1 t2 ts wk rs d)"
  unfolding after_heartbeat_def
  by (intro ws_run_ok dbs.step_invar [OF db_step.heartbeat] dbs.step_invar [OF db_step.touch])

lemma sendHeartbeat_ok:
  assumes "connected F c wk" and "db_ok (wd_db w)" and "authenticateWorkerToken (ac_auth_token c) (wd_db w) = Inr row"
    and "wk_id row = wk" and "length (print_json (encode_heartbeat ss)) \<le> maxJSONBodyBytes"
  obtains d' t1 t2 ts where "length ts = length ss" and "d' = after_heartbeat t1 t2 ts wk (map report_of ss) (wd_db w)"
    and "sendHeartbeat (fleet_ops F M) c ss (w, m) =
      (\<lparr>hb_status = ''ok'', hb_desired = map desired_vm_of (rows_of wk d')\<rparr>, (w\<lparr>wd_db := d'\<rparr>, m))"
proof -
  obtain base where base: "ac_base_url c = Some base" using assms(1) by (auto simp: connected_def)
  have "row \<in> set (db_workers (wd_db w))" using assms(3) authenticateWorkerToken_InrD by blast
  then have gen: "wk = generateWorkerID (wk_hardware_uuid row)"
    using assms(2,4) by (auto simp: db_ok_def schema_defs list_all_iff)
  have "\<not> is_alnum CHR ''/''" "\<not> is_alnum CHR ''?''" by code_simp+
  then have plain: "CHR ''/'' \<notin> set wk" "CHR ''?'' \<notin> set wk" "wk \<noteq> []"
    using generateWorkerID_plain length_generateWorkerID [of "wk_hardware_uuid row"] unfolding gen by fastforce+
  define q where "q = \<lparr>hq_base = base, hq_method = ''POST'', hq_path = ''/api/v1/workers/'' @ wk @ ''/heartbeat'',
      hq_token = ac_auth_token c, hq_body = Some (encode_heartbeat ss)\<rparr>"
  define r where "r = to_request (fl_host F) q"
  have r: "rq_method r = ''POST''" "rq_host r = fl_host F" "rq_forwarded_host r = []"
    "rq_body r = print_json (encode_heartbeat ss)" "rq_authorization r = ''Bearer '' @ ac_auth_token c"
    by (simp_all add: r_def q_def to_request_def case_prod_beta)
  have path: "rq_segments r = [''api'', ''v1'', ''workers'', wk_id row, ''heartbeat'']"
    unfolding r_def q_def assms(4) by (rule heartbeat_request [OF plain(1,2)])
  have "bearerToken (rq_authorization r) = ac_auth_token c"
    unfolding r(5) using assms(1) by (intro bearerToken_of) (simp add: connected_def)
  then have auth: "authenticateWorkerToken (bearerToken (rq_authorization r)) (wd_db w) = Inr row" using assms(3) by simp
  have host: "matchesWorkerHost (h_lib (sv_handler (fl_server F))) (h_config (sv_handler (fl_server F))) r"
    using assms(1) r(2,3) unfolding connected_def by blast
  have "calm (fl_plan F r w) \<and> length (rq_body r) + 4 \<le> length (fl_plan F r w)"
    using assms(1) unfolding connected_def by blast
  then have plan: "calm (fl_plan F r w)" "length (map report_of ss) + 4 \<le> length (fl_plan F r w)"
    using heartbeat_length [of ss] unfolding r(4) by simp_all
  have body: "decodeJSONBody heartbeat_fields [] r = Some (map report_of ss)"
    by (simp add: decodeJSONBody_print [OF heartbeat_json_ok r(4) assms(5)] heartbeat_body)
  have "wk_id row \<noteq> []" using plain(3) assms(4) by simp
  from exec_heartbeat [OF r(1) path this host auth body plan, of 0 "[]"]
  obtain t1 t2 ts where ts: "length ts = length (map report_of ss)"
    and run: "exec (fl_plan F r w) w (serve (fl_server F) 0 [] r) =
      (w\<lparr>wd_db := after_heartbeat t1 t2 ts wk (map report_of ss) (wd_db w)\<rparr>, Done (writeJSON 200 (PHeartbeat ''ok''
        (map desired_entry (listDesiredWorkstationsByWorker wk (after_heartbeat t1 t2 ts wk (map report_of ss) (wd_db w)))))))"
    unfolding assms(4) by blast
  let ?d = "after_heartbeat t1 t2 ts wk (map report_of ss) (wd_db w)"
  have slots: "int64_ok (ws_slot v)" if "v \<in> set (rows_of wk ?d)" for v
    using that by (auto simp: rows_of_def intro: db_ok_slot_int64 [OF after_heartbeat_ok [OF assms(2)]])
  have "answer F q w = (Inr (200, response_text (fl_other F) (writeJSON 200 (PHeartbeat ''ok''
      (map desired_entry (listDesiredWorkstationsByWorker wk ?d))))), w\<lparr>wd_db := ?d\<rparr>)"
    using run by (simp add: answer_def r_def [symmetric] writeJSON_def)
  moreover have "ac_worker_id c = wk" using assms(1) by (simp add: connected_def)
  ultimately have "sendHeartbeat (fleet_ops F M) c ss (w, m) =
      (\<lparr>hb_status = ''ok'', hb_desired = map desired_vm_of (rows_of wk ?d)\<rparr>, (w\<lparr>wd_db := ?d\<rparr>, m))"
    using base heartbeat_reply [OF slots, of _ "fl_other F"]
    by (simp add: sendHeartbeat_def client_request_def q_def [symmetric] listDesiredWorkstationsByWorker_def
        rows_of_def [symmetric] del: append.simps)
  then show thesis using that ts by simp
qed

section \<open>The other calls of a round\<close>

text \<open>A step that leaves the workstations and the identities behind the tokens alone.\<close>

definition undisturbed :: "db \<Rightarrow> db \<Rightarrow> bool" where
  "undisturbed d d' = (db_workstations d' = db_workstations d \<and> (\<forall>tok row. authenticateWorkerToken tok d = Inr row \<longrightarrow>
     (\<exists>row'. authenticateWorkerToken tok d' = Inr row' \<and> wk_id row' = wk_id row)))"

lemma undisturbed_refl: "undisturbed d d"
  by (simp add: undisturbed_def)

lemma undisturbed_trans: "undisturbed d d' \<Longrightarrow> undisturbed d' d'' \<Longrightarrow> undisturbed d d''"
  unfolding undisturbed_def by metis

lemma query_row_update_where:
  "(\<And>r. P (f r) = P r) \<Longrightarrow> query_row P (update_where Q f t) = map_option (\<lambda>r. if Q r then f r else r) (query_row P t)"
  by (induction t) auto

lemma touch_undisturbed: "undisturbed d (touchWorkerTokenUsage now k d)"
  by (auto simp: undisturbed_def touchWorkerTokenUsage_def authenticateWorkerToken_def set_worker_def
      query_row_update_where split: option.splits)

definition touched :: "env \<Rightarrow> world \<Rightarrow> world \<Rightarrow> bool" where
  "touched e w w' = (wd_db w' = wd_db w \<or> (\<exists>t k. wd_db w' = touchWorkerTokenUsage t k (wd_db w)))"

lemma poll_reads: "conforms (\<lambda>_ _. True) (guar (\<lambda>_. False) (\<lambda>_. True)) (\<lambda>_. True) (handlePendingProxySessions r)"
proof -
  have "conforms (\<lambda>_ _. True) (guar (\<lambda>_. False) (\<lambda>_. True)) (\<lambda>_. True) (pending_loop k ss res)" for k ss res
    by (induction ss arbitrary: res)
      (auto simp: pendingSessionBelongsToWorker_def intro!: conforms_db_query conforms_proxy_close split: sum.splits)
  then show ?thesis
    unfolding handlePendingProxySessions_def requireCurrentWorker_def
    by (auto intro!: conforms_inspect_db split: option.splits)
qed

lemma poll_touches: "conforms (\<lambda>_ _. True) touched (\<lambda>_. True)
  (requireWorkerHost h (requireWorkerAuth h handlePendingProxySessions) r)"
proof -
  have poll: "conforms (\<lambda>_ _. True) touched (\<lambda>_. True) (handlePendingProxySessions r')" for r'
    by (rule conforms_mono [OF poll_reads]) (auto simp: guar_def touched_def)
  have "conforms (\<lambda>_ _. True) touched (\<lambda>_. True) (requireWorkerAuth h handlePendingProxySessions r)"
    unfolding requireWorkerAuth_def db_query_def db_exec_def db_tx_def
    by (auto simp: touched_def db_tx_fun_def poll intro!: conforms_atomic split: sum.splits fault.splits) blast+
  then show ?thesis by (simp add: requireWorkerHost_def)
qed

lemma serve_pending:
  assumes "rq_method r = ''GET''" and "rq_segments r = [''api'', ''v1'', ''proxy'', ''sessions'', ''pending'']"
  shows "serve sv n reads r = requireWorkerHost (sv_handler sv) (requireWorkerAuth (sv_handler sv) handlePendingProxySessions)
    (with_path_values [] (r\<lparr>rq_worker := None, rq_member := None\<rparr>))"
  using assms
  by (simp add: serve_def mux_handler_def registerRoutes_def handle_func_def api_def method_matches_def)

lemma poll_harmless:
  assumes "pollForProxySessions (fleet_ops F M) c (w, m) = (ps, (w', m'))" and "db_ok (wd_db w)"
  shows "m' = m" and "db_ok (wd_db w')" and "undisturbed (wd_db w) (wd_db w')"
proof -
  have "m' = m \<and> db_ok (wd_db w') \<and> undisturbed (wd_db w) (wd_db w')"
  proof (cases "ac_base_url c")
    case None
    then show ?thesis using assms by (auto simp: pollForProxySessions_def client_request_def undisturbed_refl)
  next
    case (Some base)
    define q where "q = \<lparr>hq_base = base, hq_method = ''GET'', hq_path = ''/api/v1/proxy/sessions/pending?worker_id='' @ ac_worker_id c,
      hq_token = ac_auth_token c, hq_body = None\<rparr>"
    define r where "r = to_request (fl_host F) q"
    have cut: "cut (''/api/v1/proxy/sessions/pending?worker_id='' @ x) ''?'' = (''/api/v1/proxy/sessions/pending'', ''worker_id='' @ x, True)" for x
      using cut_single [of "CHR ''?''" "''/api/v1/proxy/sessions/pending''" "''worker_id='' @ x"] by simp
    have r: "rq_method r = ''GET''" "rq_segments r = [''api'', ''v1'', ''proxy'', ''sessions'', ''pending'']"
      by (simp_all add: r_def q_def to_request_def cut del: append.simps)
    have "w' = snd (answer F q w) \<and> m' = m"
      using assms(1) Some
      by (auto simp: pollForProxySessions_def client_request_def q_def [symmetric] split: prod.splits sum.splits simp del: append.simps)
    moreover have "snd (answer F q w) = fst (exec (fl_plan F r w) w (serve (fl_server F) 0 [] r))"
      by (simp add: answer_def r_def [symmetric] case_prod_beta Let_def)
    ultimately obtain p where run: "exec (fl_plan F r w) w (serve (fl_server F) 0 [] r) = (w', p)" and m: "m' = m"
      by (metis prod.collapse)
    have "db_ok (wd_db w') \<and> undisturbed (wd_db w) (wd_db w') \<and> conforms (\<lambda>_ _. True) touched (\<lambda>_. True) p"
    proof (rule conforms_exec [where ok = "\<lambda>_. True" and I = "\<lambda>u. db_ok (wd_db u)" and R = "\<lambda>u v. undisturbed (wd_db u) (wd_db v)", OF _ _ _ _ _ _ _ run])
      show "conforms (\<lambda>_ _. True) touched (\<lambda>_. True) (serve (fl_server F) 0 [] r)"
        unfolding serve_pending [OF r] by (rule poll_touches)
    qed (use assms(2) in \<open>auto simp: touched_def undisturbed_refl touch_undisturbed list_all_iff
        intro: undisturbed_trans dbs.step_invar [OF db_step.touch]\<close>)
    with m show ?thesis by simp
  qed
  then show "m' = m" "db_ok (wd_db w')" "undisturbed (wd_db w) (wd_db w')" by blast+
qed

end
