(* ===== verification/FleetRound.thy ===== *)
theory FleetRound
  imports Fleet
begin

text \<open>
  A round of an agent at a server: what the calls of the round do to the two sides, that the heartbeat
  brings the agent in step with the database, and that a released workstation is gone from both after
  one round.
\<close>

section \<open>The machine does not touch the server\<close>

text \<open>Counting every machine as present once the world has changed, the frame lemmas show that it does not.\<close>

definition changed :: "world \<Rightarrow> world \<times> 'm \<Rightarrow> string set" where
  "changed w s = (if fst s = w then {} else UNIV)"

lemma fleet_frame: "tart_frame (fleet_ops F M) (changed w)"
  by (auto simp: tart_frame_def changed_def fleet_ops_def on_machine_def split: prod.splits)

lemma adds_only_world:
  assumes "adds_only (changed w) N f" and "N = {} \<or> (\<exists>x. N = {x})" and "f (w, m) = (x, (w', m'))"
  shows "w' = w"
proof -
  have "N \<noteq> UNIV" using assms(2) by (metis UNIV_I empty_iff singletonD list.distinct(1))
  moreover have "changed w (w', m') \<subseteq> changed w (w, m) \<union> N" by (rule adds_onlyD [OF assms(1,3)])
  ultimately show ?thesis by (auto simp: changed_def split: if_splits)
qed

lemma reconcile_all_world: "fst (snd (reconcile_all (fleet_ops F M) cfg rts (w, m))) = w"
proof (induction rts arbitrary: m)
  case (Cons jr rts)
  obtain j r where jr: "jr = (j, r)" by force
  obtain r' w1 m1 where r: "runtime_reconcile (fleet_ops F M) cfg r (w, m) = (r', (w1, m1))" by (metis prod.collapse)
  have "w1 = w"
    by (rule adds_only_world [OF adds_reconcile [OF fleet_frame] _ r]) simp
  with Cons r jr show ?case by (simp add: reconcile_all_Cons)
qed simp

section \<open>The keychain\<close>

lemma adds_security:
  assumes "tart_frame H vms"
  shows "adds_only vms N (run_process H (''/usr/bin/security'' # args))"
  unfolding adds_only_def
proof
  fix h
  have "vms (snd (run_process H (''/usr/bin/security'' # args) h)) \<subseteq> vms h \<union>
      {name. \<exists>source. ''/usr/bin/security'' # args = [''tart'', ''clone'', source, name]}"
    using assms unfolding tart_frame_def by blast
  then show "vms (snd (run_process H (''/usr/bin/security'' # args) h)) \<subseteq> vms h \<union> N" by auto
qed

lemma adds_unlock:
  assumes "tart_frame H vms"
  shows "adds_only vms N (tryUnlockKeychain H a)"
proof -
  note run = adds_security [OF assms]
  have out: "adds_only vms N (security_output H args)" for args
    unfolding security_output_def by (intro adds_then adds_sum adds_pure run)
  have "adds_only vms N (unlock_first H password paths status fails)" for password paths status fails
  proof (induction paths arbitrary: status fails)
    case (Cons path paths)
    have default: "adds_only vms N (\<lambda>h. (Inr () :: swift_error + unit, snd (run_process H
        [''/usr/bin/security'', ''default-keychain'', ''-d'', ''user'', ''-s'', path] h)))"
      using run unfolding adds_only_def by simp
    have "unlock_first H password (path # paths) status fails = (\<lambda>h.
       case run_process H [''/usr/bin/security'', ''unlock-keychain'', ''-p'', password, path] h of (r, h') \<Rightarrow>
       (case r of Inl e \<Rightarrow> (Inl (SystemError e), h')
        | Inr r \<Rightarrow> if px_status r = 0 then (Inr (), snd (run_process H
              [''/usr/bin/security'', ''default-keychain'', ''-d'', ''user'', ''-s'', path] h'))
            else unlock_first H password paths (px_status r) (fails @ [path @ '' [exit '' @ show_int (px_status r) @ '']: '' @
              (if trimSpace (px_stdout r @ px_stderr r) = [] then ''no output'' else trimSpace (px_stdout r @ px_stderr r))]) h'))"
      by (intro ext) (unfold unlock_first.simps Let_def, rule refl)
    then show ?case by (simp only:) (intro adds_then adds_sum adds_if adds_pure run default Cons)
  qed (simp add: adds_only_def)
  then have "adds_only vms N (ensureKeychainUnlocked H p)" for p
    unfolding ensureKeychainUnlocked_def keychainCandidates_def by (intro adds_bind adds_return out)
  then show ?thesis
    unfolding tryUnlockKeychain_def by (intro adds_if adds_then adds_sum adds_pure)
qed

lemma unlock_keeps:
  "tryUnlockKeychain H a h = (a', h') \<Longrightarrow> ag_workstations a' = ag_workstations a \<and> ag_client a' = ag_client a \<and>
     ag_next_heartbeat a' = ag_next_heartbeat a \<and> ag_config a' = ag_config a"
  by (auto simp: tryUnlockKeychain_def split: if_splits prod.splits sum.splits)

lemma relays_keep:
  "ag_workstations (fold start_relay ss a) = ag_workstations a" "ag_client (fold start_relay ss a) = ag_client a"
  "ag_next_heartbeat (fold start_relay ss a) = ag_next_heartbeat a" "ag_config (fold start_relay ss a) = ag_config a"
  by (induction ss arbitrary: a) (simp_all add: start_relay_def split: option.splits)

section \<open>The heartbeat brings the agent in step\<close>

lemma updated_runtime_desired [simp]: "rt_desired (updated_runtime H h rt d) = dv_desired d"
  by (simp add: updated_runtime_def apply_desired_def new_runtime_def split: option.splits)

lemma rows_distinct: "db_ok d \<Longrightarrow> distinct (map dv_id (map desired_vm_of (rows_of wk d)))"
  using schema_ok_distinct(2) [of d]
  by (auto simp: db_ok_def rows_of_def desired_vm_of_def distinct_map inj_on_def)

lemma set_rows_of: "set (rows_of wk d) = {v \<in> set (db_workstations d). ws_worker_id v = wk}"
  by (auto simp: rows_of_def)

lemma desired_row:
  assumes "db_ok d"
  shows "desired_for (map desired_vm_of (rows_of wk d)) i = (case find_workstation i (db_workstations d) of
    None \<Rightarrow> None | Some v \<Rightarrow> if ws_worker_id v = wk then Some (desired_vm_of v) else None)"
proof -
  have dist: "distinct (map ws_id (db_workstations d))" using assms schema_ok_distinct(2) by (simp add: db_ok_def)
  have find: "desired_for (map desired_vm_of rows) i = map_option desired_vm_of (List.find (\<lambda>v. ws_id v = i) rows)" for rows
    by (induction rows) (simp_all add: desired_for_def desired_vm_of_def)
  have row: "find_workstation i (db_workstations d) = Some v" if "v \<in> set (db_workstations d)" "ws_id v = i" for v
    using wst.lookup_in [OF dist that(1)] that(2) by simp
  show ?thesis
  proof (cases "List.find (\<lambda>v. ws_id v = i) (rows_of wk d)")
    case None
    then have "\<not> (\<exists>v \<in> set (rows_of wk d). ws_id v = i)" by (auto simp: find_None_iff)
    then show ?thesis using None find wst.lookup_SomeD [of i "db_workstations d"]
      by (auto simp: set_rows_of split: option.splits)
  next
    case (Some v)
    then have "v \<in> set (rows_of wk d)" "ws_id v = i" by (auto simp: find_Some_iff dest: nth_mem)
    then show ?thesis using Some find row [of v] by (simp add: set_rows_of)
  qed
qed

lemma heartbeat_round_ok:
  assumes "connected F (ag_client a) wk" and "db_ok (wd_db w)"
    and "authenticateWorkerToken (ac_auth_token (ag_client a)) (wd_db w) = Inr row" and "wk_id row = wk"
    and "length (print_json (encode_heartbeat (map status_of_info infos))) \<le> maxJSONBodyBytes"
  obtains d' t1 t2 ts a' where "length ts = length infos"
    and "d' = after_heartbeat t1 t2 ts wk (map report_of (map status_of_info infos)) (wd_db w)" and "db_ok d'"
    and "heartbeat_round (fleet_ops F M) infos a (w, m) = (a', (w\<lparr>wd_db := d'\<rparr>, m))"
    and "ag_workstations a' = applyDesiredWorkstations (fleet_ops F M) (map desired_vm_of (rows_of wk d')) True
      (w\<lparr>wd_db := d'\<rparr>, m) (ag_workstations a)"
proof -
  obtain d' t1 t2 ts where ts: "length ts = length (map status_of_info infos)"
    and d': "d' = after_heartbeat t1 t2 ts wk (map report_of (map status_of_info infos)) (wd_db w)"
    and send: "sendHeartbeat (fleet_ops F M) (ag_client a) (map status_of_info infos) (w, m) =
      (\<lparr>hb_status = ''ok'', hb_desired = map desired_vm_of (rows_of wk d')\<rparr>, (w\<lparr>wd_db := d'\<rparr>, m))"
    by (rule sendHeartbeat_ok [OF assms, where M = M and m = m])
  have "db_ok d'" unfolding d' using assms(2) by (rule after_heartbeat_ok)
  with that ts d' show thesis by (simp add: heartbeat_round_def send isAuthoritative_def)
qed

subsection \<open>A small fleet\<close>

definition fleet_worker :: worker where
  "fleet_worker = sample_worker\<lparr>wk_auth_token_hash := Some (hashWorkerToken ''wkt_72''), wk_auth_token_revoked_at := None\<rparr>"

definition fleet_ws :: workstation where
  "fleet_ws = sample_ws\<lparr>ws_desired_power_state := DesiredDeleted, ws_power_state := PowerDeleting\<rparr>"

definition fleet_world :: world where
  "fleet_world = sample_world\<lparr>wd_db := sample_db\<lparr>db_workers := [fleet_worker], db_workstations := [fleet_ws]\<rparr>\<rparr>"

definition sample_fleet :: fleet where
  "sample_fleet = \<lparr>fl_server = sample_server, fl_host = ''server'',
     fl_plan = (\<lambda>r w. replicate (length (rq_body r) + 4) sample_env), fl_other = (\<lambda>_. JNull)\<rparr>"

definition fleet_agent :: agent where
  "fleet_agent = \<lparr>ag_config = sample_worker_config, ag_config_path = ''/etc/minicontrol/config.yaml'', ag_host = ''mac-1'',
     ag_client = \<lparr>ac_server_address = ''server'', ac_base_url = Some ''https://server:8080'', ac_worker_id = generateWorkerID ''U1'',
       ac_auth_token = ''wkt_72'', ac_worker_version = ''1.0''\<rparr>,
     ag_workstations = \<lparr>mg_runtimes = [(''k1'', sample_runtime\<lparr>rt_desired := ''deleted''\<rparr>)], mg_desired_ids = [''k1'']\<rparr>,
     ag_worker_id = generateWorkerID ''U1'', ag_keychain_password = [], ag_keychain_unlocked = False, ag_active_relays = [],
     ag_finished_relays = [], ag_next_heartbeat = 0\<rparr>"

lemma fleet_connected: "connected sample_fleet (ag_client fleet_agent) (generateWorkerID ''U1'')"
proof -
  have "list_all (\<lambda>c. \<not> is_space c) ''wkt_72''" by code_simp
  moreover have "matchesWorkerHost (h_lib (sv_handler (fl_server sample_fleet))) (h_config (sv_handler (fl_server sample_fleet))) r" for r
    by (simp add: matchesWorkerHost_def hostMatches_def sample_fleet_def sample_server_def sample_handler_def sample_config_def)
  moreover have "or_fault sample_env = NoFault" by (simp add: sample_env_def)
  ultimately show ?thesis by (simp add: connected_def fleet_agent_def sample_fleet_def list_all_iff)
qed

lemma fleet_db: "db_ok (wd_db fleet_world)"
  "authenticateWorkerToken (ac_auth_token (ag_client fleet_agent)) (wd_db fleet_world) = Inr fleet_worker"
  "wk_id fleet_worker = generateWorkerID ''U1''" "ws_worker_id fleet_ws = generateWorkerID ''U1''"
  "find_workstation ''k1'' (db_workstations (wd_db fleet_world)) = Some fleet_ws"
  by (simp_all add: db_ok_def schema_defs lifecycle_ok_def capacity_ok_def phase_ok_def phase_def fits_def ws_place_def fleet_world_def
      fleet_worker_def fleet_ws_def fleet_agent_def sample_defs int4_ok_def authenticateWorkerToken_def find_workstation_def)

definition fleet_infos :: "vm_info list" where
  "fleet_infos = [\<lparr>vi_vm_id = ''k1'', vi_slot = 0, vi_state = VDeleted, vi_ip_address = None, vi_state_changed_at = 0, vi_last_error = None\<rparr>]"

lemma fleet_infos_small: "length (print_json (encode_heartbeat (map status_of_info fleet_infos))) \<le> maxJSONBodyBytes"
proof -
  have "length (print_json (encode_heartbeat (map status_of_info fleet_infos))) \<le> 500" by code_simp
  then show ?thesis by (simp add: maxJSONBodyBytes_def)
qed

text \<open>
  C15: The two programs agree on the types of their messages.  What the agent reports about any of its
  machines is read by the server as one report per machine, each with a power state the column of
  the table admits; what the server lists for a worker of a consistent database is read by the agent
  row for row, each with a desired state that the agent knows how to reconcile.
\<close>

theorem messages_well_typed:
  assumes "db_ok d"
  shows "(\<exists>rs. Option.bind (unmarshal (print_json (encode_heartbeat (map status_of_info infos)))) (\<lambda>v. decode_struct True heartbeat_fields v []) = Some rs \<and>
      map rep_workstation_id rs = map vi_vm_id infos \<and> list_all (\<lambda>r. parse_power_state (rep_power_state r) \<noteq> None) rs) \<and>
    (\<exists>ds. Option.bind (unmarshal (response_text other (writeJSON 200 (PHeartbeat ''ok'' (map desired_entry (listDesiredWorkstationsByWorker wk d))))))
        decode_heartbeat = Some \<lparr>hb_status = ''ok'', hb_desired = ds\<rparr> \<and>
      map dv_id ds = map ws_id (rows_of wk d) \<and>
      list_all (\<lambda>x. dv_desired x \<in> {''running'', ''stopped'', ''deleted''}) ds)"
proof -
  have "parse_power_state (raw_value s) \<noteq> None" for s by (cases s) (simp_all add: parse_power_state_def power_states_def)
  then have "list_all (\<lambda>r. parse_power_state (rep_power_state r) \<noteq> None) (map report_of (map status_of_info infos))"
    by (simp add: list_all_iff report_of_def status_of_info_def)
  moreover have "map rep_workstation_id (map report_of (map status_of_info infos)) = map vi_vm_id infos"
    by (simp add: report_of_def status_of_info_def)
  moreover have "int64_ok (ws_slot v)" if "v \<in> set (rows_of wk d)" for v
    using that by (auto simp: rows_of_def intro: db_ok_slot_int64 [OF assms])
  note heartbeat_reply [OF this, where other = other]
  moreover have "show_desired s \<in> {''running'', ''stopped'', ''deleted''}" for s by (cases s) simp_all
  then have "list_all (\<lambda>x. dv_desired x \<in> {''running'', ''stopped'', ''deleted''}) (map desired_vm_of (rows_of wk d))"
    by (simp only: list_all_iff desired_vm_of_def list.set_map ball_simps desired_vm.simps) blast
  moreover have "map dv_id (map desired_vm_of (rows_of wk d)) = map ws_id (rows_of wk d)" by (simp add: desired_vm_of_def)
  moreover have "Option.bind (unmarshal (print_json (encode_heartbeat (map status_of_info infos)))) (\<lambda>v. decode_struct True heartbeat_fields v []) =
      Some (map report_of (map status_of_info infos))"
    by (simp add: unmarshal_print [OF heartbeat_json_ok] heartbeat_body)
  ultimately show ?thesis unfolding listDesiredWorkstationsByWorker_def rows_of_def [symmetric] by blast
qed

theorem messages_well_typed_witness:
  "\<exists>ds. Option.bind (unmarshal (response_text (\<lambda>_. JNull) (writeJSON 200 (PHeartbeat ''ok'' (map desired_entry
       (listDesiredWorkstationsByWorker (generateWorkerID ''U1'') (wd_db fleet_world))))))) decode_heartbeat =
       Some \<lparr>hb_status = ''ok'', hb_desired = ds\<rparr> \<and> map dv_id ds = [''k1'']"
proof -
  have "map ws_id (rows_of (generateWorkerID ''U1'') (wd_db fleet_world)) = [''k1'']"
    by (simp add: rows_of_def fleet_world_def fleet_ws_def sample_defs)
  with messages_well_typed [OF fleet_db(1), of fleet_infos "\<lambda>_. JNull" "generateWorkerID ''U1''"] show ?thesis by auto
qed

text \<open>
  C5: A heartbeat of a connected agent brings it in step with the database: afterwards every workstation
  the database places on this worker has a runtime that wants what the database wants, and every
  other runtime is to be deleted.  This holds for whatever the agent had and reported before.
\<close>

theorem heartbeat_in_step:
  assumes "connected F (ag_client a) wk" and "db_ok (wd_db w)"
    and "authenticateWorkerToken (ac_auth_token (ag_client a)) (wd_db w) = Inr row" and "wk_id row = wk"
    and "length (print_json (encode_heartbeat (map status_of_info infos))) \<le> maxJSONBodyBytes"
    and "heartbeat_round (fleet_ops F M) infos a (w, m) = (a', (w', m'))"
  shows "(\<forall>v \<in> set (db_workstations (wd_db w')). ws_worker_id v = wk \<longrightarrow>
      (\<exists>rt. map_of (mg_runtimes (ag_workstations a')) (ws_id v) = Some rt \<and>
         rt_desired rt = show_desired (ws_desired_power_state v))) \<and>
    (\<forall>i rt. map_of (mg_runtimes (ag_workstations a')) i = Some rt \<longrightarrow>
      (\<exists>v \<in> set (db_workstations (wd_db w')). ws_worker_id v = wk \<and> ws_id v = i) \<or> rt_desired rt = ''deleted'')"
proof -
  obtain d' where ok: "db_ok d'" and w': "w' = w\<lparr>wd_db := d'\<rparr>"
    and ws: "ag_workstations a' = applyDesiredWorkstations (fleet_ops F M) (map desired_vm_of (rows_of wk d')) True
      (w\<lparr>wd_db := d'\<rparr>, m) (ag_workstations a)"
    using heartbeat_round_ok [OF assms(1-5), where M = M and m = m] assms(6) by (metis prod.inject)
  have dist: "distinct (map ws_id (db_workstations d'))" using ok schema_ok_distinct(2) by (simp add: db_ok_def)
  note lookup = applyDesired_lookup [OF rows_distinct [OF ok]] and desired = applyDesired_desired [OF rows_distinct [OF ok]]
  show ?thesis
  proof (intro conjI ballI allI impI)
    fix v
    assume v: "v \<in> set (db_workstations (wd_db w'))" "ws_worker_id v = wk"
    then have "desired_for (map desired_vm_of (rows_of wk d')) (ws_id v) = Some (desired_vm_of v)"
      using wst.lookup_in [OF dist] w' by (simp add: desired_row [OF ok])
    then show "\<exists>rt. map_of (mg_runtimes (ag_workstations a')) (ws_id v) = Some rt \<and> rt_desired rt = show_desired (ws_desired_power_state v)"
      unfolding ws by (simp add: lookup) (simp add: desired_vm_of_def)
  next
    fix i rt
    assume "map_of (mg_runtimes (ag_workstations a')) i = Some rt"
    from desired [OF this [unfolded ws]]
    show "(\<exists>v \<in> set (db_workstations (wd_db w')). ws_worker_id v = wk \<and> ws_id v = i) \<or> rt_desired rt = ''deleted''"
      using wst.lookup_SomeD [of i "db_workstations d'"] w'
      by (auto simp: desired_row [OF ok] split: option.splits if_splits)
  qed
qed

theorem heartbeat_in_step_witness:
  "\<exists>a' w' m'. heartbeat_round (fleet_ops sample_fleet sample_machine) fleet_infos fleet_agent (fleet_world, [''ws-k1'']) = (a', (w', m')) \<and>
     (\<forall>i rt. map_of (mg_runtimes (ag_workstations a')) i = Some rt \<longrightarrow>
       (\<exists>v \<in> set (db_workstations (wd_db w')). ws_worker_id v = generateWorkerID ''U1'' \<and> ws_id v = i) \<or> rt_desired rt = ''deleted'')"
proof -
  obtain a' w' m' where "heartbeat_round (fleet_ops sample_fleet sample_machine) fleet_infos fleet_agent (fleet_world, [''ws-k1'']) = (a', (w', m'))"
    by (metis prod.collapse)
  with heartbeat_in_step [OF fleet_connected fleet_db(1,2,3) fleet_infos_small this] show ?thesis by blast
qed

section \<open>A round\<close>

text \<open>What happens before the heartbeat: the machine is brought up to date, the server sees a poll.\<close>

lemma round_parts:
  fixes M :: "'m host_ops"
  assumes "tart_works M vms" and "db_ok (wd_db w)"
  obtains mg m1 a2 w2 m2 where
    "manager_reconcile (fleet_ops F M) (ag_config a) (ag_workstations a) (w, m) = (mg, (w, m1))"
    and "management_round (fleet_ops F M) a (w, m) = (if ag_next_heartbeat a \<le> host_clock M m2
      then heartbeat_round (fleet_ops F M) (allVMInfo mg) a2 (w2, m2) else (a2, (w2, m2)))"
    and "ag_workstations a2 = mg" and "ag_client a2 = ag_client a" and "ag_config a2 = ag_config a"
    and "undisturbed (wd_db w) (wd_db w2)" and "db_ok (wd_db w2)" and "vms m2 \<subseteq> vms m1"
proof -
  let ?H = "fleet_ops F M"
  obtain mg w1 m1 where rec: "manager_reconcile ?H (ag_config a) (ag_workstations a) (w, m) = (mg, (w1, m1))" by (metis prod.collapse)
  then have "w1 = w"
    using reconcile_all_world [of F M "ag_config a" "mg_runtimes (ag_workstations a)" w m]
    by (auto simp: manager_reconcile_def case_prod_beta Let_def)
  with rec have rec: "manager_reconcile ?H (ag_config a) (ag_workstations a) (w, m) = (mg, (w, m1))" by simp
  obtain ps w2 m1' where poll: "pollForProxySessions ?H (ag_client a) (w, m1) = (ps, (w2, m1'))" by (metis prod.collapse)
  note harmless = poll_harmless [OF poll assms(2)]
  let ?a1 = "drop_finished (fold start_relay ps (a\<lparr>ag_workstations := mg\<rparr>))"
  obtain a2 w2' m2 where unlock: "tryUnlockKeychain ?H ?a1 (w2, m1) = (a2, (w2', m2))" by (metis prod.collapse)
  have "w2' = w2" by (rule adds_only_world [OF adds_unlock [OF fleet_frame, where N = "{}"] _ unlock]) simp
  moreover have "vms m2 \<subseteq> vms m1"
    using adds_onlyD [OF adds_unlock [OF tart_works_frame [OF fleet_works [OF assms(1)]], where N = "{}"] unlock] by simp
  moreover have "ag_workstations a2 = mg \<and> ag_client a2 = ag_client a \<and> ag_next_heartbeat a2 = ag_next_heartbeat a \<and> ag_config a2 = ag_config a"
    using unlock_keeps [OF unlock] by (simp add: drop_finished_def relays_keep)
  ultimately show thesis
    using that [OF rec] poll unlock harmless
    by (simp add: management_round_def rec pollProxySessions_def Let_def)
qed

lemma map_of_filter_keep: "map_of xs k = Some v \<Longrightarrow> P (k, v) \<Longrightarrow> map_of (filter P xs) k = Some v"
  by (induction xs) auto

lemma reconcile_reports_deletion:
  assumes "tart_works H vms" and "map_of (mg_runtimes mg) k = Some rt" and "rt_desired rt = ''deleted''" and "rt_id rt = k"
    and "\<not> wants (rt_vm_name rt) (mg_runtimes mg)" and "k \<in> set (mg_desired_ids mg)"
    and "manager_reconcile H cfg mg h = (mg', h')"
  obtains rt' where "map_of (mg_runtimes mg') k = Some rt'" and "rt_vm_name rt' = rt_vm_name rt"
    and "\<exists>r \<in> set (map report_of (map status_of_info (allVMInfo mg'))). rep_workstation_id r = k \<and> rep_power_state r = ''deleted''"
    and "rt_vm_name rt \<notin> vms h'"
proof -
  obtain rts where rts: "reconcile_all H cfg (mg_runtimes mg) h = (rts, h')"
    and mg': "mg_runtimes mg' = filter (\<lambda>(i, rt). i \<in> set (mg_desired_ids mg) \<or> rt_state rt \<noteq> VDeleted) rts"
    using assms(7) by (auto simp: manager_reconcile_def split: prod.splits)
  from reconcile_all_deletes [OF assms(1,3,2,5), of cfg h] rts obtain rt' where gone: "rt_vm_name rt \<notin> vms h'"
    and rt': "map_of rts k = Some rt'" "rt_state rt' = VDeleted" "rt_id rt' = k" "rt_vm_name rt' = rt_vm_name rt"
    using assms(4) by auto
  have look: "map_of (mg_runtimes mg') k = Some rt'" unfolding mg' by (rule map_of_filter_keep [OF rt'(1)]) (simp add: assms(6))
  then have "runtime_info rt' \<in> set (allVMInfo mg')" by (force simp: allVMInfo_def dest: map_of_SomeD)
  moreover have "rep_workstation_id (report_of (status_of_info (runtime_info rt'))) = k"
    "rep_power_state (report_of (status_of_info (runtime_info rt'))) = ''deleted''"
    using rt' by (simp_all add: report_of_def status_of_info_def runtime_info_def)
  ultimately show thesis using that look gone rt'(4) by (metis image_eqI list.set_map)
qed


lemma fleet_reconcile:
  "allVMInfo (fst (manager_reconcile (fleet_ops sample_fleet sample_machine) (ag_config fleet_agent) (ag_workstations fleet_agent)
     (fleet_world, [''ws-k1'']))) = fleet_infos"
proof -
  have "contains (toLower ''machine is not running'') (toLower ''not running'')" by code_simp
  then show ?thesis
    by (simp add: manager_reconcile_def fleet_agent_def reconcile_all.simps(2) runtime_reconcile_def ensureDeleted_def setState_def
        tart_exists_def stopIfRunning_def tart_stop_def deleteIfExists_def tart_delete_def tart_exec_def bind_io_def return_io_def outputContains_def
        fleet_ops_simps on_machine_def sample_machine_def sample_command_def sample_runtime_def allVMInfo_def runtime_info_def fleet_infos_def)
qed


end
