(* ===== verification/AgentRelay.thy ===== *)
theory AgentRelay
  imports Prelude "HOL-Library.Sublist"
begin

text \<open>
  The relay of the agent (\<^verbatim>\<open>WorkerCore/ProxyRelay.swift\<close>): one connection to the server, one to a port of a
  machine, and a loop in each direction.  The loop from the server runs inside \<^verbatim>\<open>start\<close>; the loop to the server
  is a task that drains a stream the handler of the other connection fills.  Each suspension point is the
  end of a step, so that the two loops and the handler interleave; how a call of the network ends is the
  argument of the step.  The fields from \<open>rl_received\<close> on record what has passed, for the statements.
\<close>

section \<open>Data\<close>

datatype relay_frame = FrameData string | FrameText string | FrameUnknown

datatype relay_pc = Idle | Connecting | Receiving | Writing string | Ended

record relay_state =
  rl_ws :: bool
  rl_tcp :: bool
  rl_closed :: bool
  rl_stream :: "string list"
  rl_finished :: bool
  rl_task :: bool
  rl_pc :: relay_pc
  rl_received :: "string list"
  rl_written :: "string list"
  rl_read :: "string list"
  rl_sent :: "string list"

definition new_relay :: relay_state where
  "new_relay = \<lparr>rl_ws = False, rl_tcp = False, rl_closed = False, rl_stream = [], rl_finished = False, rl_task = False,
     rl_pc = Idle, rl_received = [], rl_written = [], rl_read = [], rl_sent = []\<rparr>"

section \<open>The address\<close>

text \<open>\<^verbatim>\<open>URLComponents\<close>: its parser and its printer are the arguments \<open>parse\<close> and \<open>render\<close>.\<close>

record url_parts =
  up_scheme :: "string option"
  up_host :: "string option"
  up_port :: "int option"
  up_path :: string
  up_query :: "(string \<times> string) list"

definition makeWebSocketURL ::
  "(string \<Rightarrow> url_parts option) \<Rightarrow> (url_parts \<Rightarrow> string option) \<Rightarrow> string \<Rightarrow> string \<Rightarrow> string \<Rightarrow> string option" where
  "makeWebSocketURL parse render baseURL sessionID token = (case parse baseURL of
     None \<Rightarrow> None
   | Some c \<Rightarrow>
       if up_host c = None then None
       else render (c\<lparr>up_scheme := Some (if up_scheme c = Some ''https'' then ''wss'' else ''ws''),
         up_path := ''/api/v1/proxy/ws'',
         up_query := [(''session'', sessionID), (''role'', ''worker''), (''token'', token)]\<rparr>))"

section \<open>Start and stop\<close>

definition relay_stop :: "relay_state \<Rightarrow> relay_state" where
  "relay_stop s = (if rl_closed s then s
     else s\<lparr>rl_closed := True, rl_finished := True, rl_task := False, rl_ws := False, rl_tcp := False\<rparr>)"

definition leave_loop :: "relay_state \<Rightarrow> relay_state" where
  "leave_loop s = (relay_stop s)\<lparr>rl_pc := Ended\<rparr>"

definition loop_head :: "relay_state \<Rightarrow> relay_state" where
  "loop_head s = (if rl_closed s then leave_loop s else s\<lparr>rl_pc := Receiving\<rparr>)"

definition relay_open :: "string option \<Rightarrow> relay_state \<Rightarrow> relay_state" where
  "relay_open url s = (case url of
     None \<Rightarrow> s\<lparr>rl_pc := Ended\<rparr>
   | Some _ \<Rightarrow> s\<lparr>rl_ws := True, rl_pc := Connecting\<rparr>)"

definition relay_connect :: "bool \<Rightarrow> relay_state \<Rightarrow> relay_state" where
  "relay_connect ok s = (if ok then loop_head (s\<lparr>rl_tcp := True, rl_task := True\<rparr>) else leave_loop s)"

section \<open>From the server to the machine\<close>

text \<open>A frame arrives, or \<^verbatim>\<open>receive\<close> throws (\<open>None\<close>); then the write succeeds or throws.\<close>

definition ws_receive :: "relay_frame option \<Rightarrow> relay_state \<Rightarrow> relay_state" where
  "ws_receive m s = (case m of
     None \<Rightarrow> leave_loop s
   | Some (FrameData d) \<Rightarrow> s\<lparr>rl_pc := Writing d, rl_received := rl_received s @ [d]\<rparr>
   | Some (FrameText t) \<Rightarrow> s\<lparr>rl_pc := Writing t, rl_received := rl_received s @ [t]\<rparr>
   | Some FrameUnknown \<Rightarrow> loop_head s)"

definition tcp_written :: "string \<Rightarrow> bool \<Rightarrow> relay_state \<Rightarrow> relay_state" where
  "tcp_written d ok s = (if ok then loop_head (s\<lparr>rl_written := rl_written s @ [d]\<rparr>) else leave_loop s)"

section \<open>From the machine to the server\<close>

definition channelRead :: "string \<Rightarrow> relay_state \<Rightarrow> relay_state" where
  "channelRead d s = s\<lparr>rl_read := rl_read s @ [d], rl_stream := (if rl_finished s then rl_stream s else rl_stream s @ [d])\<rparr>"

definition channelInactive :: "relay_state \<Rightarrow> relay_state" where
  "channelInactive s = s\<lparr>rl_finished := True\<rparr>"

definition errorCaught :: "relay_state \<Rightarrow> relay_state" where
  "errorCaught s = s\<lparr>rl_finished := True, rl_tcp := False\<rparr>"

definition tcpToWebSocket :: "bool \<Rightarrow> relay_state \<Rightarrow> relay_state" where
  "tcpToWebSocket ok s = (case rl_stream s of
     [] \<Rightarrow> if rl_finished s then s\<lparr>rl_task := False\<rparr> else s
   | d # ds \<Rightarrow> if ok then s\<lparr>rl_stream := ds, rl_sent := rl_sent s @ [d]\<rparr> else s\<lparr>rl_stream := ds, rl_task := False\<rparr>)"

section \<open>The relay as a step relation\<close>

text \<open>The steps of the side of the machine, and all steps.\<close>

inductive target_step :: "relay_state \<Rightarrow> relay_state \<Rightarrow> bool" where
  read: "target_step s (channelRead d s)"
| inactive: "target_step s (channelInactive s)"
| error: "target_step s (errorCaught s)"
| send: "rl_task s \<Longrightarrow> target_step s (tcpToWebSocket ok s)"

inductive relay_step :: "relay_state \<Rightarrow> relay_state \<Rightarrow> bool" where
  opens: "rl_pc s = Idle \<Longrightarrow> relay_step s (relay_open url s)"
| connects: "rl_pc s = Connecting \<Longrightarrow> relay_step s (relay_connect ok s)"
| receives: "rl_pc s = Receiving \<Longrightarrow> relay_step s (ws_receive m s)"
| writes: "rl_pc s = Writing d \<Longrightarrow> relay_step s (tcp_written d ok s)"
| target: "target_step s s' \<Longrightarrow> relay_step s s'"

lemmas relay_defs = relay_open_def relay_connect_def ws_receive_def tcp_written_def channelRead_def channelInactive_def
  errorCaught_def tcpToWebSocket_def loop_head_def leave_loop_def relay_stop_def

text \<open>What a relay keeps: order in both directions, and a closed relay holds nothing.\<close>

definition relay_in_order :: "relay_state \<Rightarrow> bool" where
  "relay_in_order s =
     (prefix (rl_written s) (rl_received s) \<and>
      (rl_pc s \<noteq> Ended \<longrightarrow> rl_received s = rl_written s @ (case rl_pc s of Writing d \<Rightarrow> [d] | _ \<Rightarrow> [])))"

definition relay_out_order :: "relay_state \<Rightarrow> bool" where
  "relay_out_order s =
     (prefix (rl_sent s) (rl_read s) \<and>
      (rl_task s \<or> rl_pc s \<in> {Idle, Connecting} \<longrightarrow>
        prefix (rl_sent s @ rl_stream s) (rl_read s) \<and> (\<not> rl_finished s \<longrightarrow> rl_sent s @ rl_stream s = rl_read s)))"

definition relay_resources :: "relay_state \<Rightarrow> bool" where
  "relay_resources s =
     ((rl_closed s \<longrightarrow> rl_pc s = Ended \<and> rl_finished s) \<and>
      (rl_pc s = Ended \<longrightarrow> \<not> rl_ws s \<and> \<not> rl_tcp s \<and> \<not> rl_task s) \<and>
      (rl_pc s \<noteq> Ended \<longrightarrow> rl_ws s = (rl_pc s \<noteq> Idle)) \<and>
      (rl_pc s \<in> {Idle, Connecting} \<longrightarrow> \<not> rl_task s \<and> \<not> rl_tcp s))"

definition relay_invar :: "relay_state \<Rightarrow> bool" where
  "relay_invar s = (relay_in_order s \<and> relay_out_order s \<and> relay_resources s)"

lemma target_keeps:
  assumes "target_step s s'"
  shows "rl_pc s' = rl_pc s" "rl_ws s' = rl_ws s" "rl_closed s' = rl_closed s"
    "rl_received s' = rl_received s" "rl_written s' = rl_written s"
  using assms by (auto simp: relay_defs elim!: target_step.cases split: list.splits if_splits)

lemma in_order_step: "relay_step s s' \<Longrightarrow> relay_resources s \<Longrightarrow> relay_in_order s \<Longrightarrow> relay_in_order s'"
proof (induction rule: relay_step.induct)
  case (target s s')
  then show ?case by (simp add: relay_in_order_def target_keeps [OF target(1)])
qed (auto simp: relay_defs relay_in_order_def relay_resources_def split: option.splits relay_frame.splits)

lemma out_order_send:
  assumes "rl_task s" and "relay_resources s" and "relay_out_order s"
  shows "relay_out_order (tcpToWebSocket ok s)"
proof (cases "rl_stream s")
  case (Cons d ds)
  then have "prefix ((rl_sent s @ [d]) @ ds) (rl_read s)" using assms by (simp add: relay_out_order_def)
  from append_prefixD [OF this] show ?thesis using Cons assms by (auto simp: tcpToWebSocket_def relay_out_order_def relay_resources_def)
qed (use assms in \<open>auto simp: tcpToWebSocket_def relay_out_order_def\<close>)

lemma out_order_target: "target_step s s' \<Longrightarrow> relay_resources s \<Longrightarrow> relay_out_order s \<Longrightarrow> relay_out_order s'"
proof (induction rule: target_step.induct)
  case (send s ok)
  then show ?case by (intro out_order_send)
qed (auto simp: channelRead_def channelInactive_def errorCaught_def relay_out_order_def)

lemma out_order_step: "relay_step s s' \<Longrightarrow> relay_resources s \<Longrightarrow> relay_out_order s \<Longrightarrow> relay_out_order s'"
proof (induction rule: relay_step.induct)
  case (target s s')
  then show ?case by (rule out_order_target)
qed (auto simp: relay_defs relay_out_order_def relay_resources_def split: option.splits relay_frame.splits)

lemma resources_target: "target_step s s' \<Longrightarrow> relay_resources s \<Longrightarrow> relay_resources s'"
  by (induction rule: target_step.induct)
    (auto simp: relay_resources_def channelRead_def channelInactive_def errorCaught_def tcpToWebSocket_def split: list.split)

lemma resources_step: "relay_step s s' \<Longrightarrow> relay_resources s \<Longrightarrow> relay_resources s'"
proof (induction rule: relay_step.induct)
  case (target s s')
  then show ?case by (rule resources_target)
qed (auto simp: relay_defs relay_resources_def split: option.splits relay_frame.splits)

interpretation rls: invariant_system "\<lambda>s. s = new_relay" relay_step relay_invar
proof
  show "relay_invar s" if "s = new_relay" for s
    by (simp add: that relay_invar_def new_relay_def relay_in_order_def relay_out_order_def relay_resources_def)
qed (simp add: relay_invar_def in_order_step out_order_step resources_step)

lemma over_steps:
  assumes "relay_step\<^sup>*\<^sup>* s s'" and "relay_invar s" and "rl_pc s = Ended"
  shows "rl_pc s' = Ended \<and> rl_written s' = rl_written s \<and> rl_sent s' = rl_sent s"
  using assms(1)
proof (induction rule: rtranclp_induct)
  case (step u v)
  then have "\<not> rl_task u" using rls.steps_invar [OF step(1) assms(2)] by (simp add: relay_invar_def relay_resources_def)
  with step(2,3) show ?case
    by (auto simp: relay_defs elim!: relay_step.cases target_step.cases)
qed (simp add: assms(3))

section \<open>Properties\<close>

text \<open>
  C23: A relay of the agent is faithful in both directions, whatever the interleaving of its loops and the
  handler.  The machine is written the frames that arrived, in order and without a gap; the server is
  sent the bytes the machine sent, in order and without a gap; while the relay waits for a frame nothing
  that arrived is missing.  Once it has ended it holds no connection, and nothing is carried any more.
\<close>

theorem relay_faithful:
  assumes "reach (\<lambda>s. s = new_relay) relay_step s"
  shows "prefix (rl_written s) (rl_received s) \<and> prefix (rl_sent s) (rl_read s) \<and>
    (rl_pc s = Receiving \<longrightarrow> rl_written s = rl_received s) \<and>
    (rl_task s \<and> \<not> rl_finished s \<longrightarrow> rl_sent s @ rl_stream s = rl_read s) \<and>
    (rl_pc s = Ended \<longrightarrow> \<not> rl_ws s \<and> \<not> rl_tcp s \<and>
      (\<forall>s'. relay_step\<^sup>*\<^sup>* s s' \<longrightarrow> rl_written s' = rl_written s \<and> rl_sent s' = rl_sent s))"
proof -
  note inv = rls.reach_invar [OF assms]
  then have "prefix (rl_written s) (rl_received s) \<and> (rl_pc s = Receiving \<longrightarrow> rl_written s = rl_received s)"
    by (simp add: relay_invar_def relay_in_order_def)
  moreover have "prefix (rl_sent s) (rl_read s) \<and> (rl_task s \<and> \<not> rl_finished s \<longrightarrow> rl_sent s @ rl_stream s = rl_read s)"
    using inv by (simp add: relay_invar_def relay_out_order_def)
  moreover have "rl_pc s = Ended \<longrightarrow> \<not> rl_ws s \<and> \<not> rl_tcp s" using inv by (simp add: relay_invar_def relay_resources_def)
  ultimately show ?thesis using over_steps [OF _ inv] by blast
qed

lemma relay_receiving_example:
  "reach (\<lambda>s. s = new_relay) relay_step (relay_connect True (relay_open (Some ''wss://server/api/v1/proxy/ws'') new_relay))"
proof -
  let ?o = "relay_open (Some ''wss://server/api/v1/proxy/ws'') new_relay"
  have "reach (\<lambda>s. s = new_relay) relay_step new_relay" by (rule reach_init) simp
  moreover have "relay_step new_relay ?o" by (rule opens) (simp add: new_relay_def)
  ultimately have "reach (\<lambda>s. s = new_relay) relay_step ?o" by (rule reach_step)
  moreover have "relay_step ?o (relay_connect True ?o)" by (rule connects) (simp add: relay_open_def)
  ultimately show ?thesis by (rule reach_step)
qed

theorem relay_faithful_witness:
  "rl_pc (ws_receive None (relay_connect True (relay_open (Some ''wss://server/api/v1/proxy/ws'') new_relay))) = Ended \<and>
   \<not> rl_tcp (ws_receive None (relay_connect True (relay_open (Some ''wss://server/api/v1/proxy/ws'') new_relay)))"
proof -
  let ?s = "relay_connect True (relay_open (Some ''wss://server/api/v1/proxy/ws'') new_relay)"
  have "rl_pc ?s = Receiving" "rl_pc (ws_receive None ?s) = Ended" by (simp_all add: relay_defs new_relay_def)
  with relay_faithful [OF reach_step [where s = ?s and s' = "ws_receive None ?s", OF relay_receiving_example]] receives [of ?s None] show ?thesis by blast
qed

text \<open>
  C24: The relay outlives its target.  When the machine closes its connection while the relay waits for a
  frame, no step of the side of the machine ends the relay or closes the connection to the server, not even
  after all that was read has been sent: the server is not told, and only a frame or an error of the
  connection to the server makes the relay go on.
\<close>

theorem relay_outlives_target:
  assumes "reach (\<lambda>s. s = new_relay) relay_step s" and "rl_pc s = Receiving"
    and "target_step\<^sup>*\<^sup>* (channelInactive s) s'"
  shows "rl_pc s' = Receiving \<and> rl_ws s' \<and> \<not> rl_closed s'"
  using assms(3)
proof (induction rule: rtranclp_induct)
  case base
  then show ?case using rls.reach_invar [OF assms(1)] assms(2)
    by (auto simp: channelInactive_def relay_invar_def relay_resources_def)
qed (simp add: target_keeps)

theorem relay_outlives_target_witness:
  "rl_ws (tcpToWebSocket True (channelInactive (relay_connect True (relay_open (Some ''wss://server/api/v1/proxy/ws'') new_relay)))) \<and>
   \<not> rl_task (tcpToWebSocket True (channelInactive (relay_connect True (relay_open (Some ''wss://server/api/v1/proxy/ws'') new_relay))))"
proof -
  let ?s = "relay_connect True (relay_open (Some ''wss://server/api/v1/proxy/ws'') new_relay)"
  have "rl_pc ?s = Receiving" "rl_task (channelInactive ?s)" "\<not> rl_task (tcpToWebSocket True (channelInactive ?s))"
    by (simp_all add: relay_defs new_relay_def)
  with relay_outlives_target [OF relay_receiving_example, of "tcpToWebSocket True (channelInactive ?s)"] target_step.send [of "channelInactive ?s" True]
  show ?thesis by blast
qed

end
