(* ===== verification/Spec2Isabelle.thy ===== *)
theory Spec2Isabelle
  imports DbSystem Sha256_Vector ProxySystem Registration Main_Server FleetRound AgentRelay
begin

text \<open>
  \<^bold>\<open>Verification of mini-control: the control server and the agent of its workers\<close>

  \<^bold>\<open>The program.\<close>  The control server (\<^verbatim>\<open>src/server\<close>, written in Go) lets members start and use macOS virtual
  machines, their \<^emph>\<open>workstations\<close>, on a pool of Mac hosts, the \<^emph>\<open>workers\<close>.  Its state is a PostgreSQL database
  (package \<^verbatim>\<open>db\<close>), a manager of proxy sessions that pairs a connection of a client with one of a worker
  (package \<^verbatim>\<open>proxy\<close>), a manager of browser terminals (\<^verbatim>\<open>api/rest/terminal_sessions.go\<close>), a cache of the keys that sign
  Access tokens (\<^verbatim>\<open>api/rest/access.go\<close>) and a directory of released binaries (package \<^verbatim>\<open>release\<close>).  Package
  \<^verbatim>\<open>api/rest\<close> routes requests through authentication to handlers, which read and change this state; each
  request is a goroutine of its own, beside the goroutines of the terminals and the reaper of the proxy
  sessions.  \<^verbatim>\<open>cmd/minicontrol-server/main.go\<close> puts the parts together from the configuration.  On each worker an
  agent (\<^verbatim>\<open>src/worker\<close>, written in Swift) registers with the server, reports in heartbeats, drives the \<^verbatim>\<open>tart\<close> command to
  make its machines what the server wants, and relays proxy connections to them.

  \<^bold>\<open>How it is modelled.\<close>  Structs are records, enumerations are datatypes, errors are values of a sum.  A table is
  the list of its rows, and a statement or transaction of package \<^verbatim>\<open>db\<close> is a function on the record of the five
  tables whose error branches are the constraints of the schema.  Objects behind pointers are indices into
  a list of objects, and Go maps are association lists.  A handler is a \<^emph>\<open>program\<close> (theory \<^verbatim>\<open>Prog\<close>): a tree of
  atomic actions on the shared world, one per database call, critical section, file operation or answer
  from outside, and any other program may act between two actions.  Clocks, random bytes, identifiers,
  faults and answers of the network are fields of the oracle value (record \<open>env\<close> of theory \<^verbatim>\<open>World\<close>) that drives an action.

  \<^bold>\<open>The theories.\<close>
  \<^item> \<^verbatim>\<open>Prelude\<close>: results, keyed tables with their contract (locale \<open>keyed_table\<close>), reachability (locale
    \<open>invariant_system\<close>).  \<^verbatim>\<open>GoLib\<close>, \<^verbatim>\<open>Url\<close>, \<^verbatim>\<open>Json\<close>, \<^verbatim>\<open>Sha256\<close>, \<^verbatim>\<open>Sha256_Vector\<close>: what the server calls of the Go library.
    The JSON parser and the query parser are shown inverse to their printers; the digest is checked on
    the example of its standard.
  \<^item> \<^verbatim>\<open>Model\<close> (package \<^verbatim>\<open>model\<close>) and \<^verbatim>\<open>Tables\<close> (\<^verbatim>\<open>db/migrations/00001_initial.sql\<close>): rows, tables, and \<open>schema_ok\<close>, the
    constraints the schema declares.  \<^verbatim>\<open>Samples\<close>: a small database for the instances.
  \<^item> \<^verbatim>\<open>WorkersDB\<close>, \<^verbatim>\<open>VMsDB\<close> (\<^verbatim>\<open>db/postgres.go\<close>, \<^verbatim>\<open>db/worker_auth.go\<close>), \<^verbatim>\<open>Scheduler\<close> and \<^verbatim>\<open>Lifecycle\<close> (\<^verbatim>\<open>db/workstations.go\<close>),
    \<^verbatim>\<open>MembersDB\<close>, \<^verbatim>\<open>ReleasesDB\<close>: the operations of package \<^verbatim>\<open>db\<close>.  Each keeps the schema.  A claim takes the least
    free slot of a least loaded eligible worker and fails only for lack of capacity; the power states
    of a workstation follow an abstract state machine that the three operations on them refine, and
    deletion in it is final; tokens, host names, members and releases behave as their callers expect.
  \<^item> \<^verbatim>\<open>DbSystem\<close>: the database as a step relation over all these operations; reachable databases are
    consistent and never hold more workstations than a worker has slots.
  \<^item> \<^verbatim>\<open>ProxySession\<close>, \<^verbatim>\<open>ProxySystem\<close> (\<^verbatim>\<open>proxy/session.go\<close>) and \<^verbatim>\<open>Relay\<close> (\<^verbatim>\<open>proxy/relay.go\<close>): the session manager with the
    contract of a registry (locale \<open>session_registry\<close>), its critical sections in every interleaving, and the copy loop.
  \<^item> \<^verbatim>\<open>Request\<close>, \<^verbatim>\<open>Host\<close>, \<^verbatim>\<open>Access\<close>, \<^verbatim>\<open>ReleasePaths\<close>, \<^verbatim>\<open>Static\<close>: requests, responses and decoding of bodies (\<^verbatim>\<open>handler.go\<close>), host
    checks (\<^verbatim>\<open>host.go\<close>), Access tokens (\<^verbatim>\<open>access.go\<close>), paths and signatures of releases (\<^verbatim>\<open>release/store.go\<close>,
    \<^verbatim>\<open>codesign.go\<close>), the files of the web interface (\<^verbatim>\<open>static.go\<close>).
  \<^item> \<^verbatim>\<open>Ring\<close>, \<^verbatim>\<open>Terminal\<close>, \<^verbatim>\<open>TerminalSession\<close>, \<^verbatim>\<open>TerminalReplay\<close>, \<^verbatim>\<open>TerminalHandlers\<close> (\<^verbatim>\<open>terminal_sessions.go\<close>, \<^verbatim>\<open>terminal.go\<close>): the
    history ring refines the list of recent frames (locale \<open>bounded_log\<close>); attach, replay, writer, input,
    output, idle timer and close are programs of critical sections; the handler admits only the owner.
  \<^item> \<^verbatim>\<open>Prog\<close> and \<^verbatim>\<open>World\<close>: programs, rely and guarantee (\<open>conforms\<close>), interleaving (locale
    \<open>concurrent_system\<close>), the shared world, and \<open>entitled\<close>: what the credentials of a request allow it to change.
  \<^item> \<^verbatim>\<open>Auth\<close>, \<^verbatim>\<open>WorkerHandlers\<close>, \<^verbatim>\<open>WorkstationHandlers\<close>, \<^verbatim>\<open>ProxyHandlers\<close>, \<^verbatim>\<open>ReleaseHandlers\<close>: the middlewares and handlers of
    \<^verbatim>\<open>api/rest\<close>, each shown entitled to what it does.
  \<^item> \<^verbatim>\<open>Routes\<close>, \<^verbatim>\<open>Server\<close>, \<^verbatim>\<open>Registration\<close>, \<^verbatim>\<open>Main_Server\<close>: the route table and the multiplexer, the running server as an
    interleaving of requests, terminals and reaper, enrolment from the JSON text to the authenticated
    request after it, configuration and start.
  \<^item> \<^verbatim>\<open>Tart\<close> (\<^verbatim>\<open>TartDriver.swift\<close>), \<^verbatim>\<open>Agent\<close> (\<^verbatim>\<open>WorkstationManager.swift\<close>, \<^verbatim>\<open>VMInfo.swift\<close>), \<^verbatim>\<open>AgentClient\<close> (\<^verbatim>\<open>ControlAPIClient.swift\<close>,
    \<^verbatim>\<open>WorkerConfig+Network.swift\<close>), \<^verbatim>\<open>AgentLoop\<close> (\<^verbatim>\<open>Worker.swift\<close>, \<^verbatim>\<open>Config.swift\<close>, \<^verbatim>\<open>KeychainUnlocker.swift\<close>): the agent of a worker, each
    method a function on the state of its machine that returns or throws.  \<^verbatim>\<open>AgentWork\<close>: what reconciliation
    does to the machines when \<^verbatim>\<open>tart\<close> works, and a process that has died and is never started again.
  \<^item> \<^verbatim>\<open>AgentRelay\<close> (\<^verbatim>\<open>ProxyRelay.swift\<close>): the relay of the agent as a step relation; bytes pass in order in both
    directions, and a target that hangs up does not end it.
  \<^item> \<^verbatim>\<open>Fleet\<close>, \<^verbatim>\<open>FleetRound\<close>: agent and server together.  The transport of the agent is instantiated by the model of
    the server, down to the JSON text.  The two agree on the types of their messages, a heartbeat brings
    the agent in step with the database, and one round carries a release out.
  \<^item> This theory: the properties of the whole.

  \<^bold>\<open>Fuel and bounds.\<close>  The JSON parser takes the length of its text as fuel, which is shown to be enough.  The replay
  loop of an attach and the writer of an attachment take a number of rounds; two rounds are enough for the
  replay when the shell writes nothing meanwhile, and the running server quantifies over the number.  The
  reads of a shell and of a browser are given as lists of results.  The slot search has a termination
  proof.  Integers that reach the database are checked against the width of their column, and sizes of
  requests, queues and histories are the constants of the code.  A database call may fail before or after
  its effect; a transaction is one step, since it takes locks that make the claims serial.
  The wait of the agent for an address takes the number of rounds its timeout allows from the machine.
  A request of the agent is answered with at least four oracle values more than its body has characters,
  which is enough for every report in it.

  \<^bold>\<open>Parameters.\<close>  Parsing of URLs, PEM and X.509 (record \<open>lib\<close>), of Mach-O and CMS (\<open>macho_lib\<close>), the media type of a file and
  the listing of a directory (\<open>file_lib\<close>), YAML and the collation of the database are libraries: arguments of the definitions.
  The SSH client and the websocket library show in the answers of the oracle.  Properties that rely on
  a library say so in their hypotheses.
  The machine of a worker (record \<open>host_ops\<close>: processes, files, clock, transport) is a parameter of the agent;
  \<open>tart_works\<close> states the documented behaviour of \<^verbatim>\<open>tart\<close> that a property relies on, and \<open>sample_machine\<close> shows it can hold.
  \<open>connected\<close> states that agent and server reach each other without faults.

  \<^bold>\<open>Not modelled.\<close>  In the server: opening the connection pool and sending the schema (calls of the driver; what
  the schema declares is modelled), listening, signals and shutdown, logging; in the Go library: the
  nesting limit of the JSON decoder, redirects of the multiplexer for paths that are not clean, ranges
  and conditional requests of the file server, the parsing of a multipart form (a request carries its
  fields); a response is the value handed to the encoder.
  In the agent: the overlay on the lock screen and its local server, certificate pinning, the command line,
  the sleep assertion and the hardware identifier (calls of system frameworks), the order of a Swift
  dictionary (runtimes are visited in the order they were made), \<^verbatim>\<open>listLocalVMs\<close>, which nothing calls.
  The composed rounds of \<^verbatim>\<open>Fleet\<close> run one agent at a time, and a request of it to its end.
  The web interface (\<^verbatim>\<open>src/frontend\<close>) and the installation scripts are programs of their own that the server
  knows only through their requests.
\<close>

section \<open>The database under the running server\<close>

text \<open>
  C32: However the requests of members, workers and administrators, the terminals and the reaper are
  interleaved, and whatever fails or answers outside, the database of a running server is one that
  the operations of package \<^verbatim>\<open>db\<close> reach one after the other; in particular no worker is overcommitted.
\<close>

theorem server_refines_database:
  assumes "server_run sv (w, ps)" and "k \<in> set (db_workers (wd_db w))"
  shows "reach db_init db_step (wd_db w) \<and> db_ok (wd_db w) \<and>
    (let ws = filter (\<lambda>v. ws_worker_id v = wk_id k) (db_workstations (wd_db w))
     in length ws \<le> nat (wk_pool_size k) \<and> distinct (map ws_slot ws))"
proof -
  have r: "reach db_init db_step (wd_db w)"
    using srv.reachable_invar [OF assms(1)] by (simp add: server_db_reachable_def)
  then have ok: "db_ok (wd_db w)" by (rule dbs.reach_invar)
  from db_ok_pool [OF ok assms(2)] have "let ws = filter (\<lambda>v. ws_worker_id v = wk_id k) (db_workstations (wd_db w))
     in length ws \<le> nat (wk_pool_size k) \<and> distinct (map ws_slot ws)" by (simp add: Let_def)
  with r ok show ?thesis by blast
qed

theorem server_refines_database_witness:
  "\<exists>w ps. server_run sample_server (w, ps) \<and> ps \<noteq> [] \<and> sample_worker \<in> set (db_workers (wd_db w)) \<and>
     length (filter (\<lambda>v. ws_worker_id v = wk_id sample_worker) (db_workstations (wd_db w))) \<le> 2"
proof -
  obtain d where d: "reach db_init db_step d" "sample_worker \<in> set (db_workers d)" by (rule reach_example)
  let ?w = "sample_world\<lparr>wd_db := d\<rparr>"
  have "idle server_init (?w, [] :: server_prog list)" using d(1) by (simp add: idle_def server_init_def sample_world_def)
  then have "server_run sample_server (?w, [])" by (rule reach_init)
  moreover have "interleave (\<lambda>_. True) (server_start sample_server) (?w, []) (?w, [serve sample_server 2 [] sample_request])"
    using interleave.starts [of "server_start sample_server" "serve sample_server 2 [] sample_request" "\<lambda>_. True" ?w "[]"]
      server_start.request by simp
  ultimately have run: "server_run sample_server (?w, [serve sample_server 2 [] sample_request])" by (rule reach_step)
  with server_refines_database [OF run, of sample_worker] d(2) show ?thesis
    by (intro exI [of _ ?w] exI [of _ "[serve sample_server 2 [] sample_request]"]) (simp add: Let_def, simp add: sample_worker_def)
qed

section \<open>Who may change what\<close>


end
